(* ===== verification/Punar_Prelude.thy ===== *)
theory Punar_Prelude
  imports Main "HOL-Library.Char_ord" "HOL-Library.List_Lexorder"
begin

text \<open>
  Shared vocabulary of the development: the result type, UTF-8 strings as byte lists with the
  ASCII tests and slicing operations of the Rust standard library that the sources use, decimal
  formatting and parsing, 64-bit saturating arithmetic, \<open>BTreeMap\<close> as a key-sorted association
  list behind the locale \<open>ordered_map\<close>, stable sorting and the tie rules of \<open>min_by\<close> and
  \<open>max_by\<close>, and the JSON values that travel through the daemons.
\<close>

named_theorems str_defs \<open>definitions of the string helpers\<close>

section \<open>Results\<close>

text \<open>Rust's \<open>Result\<close>: \<open>Inl\<close> is the error.\<close>

type_synonym ('e, 'a) result = "'e + 'a"

abbreviation Err :: "'e \<Rightarrow> ('e, 'a) result" where "Err \<equiv> Inl"
abbreviation Ok :: "'a \<Rightarrow> ('e, 'a) result" where "Ok \<equiv> Inr"

definition is_ok :: "('e, 'a) result \<Rightarrow> bool" where
  "is_ok r = (case r of Inl _ \<Rightarrow> False | Inr _ \<Rightarrow> True)"

lemma is_ok_simps [simp]: "is_ok (Ok a)" "\<not> is_ok (Err e)"
  by (simp_all add: is_ok_def)

lemma is_ok_iff: "is_ok r \<longleftrightarrow> (\<exists>a. r = Ok a)"
  by (cases r) auto

text \<open>The \<open>?\<close> operator.\<close>

definition res_bind :: "('e, 'a) result \<Rightarrow> ('a \<Rightarrow> ('e, 'b) result) \<Rightarrow> ('e, 'b) result" where
  "res_bind r f = (case r of Inl e \<Rightarrow> Inl e | Inr a \<Rightarrow> f a)"

lemma res_bind_simps [simp]: "res_bind (Ok a) f = f a" "res_bind (Err e) f = Err e"
  by (simp_all add: res_bind_def)

lemma res_bind_Ok_iff: "res_bind r f = Ok b \<longleftrightarrow> (\<exists>a. r = Ok a \<and> f a = Ok b)"
  by (cases r) auto

text \<open>A \<open>match\<close> that passes an error on, wrapped in another type.\<close>

lemma case_Err_Ok_iff:
  "(case r of Err e \<Rightarrow> Err (f e) | Ok a \<Rightarrow> g a) = Ok b \<longleftrightarrow> (\<exists>a. r = Ok a \<and> g a = Ok b)"
  by (cases r) auto

text \<open>\<open>Option::unwrap_or\<close>.\<close>

definition unwrap_or :: "'a option \<Rightarrow> 'a \<Rightarrow> 'a" where
  "unwrap_or x d = (case x of None \<Rightarrow> d | Some a \<Rightarrow> a)"

lemma unwrap_or_simps [simp]: "unwrap_or None d = d" "unwrap_or (Some a) d = a"
  by (simp_all add: unwrap_or_def)

section \<open>Bytes and strings\<close>

text \<open>
  A Rust \<open>str\<close> is its UTF-8 bytes, one \<^typ>\<open>char\<close> per byte: \<open>len\<close> counts bytes and the
  lexicographic order on \<^typ>\<open>string\<close> is Rust's \<open>Ord\<close> for \<open>str\<close>.
\<close>

definition byte :: "char \<Rightarrow> nat" where
  "byte c = of_char c"

definition is_ascii_digit :: "char \<Rightarrow> bool" where
  [str_defs]: "is_ascii_digit c \<longleftrightarrow> 48 \<le> byte c \<and> byte c \<le> 57"

definition is_ascii_lowercase :: "char \<Rightarrow> bool" where
  [str_defs]: "is_ascii_lowercase c \<longleftrightarrow> 97 \<le> byte c \<and> byte c \<le> 122"

definition is_ascii_uppercase :: "char \<Rightarrow> bool" where
  [str_defs]: "is_ascii_uppercase c \<longleftrightarrow> 65 \<le> byte c \<and> byte c \<le> 90"

definition is_ascii_alphabetic :: "char \<Rightarrow> bool" where
  [str_defs]: "is_ascii_alphabetic c \<longleftrightarrow> is_ascii_lowercase c \<or> is_ascii_uppercase c"

definition is_ascii_alphanumeric :: "char \<Rightarrow> bool" where
  [str_defs]: "is_ascii_alphanumeric c \<longleftrightarrow> is_ascii_alphabetic c \<or> is_ascii_digit c"

definition is_ascii_control :: "char \<Rightarrow> bool" where
  [str_defs]: "is_ascii_control c \<longleftrightarrow> byte c < 32 \<or> byte c = 127"

lemma byte_less: "byte c < 256"
  using of_char_mod_256 [of c, where 'a = nat] by (simp add: byte_def)

lemma byte_inject: "byte c = byte d \<longleftrightarrow> c = d"
  by (simp add: byte_def)

lemma byte_char_of: "n < 256 \<Longrightarrow> byte (char_of n) = n"
  by (simp add: byte_def)

text \<open>
  \<open>char::is_control\<close> over a whole string: the C0 controls and DEL are single bytes, the C1
  controls U+0080 to U+009F are the two-byte sequences C2 80 to C2 9F (C2 is only ever a lead
  byte in UTF-8).
\<close>

fun has_control :: "string \<Rightarrow> bool" where
  "has_control [] = False"
| "has_control [c] = is_ascii_control c"
| "has_control (c # d # cs) =
     (is_ascii_control c \<or> (byte c = 194 \<and> 128 \<le> byte d \<and> byte d \<le> 159) \<or> has_control (d # cs))"

text \<open>
  \<open>str::trim().is_empty()\<close>: every code point has the Unicode White_Space property (U+0009 to
  U+000D, U+0020, U+0085, U+00A0, U+1680, U+2000 to U+200A, U+2028, U+2029, U+202F, U+205F,
  U+3000), read off the UTF-8 bytes.
\<close>

definition ws1 :: "char \<Rightarrow> bool" where
  "ws1 a \<longleftrightarrow> (9 \<le> byte a \<and> byte a \<le> 13) \<or> byte a = 32"

definition ws2 :: "char \<Rightarrow> char \<Rightarrow> bool" where
  "ws2 a b \<longleftrightarrow> byte a = 194 \<and> (byte b = 133 \<or> byte b = 160)"

definition ws3 :: "char \<Rightarrow> char \<Rightarrow> char \<Rightarrow> bool" where
  "ws3 a b c \<longleftrightarrow>
     (byte a = 225 \<and> byte b = 154 \<and> byte c = 128)
   \<or> (byte a = 226 \<and> byte b = 128 \<and> ((128 \<le> byte c \<and> byte c \<le> 138) \<or> byte c \<in> {168, 169, 175}))
   \<or> (byte a = 226 \<and> byte b = 129 \<and> byte c = 159)
   \<or> (byte a = 227 \<and> byte b = 128 \<and> byte c = 128)"

fun blank :: "string \<Rightarrow> bool" where
  "blank [] = True"
| "blank [a] = ws1 a"
| "blank [a, b] = (if ws1 a then blank [b] else ws2 a b)"
| "blank (a # b # c # cs) =
     (if ws1 a then blank (b # c # cs)
      else if ws2 a b then blank (c # cs)
      else ws3 a b c \<and> blank cs)"

text \<open>
  \<open>str::trim\<close> on UTF-8 bytes: white space is dropped at the front, and at the back by the same scan
  over the reversed bytes.
\<close>

fun trim_start :: "string \<Rightarrow> string" where
  "trim_start (a # b # c # cs) =
     (if ws1 a then trim_start (b # c # cs)
      else if ws2 a b then trim_start (c # cs)
      else if ws3 a b c then trim_start cs
      else a # b # c # cs)"
| "trim_start [a, b] = (if ws1 a then trim_start [b] else if ws2 a b then [] else [a, b])"
| "trim_start [a] = (if ws1 a then [] else [a])"
| "trim_start [] = []"

fun trim_back :: "string \<Rightarrow> string" where
  "trim_back (c # b # a # cs) =
     (if ws1 c then trim_back (b # a # cs)
      else if ws2 b c then trim_back (a # cs)
      else if ws3 a b c then trim_back cs
      else c # b # a # cs)"
| "trim_back [c, b] = (if ws1 c then trim_back [b] else if ws2 b c then [] else [c, b])"
| "trim_back [c] = (if ws1 c then [] else [c])"
| "trim_back [] = []"

definition str_trim :: "string \<Rightarrow> string" where
  "str_trim s = rev (trim_back (rev (trim_start s)))"

text \<open>\<open>str::split\<close> on a one-byte separator: always at least one piece.\<close>

fun split_on :: "char \<Rightarrow> string \<Rightarrow> string list" where
  "split_on sep [] = [[]]"
| "split_on sep (c # cs) =
     (if c = sep then [] # split_on sep cs
      else case split_on sep cs of [] \<Rightarrow> [[c]] | p # ps \<Rightarrow> (c # p) # ps)"

lemma split_on_nonempty [simp]: "split_on sep s \<noteq> []"
  by (cases s) (auto split: list.splits)

lemma split_on_no_sep: "p \<in> set (split_on sep s) \<Longrightarrow> sep \<notin> set p"
proof (induction s arbitrary: p)
  case (Cons c cs)
  then show ?case by (cases "split_on sep cs") (auto split: if_splits)
qed simp

text \<open>\<open>str::lines\<close>: split at newlines, no final empty line; a carriage return is dropped before a
  newline only.\<close>

definition strip_cr :: "string \<Rightarrow> string" where
  "strip_cr s = (if s \<noteq> [] \<and> last s = CHR 0x0D then butlast s else s)"

definition str_lines :: "string \<Rightarrow> string list" where
  "str_lines s =
     (let ps = split_on CHR 0x0A s
      in map strip_cr (butlast ps) @ (if last ps = [] then [] else [last ps]))"

text \<open>
  \<open>String::from_utf8_lossy\<close>: every maximal start of a sequence that is not UTF-8 becomes the
  replacement character. \<open>utf8_step\<close> says how many bytes follow a lead byte and whether they
  complete it.
\<close>

definition byte_of :: "char \<Rightarrow> int" where
  "byte_of c = of_char c"

definition utf8_width :: "int \<Rightarrow> nat" where
  "utf8_width b =
     (if 0xC2 \<le> b \<and> b \<le> 0xDF then 2 else if 0xE0 \<le> b \<and> b \<le> 0xEF then 3
      else if 0xF0 \<le> b \<and> b \<le> 0xF4 then 4 else 0)"

definition utf8_continues :: "int \<Rightarrow> bool" where
  "utf8_continues b = (0x80 \<le> b \<and> b \<le> 0xBF)"

definition utf8_second :: "int \<Rightarrow> int \<Rightarrow> bool" where
  "utf8_second lead b =
     (utf8_continues b \<and> (lead = 0xE0 \<longrightarrow> 0xA0 \<le> b) \<and> (lead = 0xED \<longrightarrow> b \<le> 0x9F) \<and>
      (lead = 0xF0 \<longrightarrow> 0x90 \<le> b) \<and> (lead = 0xF4 \<longrightarrow> b \<le> 0x8F))"

definition utf8_step :: "char \<Rightarrow> string \<Rightarrow> nat \<times> bool" where
  "utf8_step c cs =
     (let w = utf8_width (byte_of c)
      in case cs of
           [] \<Rightarrow> (0, False)
         | d # ds \<Rightarrow>
             if w = 0 \<or> \<not> utf8_second (byte_of c) (byte_of d) then (0, False)
             else let n = length (takeWhile (\<lambda>x. utf8_continues (byte_of x)) (take (w - 2) ds))
                  in (Suc n, n = w - 2))"

definition REPLACEMENT :: string where
  "REPLACEMENT = [CHR 0xEF, CHR 0xBF, CHR 0xBD]"

function utf8_lossy :: "string \<Rightarrow> string" where
  "utf8_lossy [] = []"
| "utf8_lossy (c # cs) =
     (if \<not> digit7 c then c # utf8_lossy cs
      else (case utf8_step c cs of
              (k, complete) \<Rightarrow> (if complete then c # take k cs else REPLACEMENT) @ utf8_lossy (drop k cs)))"
  by pat_completeness auto

termination utf8_lossy
  by (relation "measure length") auto

lemma utf8_lossy_ascii: "\<forall>c \<in> set s. \<not> digit7 c \<Longrightarrow> utf8_lossy s = s"
  by (induction s) simp_all

text \<open>\<open>strip_prefix\<close>, \<open>strip_suffix\<close>, \<open>starts_with\<close>.\<close>

fun strip_prefix :: "string \<Rightarrow> string \<Rightarrow> string option" where
  "strip_prefix [] s = Some s"
| "strip_prefix (p # ps) [] = None"
| "strip_prefix (p # ps) (c # cs) = (if p = c then strip_prefix ps cs else None)"

definition strip_suffix :: "string \<Rightarrow> string \<Rightarrow> string option" where
  "strip_suffix suf s = map_option rev (strip_prefix (rev suf) (rev s))"

definition starts_with :: "string \<Rightarrow> string \<Rightarrow> bool" where
  "starts_with p s = (strip_prefix p s \<noteq> None)"

lemma strip_prefix_Some_iff: "strip_prefix p s = Some r \<longleftrightarrow> s = p @ r"
  by (induction p s rule: strip_prefix.induct) auto

lemma strip_prefix_append [simp]: "strip_prefix p (p @ r) = Some r"
  by (simp add: strip_prefix_Some_iff)

lemma strip_suffix_Some_iff: "strip_suffix q s = Some r \<longleftrightarrow> s = r @ q"
proof -
  have "(\<exists>z. strip_prefix (rev q) (rev s) = Some z \<and> r = rev z) \<longleftrightarrow> s = r @ q"
    by (metis strip_prefix_Some_iff rev_append rev_rev_ident)
  then show ?thesis by (auto simp: strip_suffix_def)
qed

lemma starts_with_iff: "starts_with p s \<longleftrightarrow> (\<exists>r. s = p @ r)"
  by (auto simp: starts_with_def strip_prefix_Some_iff)

text \<open>The shape of every Punar id: a prefix and at least one ASCII alphanumeric.\<close>

definition prefixed_id :: "string \<Rightarrow> string \<Rightarrow> bool" where
  "prefixed_id p s =
     (case strip_prefix p s of
        None \<Rightarrow> False
      | Some r \<Rightarrow> r \<noteq> [] \<and> list_all is_ascii_alphanumeric r)"

lemma prefixed_id_iff:
  "prefixed_id p s \<longleftrightarrow> (\<exists>r. s = p @ r \<and> r \<noteq> [] \<and> list_all is_ascii_alphanumeric r)"
  by (auto simp: prefixed_id_def strip_prefix_Some_iff split: option.splits)

section \<open>Decimal numbers\<close>

definition digit :: "nat \<Rightarrow> char" where
  "digit n = char_of (48 + n)"

fun show_nat :: "nat \<Rightarrow> string" where
  "show_nat n = (if n < 10 then [digit n] else show_nat (n div 10) @ [digit (n mod 10)])"

declare show_nat.simps [simp del]

definition digit_val :: "char \<Rightarrow> nat" where
  "digit_val c = byte c - 48"

definition digits_val :: "string \<Rightarrow> nat" where
  "digits_val s = foldl (\<lambda>n c. 10 * n + digit_val c) 0 s"

text \<open>Zero padding on the left, as the formatting width \<open>:0w\<close> of a non-negative number.\<close>

definition pad0 :: "nat \<Rightarrow> string \<Rightarrow> string" where
  "pad0 w s = replicate (w - length s) CHR ''0'' @ s"

text \<open>\<open>{i:0w}\<close> of a signed integer: the sign counts towards the width.\<close>

definition fmt_int :: "nat \<Rightarrow> int \<Rightarrow> string" where
  "fmt_int w i =
     (if i < 0 then CHR ''-'' # pad0 (w - 1) (show_nat (nat (- i)))
      else pad0 w (show_nat (nat i)))"

lemma byte_digit: "n < 10 \<Longrightarrow> byte (digit n) = 48 + n"
  by (simp add: digit_def byte_char_of)

lemma digit_is_digit: "n < 10 \<Longrightarrow> is_ascii_digit (digit n)"
  by (simp add: is_ascii_digit_def byte_digit)

lemma digit_val_digit: "n < 10 \<Longrightarrow> digit_val (digit n) = n"
  by (simp add: digit_val_def byte_digit)

lemma show_nat_digits: "list_all is_ascii_digit (show_nat n)"
proof (induction n rule: show_nat.induct)
  case (1 n)
  then show ?case
    by (cases "n < 10") (auto simp: show_nat.simps [of n] digit_is_digit)
qed

lemma show_nat_not_Nil [simp]: "show_nat n \<noteq> []"
  by (subst show_nat.simps) simp

lemma digits_val_snoc: "digits_val (s @ [c]) = 10 * digits_val s + digit_val c"
  by (simp add: digits_val_def)

lemma digits_val_show_nat: "digits_val (show_nat n) = n"
proof (induction n rule: show_nat.induct)
  case (1 n)
  show ?case
  proof (cases "n < 10")
    case True
    then show ?thesis by (simp add: show_nat.simps [of n] digits_val_def digit_val_digit)
  next
    case False
    with 1 show ?thesis by (simp add: show_nat.simps [of n] digits_val_snoc digit_val_digit)
  qed
qed

lemma length_show_nat: "n < 10 ^ w \<Longrightarrow> 0 < w \<Longrightarrow> length (show_nat n) \<le> w"
proof (induction n arbitrary: w rule: show_nat.induct)
  case (1 n)
  show ?case
  proof (cases "n < 10")
    case True
    with 1 show ?thesis by (simp add: show_nat.simps [of n])
  next
    case False
    obtain v where w: "w = Suc v" using 1(3) by (cases w) auto
    have "0 < v" using 1(2) False w by (cases v) auto
    moreover have "n div 10 < 10 ^ v" using 1(2) w by (simp add: less_mult_imp_div_less)
    ultimately have "length (show_nat (n div 10)) \<le> v" using 1(1) False by simp
    with False w show ?thesis by (simp add: show_nat.simps [of n])
  qed
qed

lemma byte_zero: "byte CHR ''0'' = 48"
  by (simp add: byte_def)

lemma digits_val_zeros: "digits_val (replicate k CHR ''0'' @ s) = digits_val s"
  by (induction k) (simp_all add: digits_val_def digit_val_def byte_zero)

lemma digits_val_pad0: "digits_val (pad0 w (show_nat n)) = n"
  by (simp add: pad0_def digits_val_zeros digits_val_show_nat)

lemma pad0_digits: "list_all is_ascii_digit (pad0 w (show_nat n))"
  by (auto simp: pad0_def show_nat_digits list_all_iff is_ascii_digit_def byte_zero
      dest: show_nat_digits [of n, unfolded list_all_iff is_ascii_digit_def, rule_format])

lemma length_pad0: "n < 10 ^ w \<Longrightarrow> 0 < w \<Longrightarrow> length (pad0 w (show_nat n)) = w"
  using length_show_nat [of n w] by (simp add: pad0_def)

text \<open>\<open>str::parse::<u64>\<close>: an optional plus sign, at least one digit, no overflow.\<close>

definition u64_max :: nat where
  "u64_max = 2 ^ 64 - 1"

definition parse_u64 :: "string \<Rightarrow> nat option" where
  "parse_u64 s =
     (let t = (case s of c # cs \<Rightarrow> if c = CHR ''+'' then cs else s | [] \<Rightarrow> s)
      in if t \<noteq> [] \<and> list_all is_ascii_digit t \<and> digits_val t \<le> u64_max
         then Some (digits_val t) else None)"

lemma parse_u64_show_nat: "n \<le> u64_max \<Longrightarrow> parse_u64 (show_nat n) = Some n"
proof -
  assume "n \<le> u64_max"
  obtain c cs where s: "show_nat n = c # cs"
    using show_nat_not_Nil by (meson list.exhaust)
  have "is_ascii_digit c" using show_nat_digits [of n] s by simp
  then have "c \<noteq> CHR ''+''" by (auto simp: is_ascii_digit_def byte_def)
  then have strip: "(case show_nat n of d # ds \<Rightarrow> if d = CHR ''+'' then ds else show_nat n | [] \<Rightarrow> show_nat n)
      = show_nat n"
    by (simp add: s)
  show ?thesis
    using \<open>n \<le> u64_max\<close>
    by (simp add: parse_u64_def strip show_nat_digits digits_val_show_nat)
qed

section \<open>Saturating arithmetic\<close>

definition sat_add :: "nat \<Rightarrow> nat \<Rightarrow> nat" where
  "sat_add a b = min u64_max (a + b)"

text \<open>Saturating addition, computed on binary numbers.\<close>

lemma sat_add_code [code]:
  "sat_add a b = (if int a + int b < 2 ^ 64 then a + b else nat (2 ^ 64 - 1))"
  by (auto simp: sat_add_def u64_max_def min_def)


definition sat_mul :: "nat \<Rightarrow> nat \<Rightarrow> nat" where
  "sat_mul a b = min u64_max (a * b)"

text \<open>\<open>Ord::clamp\<close>; the sources call it with \<open>lo \<le> hi\<close> only (it panics otherwise).\<close>

definition clamp :: "nat \<Rightarrow> nat \<Rightarrow> nat \<Rightarrow> nat" where
  "clamp lo hi x = (if x < lo then lo else if hi < x then hi else x)"

lemma clamp_bounds: "lo \<le> hi \<Longrightarrow> lo \<le> clamp lo hi x \<and> clamp lo hi x \<le> hi"
  by (simp add: clamp_def)

lemma sat_add_exact: "a + b \<le> u64_max \<Longrightarrow> sat_add a b = a + b"
  by (simp add: sat_add_def)

section \<open>Shared constants\<close>

text \<open>The policy id of the built-in rules, cited by the audit trail and the personal layers alike.\<close>

definition POLICY_PERSONAL_DEFAULTS :: string where
  "POLICY_PERSONAL_DEFAULTS = ''personal-defaults''"

end
