(* ===== verification/Punar_Time.thy ===== *)
theory Punar_Time
  imports Punar_Prelude "HOL-Library.Signed_Division"
begin

text \<open>
  \<open>crates/punar-common/src/time.rs\<close>: the hand-written RFC 3339 formatter and parser every
  expiry in the system goes through. Signed 64-bit days and years are \<open>int\<close>; Rust's truncating
  division is \<open>sdiv\<close>. The lemmas show that formatting and parsing are inverse for every instant
  up to the end of year 9999 and that the parser accepts nothing but calendar-valid instants.
\<close>

definition SECS_PER_DAY :: nat where
  "SECS_PER_DAY = 86400"

section \<open>Civil dates\<close>

definition civil_from_days :: "int \<Rightarrow> int \<times> int \<times> int" where
  "civil_from_days days =
     (let z = days + 719468;
          era = (if z \<ge> 0 then z else z - 146096) sdiv 146097;
          doe = z - era * 146097;
          yoe = (doe - doe div 1460 + doe div 36524 - doe div 146096) div 365;
          year = yoe + era * 400;
          doy = doe - (365 * yoe + yoe div 4 - yoe div 100);
          mp = (5 * doy + 2) div 153;
          day = doy - (153 * mp + 2) div 5 + 1;
          month = (if mp < 10 then mp + 3 else mp - 9)
      in (year + (if month \<le> 2 then 1 else 0), month, day))"

definition days_from_civil :: "int \<Rightarrow> int \<Rightarrow> int \<Rightarrow> int" where
  "days_from_civil year month day =
     (let y = year - (if month \<le> 2 then 1 else 0);
          era = (if y \<ge> 0 then y else y - 399) sdiv 400;
          yoe = y - era * 400;
          doy = (153 * (if month > 2 then month - 3 else month + 9) + 2) div 5 + day - 1;
          doe = yoe * 365 + yoe div 4 - yoe div 100 + doy
      in era * 146097 + doe - 719468)"

definition days_in_month :: "int \<Rightarrow> int \<Rightarrow> int" where
  "days_in_month year month =
     (if month \<in> {1, 3, 5, 7, 8, 10, 12} then 31
      else if month \<in> {4, 6, 9, 11} then 30
      else if month = 2 \<and> (year mod 4 = 0 \<and> year mod 100 \<noteq> 0 \<or> year mod 400 = 0) then 29
      else if month = 2 then 28
      else 0)"

section \<open>Formatting\<close>

definition rfc3339_utc_from_unix_seconds :: "nat \<Rightarrow> string" where
  "rfc3339_utc_from_unix_seconds secs =
     (let days = int (secs div SECS_PER_DAY);
          second_of_day = secs mod SECS_PER_DAY;
          (year, month, day) = civil_from_days days;
          hour = second_of_day div 3600;
          minute = (second_of_day mod 3600) div 60;
          second = second_of_day mod 60
      in fmt_int 4 year @ ''-'' @ fmt_int 2 month @ ''-'' @ fmt_int 2 day @ ''T''
         @ pad0 2 (show_nat hour) @ '':'' @ pad0 2 (show_nat minute) @ '':''
         @ pad0 2 (show_nat second) @ ''Z'')"

section \<open>Parsing\<close>

definition slice :: "string \<Rightarrow> nat \<Rightarrow> nat \<Rightarrow> string" where
  "slice b i j = take (j - i) (drop i b)"

definition digits_in :: "string \<Rightarrow> nat \<Rightarrow> nat \<Rightarrow> bool" where
  "digits_in b i j = list_all is_ascii_digit (slice b i j)"

definition num_in :: "string \<Rightarrow> nat \<Rightarrow> nat \<Rightarrow> int" where
  "num_in b i j = int (digits_val (slice b i j))"

text \<open>The position after the optional fraction: past the dot and its run of digits.\<close>

definition after_fraction :: "string \<Rightarrow> nat" where
  "after_fraction b =
     (if b ! 19 = CHR ''.'' then 20 + length (takeWhile is_ascii_digit (drop 20 b)) else 19)"

definition is_rfc3339_timestamp :: "string \<Rightarrow> bool" where
  "is_rfc3339_timestamp b =
     (if length b < 20 then False
      else if \<not> (digits_in b 0 4 \<and> b ! 4 = CHR ''-'' \<and> digits_in b 5 7 \<and> b ! 7 = CHR ''-''
                \<and> digits_in b 8 10 \<and> (b ! 10 = CHR ''T'' \<or> b ! 10 = CHR ''t'')
                \<and> digits_in b 11 13 \<and> b ! 13 = CHR '':'' \<and> digits_in b 14 16
                \<and> b ! 16 = CHR '':'' \<and> digits_in b 17 19) then False
      else
        (let pos = after_fraction b
         in if b ! 19 = CHR ''.'' \<and> pos = 20 then False
            else if pos \<ge> length b then False
            else if b ! pos = CHR ''Z'' \<or> b ! pos = CHR ''z'' then pos + 1 = length b
            else if b ! pos = CHR ''+'' \<or> b ! pos = CHR ''-''
            then pos + 6 = length b \<and> digits_in b (pos + 1) (pos + 3)
                 \<and> b ! (pos + 3) = CHR '':'' \<and> digits_in b (pos + 4) (pos + 6)
            else False))"

definition unix_seconds_from_rfc3339 :: "string \<Rightarrow> nat option" where
  "unix_seconds_from_rfc3339 s =
     (if \<not> is_rfc3339_timestamp s then None
      else
        (let year = num_in s 0 4; month = num_in s 5 7; day = num_in s 8 10;
             hour = num_in s 11 13; minute = num_in s 14 16; second = num_in s 17 19
         in if \<not> (1 \<le> month \<and> month \<le> 12) \<or> day < 1 \<or> day > days_in_month year month then None
            else if hour > 23 \<or> minute > 59 \<or> second > 60 then None
            else
              (let days = days_from_civil year month day;
                   total = days * int SECS_PER_DAY + hour * 3600 + minute * 60 + min second 59;
                   pos = after_fraction s;
                   offset = num_in s (pos + 1) (pos + 3) * 3600 + num_in s (pos + 4) (pos + 6) * 60;
                   shifted =
                     (if s ! pos = CHR ''Z'' \<or> s ! pos = CHR ''z'' then total
                      else if s ! pos = CHR ''+'' then total - offset else total + offset)
               in if shifted < 0 then None else Some (nat shifted))))"

section \<open>The calendar is inverted\<close>

lemma floor_by_sdiv:
  fixes z b k :: int
  assumes "0 < b" and k: "k = b - 1"
  shows "(if z \<ge> 0 then z else z - k) sdiv b = z div b"
proof (cases "z \<ge> 0")
  case True
  then show ?thesis using assms by (cases "z = 0") (simp_all add: signed_divide_int_def sgn_if)
next
  case False
  have "b - 1 - z = b * - (z div b) + (b - 1 - z mod b)"
    by (simp add: minus_mod_eq_mult_div [symmetric])
  then have "(b - 1 - z) div b = - (z div b)"
    by (rule int_div_pos_eq)
       (use assms pos_mod_sign [OF assms(1), of z] pos_mod_bound [OF assms(1), of z] in linarith)+
  moreover have "\<bar>z - (b - 1)\<bar> = b - 1 - z" using False assms by simp
  ultimately show ?thesis using False assms
    by (simp add: signed_divide_int_def sgn_if abs_of_pos)
qed

text \<open>
  A day of the 400-year era by century, 4-year cycle and the rest; the day after three short
  centuries belongs to the last cycle.
\<close>

lemma era_split:
  assumes "0 \<le> doe" "doe \<le> (146096::int)"
  obtains c q s where "doe = 36524 * c + 1461 * q + s" "0 \<le> c" "c \<le> 3" "0 \<le> q" "q \<le> 24"
    "0 \<le> s" "s \<le> 1460" "c = 3 \<or> 1461 * q + s < 36524"
proof -
  define c where "c = min 3 (doe div 36524)"
  define d where "d = doe - 36524 * c"
  have c: "0 \<le> c" "c \<le> 3" using assms by (auto simp: c_def pos_imp_zdiv_nonneg_iff)
  have d: "0 \<le> d" "d \<le> 36524" "c < 3 \<Longrightarrow> d < 36524"
    using assms by (auto simp: d_def c_def min_def)
  show thesis
  proof (rule that [of c "d div 1461" "d mod 1461"])
    show "doe = 36524 * c + 1461 * (d div 1461) + d mod 1461" by (simp add: d_def)
    show "c = 3 \<or> 1461 * (d div 1461) + d mod 1461 < 36524" using c d by (cases "c < 3") auto
  qed (use c d in auto)
qed

lemma yoe_of_split:
  assumes "doe = 36524 * c + 1461 * q + s" "0 \<le> c" "c \<le> 3" "0 \<le> q" "q \<le> 24"
    "0 \<le> s" "s \<le> (1460::int)" "c = 3 \<or> 1461 * q + s < 36524"
  shows "(doe - doe div 1460 + doe div 36524 - doe div 146096) div 365
    = 100 * c + 4 * q + min 3 (s div 365)"
proof -
  define e :: int where "e = (if 24 * c + q + s \<ge> 1460 then 1 else 0)"
  define l :: int where "l = (if doe = 146096 then 1 else 0)"
  have c4: "c = 0 \<or> c = 1 \<or> c = 2 \<or> c = 3" using assms(2,3) by linarith
  have "doe div 1460 = 25 * c + q + e"
    by (rule int_div_pos_eq [of _ _ _ "24 * c + q + s - 1460 * e"])
       (use assms in \<open>auto simp: e_def\<close>)
  moreover have "doe div 36524 = c + l"
    by (rule int_div_pos_eq [of _ _ _ "1461 * q + s - 36524 * l"])
       (use assms c4 in \<open>auto simp: l_def\<close>)
  moreover have "doe div 146096 = l"
    by (rule int_div_pos_eq [of _ _ _ "doe - 146096 * l"])
       (use assms c4 in \<open>auto simp: l_def\<close>)
  ultimately have "doe - doe div 1460 + doe div 36524 - doe div 146096
      = 365 * (100 * c + 4 * q) + (s - e)"
    using assms(1) by simp
  then have "(doe - doe div 1460 + doe div 36524 - doe div 146096) div 365
      = 100 * c + 4 * q + (s - e) div 365"
    by simp
  moreover have "(s - e) div 365 = min 3 (s div 365)"
    using assms c4 by (auto simp: e_def min_def)
  ultimately show ?thesis by simp
qed

text \<open>The month table, day by day of a year that starts in March.\<close>

definition march_month :: "int \<Rightarrow> int" where
  "march_month doy = (let mp = (5 * doy + 2) div 153 in if mp < 10 then mp + 3 else mp - 9)"

definition march_day :: "int \<Rightarrow> int" where
  "march_day doy = doy - (153 * ((5 * doy + 2) div 153) + 2) div 5 + 1"

definition march_ok :: "int \<Rightarrow> bool" where
  "march_ok doy \<longleftrightarrow>
     1 \<le> march_month doy \<and> march_month doy \<le> 12 \<and> 1 \<le> march_day doy \<and>
     (if march_month doy = 2
      then march_day doy \<le> 29 \<and> (march_day doy = 29 \<longrightarrow> doy = 365)
      else march_day doy \<le> days_in_month 1 (march_month doy)) \<and>
     (153 * (if march_month doy > 2 then march_month doy - 3 else march_month doy + 9) + 2) div 5
        + march_day doy - 1 = doy \<and>
     (march_month doy \<le> 2 \<longleftrightarrow> doy \<ge> 306)"

lemma march_table:
  assumes "0 \<le> doy" "doy \<le> 365"
  shows "march_ok doy"
proof -
  define mp where "mp = (5 * doy + 2) div 153"
  have mp: "153 * mp \<le> 5 * doy + 2" "5 * doy + 2 < 153 * mp + 153"
    unfolding mp_def by (simp_all add: minus_mod_eq_mult_div [symmetric] algebra_simps)
  have "0 \<le> mp" "mp \<le> 11" using mp assms by linarith+
  then have "mp \<in> {0, 1, 2, 3, 4, 5, 6, 7, 8, 9, 10, 11}" by simp presburger
  then show ?thesis
    using mp assms
    unfolding march_ok_def march_month_def march_day_def mp_def [symmetric] Let_def insert_iff empty_iff
    by (elim disjE) (simp_all add: days_in_month_def, linarith?)
qed

lemma days_in_month_not_feb: "m \<noteq> 2 \<Longrightarrow> days_in_month y m = days_in_month 1 m"
  by (simp add: days_in_month_def)

lemma civil_era:
  assumes "0 \<le> doe" "doe \<le> (146096::int)" "civil_from_days (146097 * era + doe - 719468) = (year, month, day)"
  obtains yoe doy where "0 \<le> yoe" "yoe \<le> 399" "0 \<le> doy" "doy \<le> 365"
    "doe = 365 * yoe + yoe div 4 - yoe div 100 + doy"
    "month = march_month doy" "day = march_day doy"
    "year = yoe + 400 * era + (if month \<le> 2 then 1 else 0)"
    "doy = 365 \<Longrightarrow> year mod 4 = 0 \<and> (year mod 100 \<noteq> 0 \<or> year mod 400 = 0)"
proof -
  obtain c q s where sp: "doe = 36524 * c + 1461 * q + s" "0 \<le> c" "c \<le> 3" "0 \<le> q" "q \<le> 24"
    "0 \<le> s" "s \<le> 1460" "c = 3 \<or> 1461 * q + s < 36524"
    using era_split [OF assms(1,2)] by blast
  define t where "t = min 3 (s div 365)"
  define yoe where "yoe = 100 * c + 4 * q + t"
  define doy where "doy = s - 365 * t"
  have t: "0 \<le> t" "t \<le> 3" "0 \<le> doy" "doy \<le> 365" "doy = 365 \<Longrightarrow> t = 3 \<and> s = 1460"
  proof -
    have "s = 365 * (s div 365) + s mod 365" "0 \<le> s mod 365" "s mod 365 < 365" by simp_all
    moreover have "0 \<le> s div 365" "s div 365 \<le> 4" using sp(6,7) by auto
    ultimately show "0 \<le> t" "t \<le> 3" "0 \<le> doy" "doy \<le> 365" "doy = 365 \<Longrightarrow> t = 3 \<and> s = 1460"
      using sp(7) unfolding t_def doy_def by linarith+
  qed
  have y4: "yoe div 4 = 25 * c + q"
    by (rule int_div_pos_eq [of _ _ _ t]) (use t in \<open>auto simp: yoe_def\<close>)
  have y100: "yoe div 100 = c"
    by (rule int_div_pos_eq [of _ _ _ "4 * q + t"]) (use t sp in \<open>auto simp: yoe_def\<close>)
  have doe: "doe = 365 * yoe + yoe div 4 - yoe div 100 + doy"
    unfolding y4 y100 using sp(1) by (simp add: yoe_def doy_def)
  have era: "(146097 * era + doe) div 146097 = era"
    by (rule int_div_pos_eq [of _ _ _ doe]) (use assms in auto)
  have yr_eq: "(doe - doe div 1460 + doe div 36524 - doe div 146096) div 365 = yoe"
    unfolding yoe_of_split [OF sp] yoe_def t_def ..
  have doy_eq: "doe - (365 * yoe + yoe div 4 - yoe div 100) = doy" using doe by linarith
  have era_eq: "(if 146097 * era + doe \<ge> 0 then 146097 * era + doe
      else 146097 * era + doe - 146096) sdiv 146097 = era"
    using era by (subst floor_by_sdiv) simp_all
  have z: "146097 * era + doe - 719468 + 719468 = 146097 * era + doe"
    "146097 * era + doe - era * 146097 = doe" by simp_all
  have civ: "year = yoe + 400 * era + (if month \<le> 2 then 1 else 0) \<and> month = march_month doy \<and>
      day = march_day doy"
    using assms(3) unfolding civil_from_days_def Let_def z era_eq yr_eq doy_eq march_month_def
      march_day_def prod.inject by (elim conjE) (hypsubst, simp only: mult.commute simp_thms)
  show thesis
  proof (rule that [of yoe doy])
    assume "doy = 365"
    then have "month = 2" "t = 3" "s = 1460" using civ t by (auto simp: march_month_def)
    then have yr: "year = 400 * era + 100 * c + 4 * (q + 1)" using civ by (simp add: yoe_def)
    have "year mod 4 = 0" unfolding yr by presburger
    moreover have "year mod 400 = 0" if "q = 24"
      using sp(8) \<open>s = 1460\<close> that unfolding yr by auto
    moreover have "year mod 100 = 4 * (q + 1)" if "q \<noteq> 24"
      by (rule int_mod_pos_eq [of _ _ "4 * era + c"]) (use that sp(4,5) yr in auto)
    ultimately show "year mod 4 = 0 \<and> (year mod 100 \<noteq> 0 \<or> year mod 400 = 0)"
      using sp(4) by fastforce
  qed (use t(1,2,3,4) sp(2,3,4,5) civ doe in \<open>simp_all add: yoe_def\<close>)
qed

lemma civil_days:
  obtains era doe where "days = 146097 * era + doe - 719468" "0 \<le> doe" "doe \<le> (146096::int)"
  by (rule that [of "(days + 719468) div 146097" "(days + 719468) mod 146097"]) auto

lemma days_from_civil_inverse:
  assumes "civil_from_days days = (year, month, day)"
  shows "days_from_civil year month day = days"
    and "1 \<le> month" and "month \<le> 12" and "1 \<le> day" and "day \<le> days_in_month year month"
proof -
  obtain era doe where d: "days = 146097 * era + doe - 719468" "0 \<le> doe" "doe \<le> 146096"
    by (rule civil_days)
  obtain yoe doy where y: "0 \<le> yoe" "yoe \<le> 399" "0 \<le> doy" "doy \<le> 365"
    "doe = 365 * yoe + yoe div 4 - yoe div 100 + doy" "month = march_month doy"
    "day = march_day doy" "year = yoe + 400 * era + (if month \<le> 2 then 1 else 0)"
    "doy = 365 \<Longrightarrow> year mod 4 = 0 \<and> (year mod 100 \<noteq> 0 \<or> year mod 400 = 0)"
    using civil_era [OF d(2,3)] assms d(1) by metis
  have ok: "march_ok doy" using march_table y(3,4) by blast
  then show "1 \<le> month" "month \<le> 12" "1 \<le> day" by (auto simp: march_ok_def y(6,7))
  have "(yoe + 400 * era) div 400 = era"
    by (rule int_div_pos_eq [of _ _ _ yoe]) (use y in auto)
  then have era_eq: "(if yoe + 400 * era \<ge> 0 then yoe + 400 * era else yoe + 400 * era - 399)
      sdiv 400 = era"
    by (subst floor_by_sdiv) simp_all
  have y_eq: "year - (if month \<le> 2 then 1 else 0) = yoe + 400 * era"
    "yoe + 400 * era - era * 400 = yoe" using y(8) by simp_all
  have doy_eq: "(153 * (if month > 2 then month - 3 else month + 9) + 2) div 5 + day - 1 = doy"
    using ok unfolding march_ok_def y(6,7) by blast
  show "days_from_civil year month day = days"
    unfolding days_from_civil_def Let_def y_eq era_eq doy_eq d(1) y(5) by simp
  show "day \<le> days_in_month year month"
  proof (cases "month = 2")
    case True
    show ?thesis
    proof (cases "day = 29")
      case True
      with \<open>month = 2\<close> ok y(6,7) have "doy = 365" by (auto simp: march_ok_def)
      from y(9) [OF this] True \<open>month = 2\<close> show ?thesis by (auto simp: days_in_month_def)
    next
      case False
      with True ok y(6,7) show ?thesis by (auto simp: march_ok_def days_in_month_def)
    qed
  next
    case False
    with ok y(6,7) show ?thesis
      using days_in_month_not_feb [OF False, of year] by (auto simp: march_ok_def)
  qed
qed

text \<open>Years of the Unix era up to 9999.\<close>

lemma civil_year_bounds:
  assumes "civil_from_days days = (year, month, day)" "0 \<le> days" "days \<le> 2932896"
  shows "1970 \<le> year" "year \<le> 9999"
proof -
  obtain era doe where d: "days = 146097 * era + doe - 719468" "0 \<le> doe" "doe \<le> 146096"
    by (rule civil_days)
  obtain yoe doy where y: "0 \<le> yoe" "yoe \<le> 399" "0 \<le> doy" "doy \<le> 365"
    "doe = 365 * yoe + yoe div 4 - yoe div 100 + doy" "month = march_month doy"
    "year = yoe + 400 * era + (if month \<le> 2 then 1 else 0)"
    using civil_era [OF d(2,3)] assms(1) d(1) by metis
  have m: "month \<le> 2 \<longleftrightarrow> doy \<ge> 306"
    using march_table [OF y(3,4)] unfolding y(6) by (simp add: march_ok_def)
  have nn: "0 \<le> yoe div 100" using y(1) by (simp add: pos_imp_zdiv_nonneg_iff)
  show "1970 \<le> year"
  proof (rule ccontr)
    assume "\<not> 1970 \<le> year"
    then have "era \<le> 4" "era = 4 \<Longrightarrow> yoe \<le> 369" using y(1,7) by (auto split: if_splits)
    moreover have "era \<ge> 4" using d assms(2) by linarith
    ultimately have e: "era = 4" "yoe \<le> 369" by auto
    then have "yoe \<noteq> 369"
      using d y assms(2) m \<open>\<not> 1970 \<le> year\<close> by auto
    with e have "yoe \<le> 368" by linarith
    then have "yoe div 4 \<le> 92" using zdiv_mono1 [of yoe 368 4] by simp
    then show False using e d y(4,5) nn assms(2) \<open>yoe \<le> 368\<close> by linarith
  qed
  show "year \<le> 9999"
  proof (rule ccontr)
    assume "\<not> year \<le> 9999"
    moreover have "era \<le> 24" using d assms(3) by linarith
    ultimately have "era = 24" "yoe = 399" "month \<le> 2" using y(2,7) by (auto split: if_splits)
    then show False using d y m assms(3) by auto
  qed
qed

section \<open>Fixed-width fields\<close>

lemma two_digits:
  assumes "n < 100"
  obtains a b where "pad0 2 (show_nat n) = [a, b]" "is_ascii_digit a" "is_ascii_digit b"
    "digits_val [a, b] = n"
proof -
  have "length (pad0 2 (show_nat n)) = Suc (Suc 0)" using length_pad0 [of n 2] assms by simp
  then obtain a b where ab: "pad0 2 (show_nat n) = [a, b]" by (auto simp: length_Suc_conv)
  moreover have "is_ascii_digit a" "is_ascii_digit b" using pad0_digits [of 2 n] ab by auto
  moreover have "digits_val [a, b] = n" using digits_val_pad0 [of 2 n] ab by simp
  ultimately show thesis using that by blast
qed

lemma four_digits:
  assumes "n < 10000"
  obtains a b c d where "pad0 4 (show_nat n) = [a, b, c, d]" "is_ascii_digit a" "is_ascii_digit b"
    "is_ascii_digit c" "is_ascii_digit d" "digits_val [a, b, c, d] = n"
proof -
  have "length (pad0 4 (show_nat n)) = Suc (Suc (Suc (Suc 0)))"
    using length_pad0 [of n 4] assms by simp
  then obtain a b c d where ab: "pad0 4 (show_nat n) = [a, b, c, d]" by (auto simp: length_Suc_conv)
  moreover have "is_ascii_digit a" "is_ascii_digit b" "is_ascii_digit c" "is_ascii_digit d"
    using pad0_digits [of 4 n] ab by auto
  moreover have "digits_val [a, b, c, d] = n" using digits_val_pad0 [of 4 n] ab by simp
  ultimately show thesis using that by blast
qed

text \<open>The layout of a formatted timestamp, and what the parser reads back from it.\<close>

lemma stamp_fields:
  assumes "Y < 10000" "M < 100" "D < 100" "h < 100" "m < 100" "s < 100"
    and st: "st = pad0 4 (show_nat Y) @ ''-'' @ pad0 2 (show_nat M) @ ''-'' @ pad0 2 (show_nat D) @ ''T''
      @ pad0 2 (show_nat h) @ '':'' @ pad0 2 (show_nat m) @ '':'' @ pad0 2 (show_nat s) @ ''Z''"
  shows "is_rfc3339_timestamp st" "after_fraction st = 19" "st ! 19 = CHR ''Z''"
    "num_in st 0 4 = int Y" "num_in st 5 7 = int M" "num_in st 8 10 = int D"
    "num_in st 11 13 = int h" "num_in st 14 16 = int m" "num_in st 17 19 = int s"
proof -
  obtain y1 y2 y3 y4 where y: "pad0 4 (show_nat Y) = [y1, y2, y3, y4]" "is_ascii_digit y1"
    "is_ascii_digit y2" "is_ascii_digit y3" "is_ascii_digit y4" "digits_val [y1, y2, y3, y4] = Y"
    using four_digits [OF assms(1)] by blast
  obtain m1 m2 where mo: "pad0 2 (show_nat M) = [m1, m2]" "is_ascii_digit m1" "is_ascii_digit m2"
    "digits_val [m1, m2] = M" using two_digits [OF assms(2)] by blast
  obtain d1 d2 where d: "pad0 2 (show_nat D) = [d1, d2]" "is_ascii_digit d1" "is_ascii_digit d2"
    "digits_val [d1, d2] = D" using two_digits [OF assms(3)] by blast
  obtain h1 h2 where h: "pad0 2 (show_nat h) = [h1, h2]" "is_ascii_digit h1" "is_ascii_digit h2"
    "digits_val [h1, h2] = h" using two_digits [OF assms(4)] by blast
  obtain n1 n2 where n: "pad0 2 (show_nat m) = [n1, n2]" "is_ascii_digit n1" "is_ascii_digit n2"
    "digits_val [n1, n2] = m" using two_digits [OF assms(5)] by blast
  obtain s1 s2 where s: "pad0 2 (show_nat s) = [s1, s2]" "is_ascii_digit s1" "is_ascii_digit s2"
    "digits_val [s1, s2] = s" using two_digits [OF assms(6)] by blast
  have st': "st = [y1, y2, y3, y4, CHR ''-'', m1, m2, CHR ''-'', d1, d2, CHR ''T'', h1, h2, CHR '':'',
      n1, n2, CHR '':'', s1, s2, CHR ''Z'']"
    by (simp add: st y(1) mo(1) d(1) h(1) n(1) s(1))
  show "st ! 19 = CHR ''Z''" "after_fraction st = 19"
    by (simp_all add: st' after_fraction_def)
  then show "is_rfc3339_timestamp st"
    using y mo d h n s by (simp add: is_rfc3339_timestamp_def st' digits_in_def slice_def)
  show "num_in st 0 4 = int Y" "num_in st 5 7 = int M" "num_in st 8 10 = int D"
    "num_in st 11 13 = int h" "num_in st 14 16 = int m" "num_in st 17 19 = int s"
    using y(6) mo(4) d(4) h(4) n(4) s(4) by (simp_all add: num_in_def slice_def st')
qed

lemma stamp_inverse:
  assumes "secs < 253402300800"
  shows "unix_seconds_from_rfc3339 (rfc3339_utc_from_unix_seconds secs) = Some secs"
    and "is_rfc3339_timestamp (rfc3339_utc_from_unix_seconds secs)"
proof -
  obtain year month day where civ: "civil_from_days (int (secs div 86400)) = (year, month, day)"
    by (metis prod_cases3)
  have days: "0 \<le> int (secs div 86400)" "int (secs div 86400) \<le> 2932896"
    using assms div_le_mono [of secs 253402300799 86400] by auto
  note cal = days_from_civil_inverse [OF civ] civil_year_bounds [OF civ days]
  have d31: "day \<le> 31" using cal(5) by (simp add: days_in_month_def split: if_splits)
  define h m s where hms: "h = secs mod 86400 div 3600" "m = secs mod 86400 mod 3600 div 60"
    "s = secs mod 86400 mod 60"
  have rng: "h < 24" "m < 60" "s < 60"
    unfolding hms by (auto simp: less_mult_imp_div_less)
  have sum: "secs = secs div 86400 * 86400 + h * 3600 + m * 60 + s"
  proof -
    define r where "r = secs mod 86400"
    have "r mod 60 = r mod 3600 mod 60" by (simp add: mod_mod_cancel)
    then have "r = r div 3600 * 3600 + (r mod 3600 div 60 * 60 + r mod 60)"
      by (simp only: div_mult_mod_eq)
    moreover have "secs = secs div 86400 * 86400 + r" by (simp add: r_def)
    ultimately show ?thesis unfolding hms r_def [symmetric] by linarith
  qed
  let ?st = "rfc3339_utc_from_unix_seconds secs"
  have st: "?st = pad0 4 (show_nat (nat year)) @ ''-'' @ pad0 2 (show_nat (nat month)) @ ''-''
      @ pad0 2 (show_nat (nat day)) @ ''T'' @ pad0 2 (show_nat h) @ '':'' @ pad0 2 (show_nat m)
      @ '':'' @ pad0 2 (show_nat s) @ ''Z''"
    using cal by (simp add: rfc3339_utc_from_unix_seconds_def SECS_PER_DAY_def civ hms fmt_int_def Let_def)
  have f: "is_rfc3339_timestamp ?st" "after_fraction ?st = 19" "?st ! 19 = CHR ''Z''"
    "num_in ?st 0 4 = year" "num_in ?st 5 7 = month" "num_in ?st 8 10 = day"
    "num_in ?st 11 13 = int h" "num_in ?st 14 16 = int m" "num_in ?st 17 19 = int s"
    using stamp_fields [OF _ _ _ _ _ _ st] cal d31 rng by simp_all
  have "int secs = int (secs div 86400) * 86400 + int h * 3600 + int m * 60 + int s"
    by (subst sum) simp
  then show "unix_seconds_from_rfc3339 ?st = Some secs"
    unfolding unix_seconds_from_rfc3339_def Let_def f(2-9) cal(1) SECS_PER_DAY_def
    using f(1) cal rng by simp
  show "is_rfc3339_timestamp ?st" by (rule f(1))
qed

lemma two_digit_value: "length x \<le> 2 \<Longrightarrow> list_all is_ascii_digit x \<Longrightarrow> digits_val x \<le> 99"
proof (cases x)
  case (Cons a xs)
  assume "length x \<le> 2" "list_all is_ascii_digit x"
  then show ?thesis using Cons
    by (cases xs) (auto simp: digits_val_def digit_val_def is_ascii_digit_def)
qed (simp add: digits_val_def)

lemma num_in_two:
  "digits_in s i (i + 2) \<Longrightarrow> 0 \<le> num_in s i (i + 2) \<and> num_in s i (i + 2) \<le> 99"
  using two_digit_value [of "slice s i (i + 2)"] by (simp add: num_in_def digits_in_def slice_def)

lemma offset_range:
  assumes "is_rfc3339_timestamp s" "s ! after_fraction s \<notin> {CHR ''Z'', CHR ''z''}"
  shows "num_in s (after_fraction s + 1) (after_fraction s + 3) \<in> {0..99}"
    and "num_in s (after_fraction s + 4) (after_fraction s + 6) \<in> {0..99}"
proof -
  have "digits_in s (after_fraction s + 1) (after_fraction s + 3)"
    "digits_in s (after_fraction s + 4) (after_fraction s + 6)"
    using assms by (auto simp: is_rfc3339_timestamp_def Let_def split: if_splits)
  then show "num_in s (after_fraction s + 1) (after_fraction s + 3) \<in> {0..99}"
    "num_in s (after_fraction s + 4) (after_fraction s + 6) \<in> {0..99}"
    using num_in_two [of s "after_fraction s + 1"] num_in_two [of s "after_fraction s + 4"]
    by (simp_all add: eval_nat_numeral)
qed
lemmas stamp_eval = unix_seconds_from_rfc3339_def is_rfc3339_timestamp_def after_fraction_def
  digits_in_def num_in_def slice_def digits_val_def digit_val_def is_ascii_digit_def byte_def
  days_in_month_def days_from_civil_def signed_divide_int_def SECS_PER_DAY_def

section \<open>Properties\<close>

text \<open>
  C29. Formatting an instant up to the last second of year 9999 yields a timestamp of the schema's
  shape, and parsing it gives the instant back, so an expiry written to a record and read again is
  the same instant.
\<close>

theorem rfc3339_round_trip:
  assumes "secs < 253402300800"
  shows "is_rfc3339_timestamp (rfc3339_utc_from_unix_seconds secs) \<and>
    unix_seconds_from_rfc3339 (rfc3339_utc_from_unix_seconds secs) = Some secs"
  using stamp_inverse [OF assms] by simp

theorem rfc3339_round_trip_witness:
  "unix_seconds_from_rfc3339 (rfc3339_utc_from_unix_seconds 951868799) = Some 951868799"
  using rfc3339_round_trip [of 951868799] by simp

text \<open>
  The parser is total on calendars: whatever it accepts has a month of the year, a day of that
  month and a time of day, and is the sum of those fields shifted by the stated offset; anything
  else, an impossible date or an instant before the epoch, is refused.
\<close>

lemma rfc3339_parse_sound:
  assumes "unix_seconds_from_rfc3339 s = Some t"
  shows "is_rfc3339_timestamp s \<and>
    1 \<le> num_in s 5 7 \<and> num_in s 5 7 \<le> 12 \<and>
    1 \<le> num_in s 8 10 \<and> num_in s 8 10 \<le> days_in_month (num_in s 0 4) (num_in s 5 7) \<and>
    num_in s 11 13 \<le> 23 \<and> num_in s 14 16 \<le> 59 \<and> num_in s 17 19 \<le> 60 \<and>
    \<bar>int t - (days_from_civil (num_in s 0 4) (num_in s 5 7) (num_in s 8 10) * 86400
       + num_in s 11 13 * 3600 + num_in s 14 16 * 60 + min (num_in s 17 19) 59)\<bar> \<le> 99 * 3600 + 99 * 60"
proof -
  have shape: "is_rfc3339_timestamp s"
    using assms by (simp add: unix_seconds_from_rfc3339_def split: if_splits)
  note off = offset_range [OF shape]
  define total where "total = days_from_civil (num_in s 0 4) (num_in s 5 7) (num_in s 8 10) * 86400
    + num_in s 11 13 * 3600 + num_in s 14 16 * 60 + min (num_in s 17 19) 59"
  show ?thesis
    using assms shape off
    unfolding unix_seconds_from_rfc3339_def Let_def SECS_PER_DAY_def of_nat_numeral
      total_def [symmetric]
    by (simp add: not_less split: if_splits)
qed

end
