(* ===== verification/Punar_Collections.thy ===== *)
theory Punar_Collections
  imports Punar_Prelude
begin

text \<open>
  The containers the daemons keep their state in. \<open>BTreeMap\<close> is a key-sorted association list
  (its iteration order is the list order), specified by the locale \<open>ordered_map\<close> that every
  client lemma about keyed stores is proved in; the locale is interpreted on the model's own
  operations here. Sorting and selection follow the stability and tie rules of \<open>slice::sort_by\<close>,
  \<open>Iterator::min_by\<close> and \<open>Iterator::max_by\<close>. JSON values are \<open>serde_json::Value\<close>.
\<close>

section \<open>The interface of a keyed store\<close>

locale ordered_map =
  fixes mempty :: "'m"
    and minsert :: "'k \<Rightarrow> 'v \<Rightarrow> 'm \<Rightarrow> 'm"
    and mremove :: "'k \<Rightarrow> 'm \<Rightarrow> 'm"
    and mget :: "'m \<Rightarrow> 'k \<Rightarrow> 'v option"
    and mentries :: "'m \<Rightarrow> ('k \<times> 'v) list"
    and minv :: "'m \<Rightarrow> bool"
  assumes get_empty: "mget mempty k = None"
    and get_insert: "minv m \<Longrightarrow> mget (minsert k v m) j = (if j = k then Some v else mget m j)"
    and get_remove: "minv m \<Longrightarrow> mget (mremove k m) j = (if j = k then None else mget m j)"
    and entries_get: "minv m \<Longrightarrow> (k, v) \<in> set (mentries m) \<longleftrightarrow> mget m k = Some v"
    and entries_distinct: "minv m \<Longrightarrow> distinct (map fst (mentries m))"
    and inv_empty: "minv mempty"
    and inv_insert: "minv m \<Longrightarrow> minv (minsert k v m)"
    and inv_remove: "minv m \<Longrightarrow> minv (mremove k m)"
begin

lemma inv_removes: "minv m \<Longrightarrow> minv (fold mremove ks m)"
  by (induction ks arbitrary: m) (simp_all add: inv_remove)

lemma get_removes: "minv m \<Longrightarrow> mget (fold mremove ks m) k = (if k \<in> set ks then None else mget m k)"
  by (induction ks arbitrary: m) (auto simp: inv_remove get_remove)

lemma inv_inserts: "minv m \<Longrightarrow> minv (fold (\<lambda>(k, v). minsert k v) kvs m)"
  by (induction kvs arbitrary: m) (auto simp: inv_insert)

lemma get_inserts:
  assumes "minv m"
  shows "mget (fold (\<lambda>(k, v). minsert k v) kvs m) k =
    (case map_of (rev kvs) k of None \<Rightarrow> mget m k | Some v \<Rightarrow> Some v)"
  using assms
proof (induction kvs rule: rev_induct)
  case (snoc kv kvs)
  obtain j v where kv: "kv = (j, v)" by (cases kv)
  have "minv (fold (\<lambda>(k, v). minsert k v) kvs m)" using snoc.prems by (rule inv_inserts)
  then have "mget (minsert j v (fold (\<lambda>(k, v). minsert k v) kvs m)) k =
      (if k = j then Some v else mget (fold (\<lambda>(k, v). minsert k v) kvs m) k)"
    by (rule get_insert)
  with snoc kv show ?case by (simp split: option.splits)
qed simp

lemma values_iff: "minv m \<Longrightarrow> v \<in> set (map snd (mentries m)) \<longleftrightarrow> (\<exists>k. mget m k = Some v)"
  using entries_get by force

lemma entries_fun: "minv m \<Longrightarrow> (k, v) \<in> set (mentries m) \<Longrightarrow> (k, w) \<in> set (mentries m) \<Longrightarrow> v = w"
  by (simp add: entries_get)

lemma inserted_value: "minv m \<Longrightarrow> v \<in> set (map snd (mentries (minsert k v m)))"
proof -
  assume m: "minv m"
  have "mget (minsert k v m) k = Some v" using m by (simp add: get_insert)
  then show ?thesis using inv_insert [OF m] by (simp only: values_iff) blast
qed

lemma values_insert_subset:
  assumes "minv m" and "w \<in> set (map snd (mentries (minsert k v m)))"
  shows "w = v \<or> w \<in> set (map snd (mentries m))"
proof -
  have "minv (minsert k v m)" using assms(1) by (rule inv_insert)
  then obtain j where "mget (minsert k v m) j = Some w" using assms(2) by (metis values_iff)
  with assms(1) have "w = v \<or> mget m j = Some w" by (simp add: get_insert split: if_splits)
  with assms(1) show ?thesis by (metis values_iff)
qed

lemma values_remove_subset:
  assumes "minv m" and "w \<in> set (map snd (mentries (mremove k m)))"
  shows "w \<in> set (map snd (mentries m))"
proof -
  have "minv (mremove k m)" using assms(1) by (rule inv_remove)
  then obtain j where "mget (mremove k m) j = Some w" using assms(2) by (metis values_iff)
  with assms(1) have "mget m j = Some w" by (simp add: get_remove split: if_splits)
  with assms(1) show ?thesis by (metis values_iff)
qed

end

section \<open>\<open>BTreeMap\<close>\<close>

type_synonym ('k, 'v) btree_map = "('k \<times> 'v) list"

fun bt_insert :: "'k::linorder \<Rightarrow> 'v \<Rightarrow> ('k, 'v) btree_map \<Rightarrow> ('k, 'v) btree_map" where
  "bt_insert k v [] = [(k, v)]"
| "bt_insert k v ((a, b) # m) =
     (if k < a then (k, v) # (a, b) # m
      else if k = a then (k, v) # m
      else (a, b) # bt_insert k v m)"

fun bt_remove :: "'k::linorder \<Rightarrow> ('k, 'v) btree_map \<Rightarrow> ('k, 'v) btree_map" where
  "bt_remove k [] = []"
| "bt_remove k ((a, b) # m) = (if k = a then m else (a, b) # bt_remove k m)"

definition bt_get :: "('k, 'v) btree_map \<Rightarrow> 'k \<Rightarrow> 'v option" where
  "bt_get m k = map_of m k"

definition bt_values :: "('k, 'v) btree_map \<Rightarrow> 'v list" where
  "bt_values m = map snd m"

definition bt_keys :: "('k, 'v) btree_map \<Rightarrow> 'k list" where
  "bt_keys m = map fst m"

definition bt_ok :: "('k::linorder, 'v) btree_map \<Rightarrow> bool" where
  "bt_ok m = sorted_wrt (<) (map fst m)"

lemma bt_ok_Nil [simp]: "bt_ok []"
  by (simp add: bt_ok_def)

lemma bt_ok_Cons: "bt_ok ((a, b) # m) \<longleftrightarrow> (\<forall>k \<in> fst ` set m. a < k) \<and> bt_ok m"
  by (auto simp: bt_ok_def)

lemma fst_set_bt_insert: "fst ` set (bt_insert k v m) = insert k (fst ` set m)"
  by (induction k v m rule: bt_insert.induct) auto

lemma fst_set_bt_remove: "fst ` set (bt_remove k m) \<subseteq> fst ` set m"
  by (induction k m rule: bt_remove.induct) auto

lemma bt_ok_insert: "bt_ok m \<Longrightarrow> bt_ok (bt_insert k v m)"
  by (induction k v m rule: bt_insert.induct) (auto simp: bt_ok_Cons fst_set_bt_insert)

lemma bt_ok_remove: "bt_ok m \<Longrightarrow> bt_ok (bt_remove k m)"
  using fst_set_bt_remove by (induction k m rule: bt_remove.induct) (fastforce simp: bt_ok_Cons)+

lemma bt_get_insert: "bt_ok m \<Longrightarrow> bt_get (bt_insert k v m) j = (if j = k then Some v else bt_get m j)"
  by (induction k v m rule: bt_insert.induct) (auto simp: bt_get_def bt_ok_Cons)

lemma bt_get_absent: "k \<notin> fst ` set m \<Longrightarrow> bt_get m k = None"
  by (simp add: bt_get_def map_of_eq_None_iff)

lemma bt_get_remove: "bt_ok m \<Longrightarrow> bt_get (bt_remove k m) j = (if j = k then None else bt_get m j)"
proof (induction k m rule: bt_remove.induct)
  case (2 k a b m)
  show ?case
  proof (cases "k = a")
    case True
    with 2(2) have "k \<notin> fst ` set m" by (auto simp: bt_ok_Cons)
    then have "bt_get m k = None" by (rule bt_get_absent)
    with True show ?thesis by (auto simp: bt_get_def)
  next
    case False
    with 2 show ?thesis by (auto simp: bt_get_def bt_ok_Cons)
  qed
qed (simp add: bt_get_def)

lemma bt_ok_distinct: "bt_ok m \<Longrightarrow> distinct (map fst m)"
  by (simp add: bt_ok_def strict_sorted_iff)

lemma bt_entries_get: "bt_ok m \<Longrightarrow> (k, v) \<in> set m \<longleftrightarrow> bt_get m k = Some v"
  using bt_ok_distinct by (metis bt_get_def map_of_eq_Some_iff)

interpretation btm: ordered_map "[]" bt_insert bt_remove bt_get "\<lambda>m. m" bt_ok
  by unfold_locales
    (simp_all add: bt_get_def [of "[]"] bt_get_insert bt_get_remove bt_entries_get bt_ok_distinct
      bt_ok_insert bt_ok_remove)

lemma bt_values_iff: "bt_ok m \<Longrightarrow> v \<in> set (bt_values m) \<longleftrightarrow> (\<exists>k. bt_get m k = Some v)"
  unfolding bt_values_def by (rule btm.values_iff)

lemma length_bt_insert: "bt_ok m \<Longrightarrow>
    length (bt_insert k v m) = (if bt_get m k = None then Suc (length m) else length m)"
  by (induction k v m rule: bt_insert.induct)
     (auto simp: bt_get_def bt_ok_Cons map_of_eq_None_iff split: option.splits)

lemma length_bt_remove:
  "bt_get m k \<noteq> None \<Longrightarrow> Suc (length (bt_remove k m)) = length m"
  by (induction k m rule: bt_remove.induct) (auto simp: bt_get_def split: if_splits)

section \<open>Sorting and selection\<close>

text \<open>\<open>sort_by\<close> is stable; a descending comparison keeps the order of equal keys too.\<close>

definition sort_asc :: "('a \<Rightarrow> 'k::linorder) \<Rightarrow> 'a list \<Rightarrow> 'a list" where
  "sort_asc f xs = sort_key f xs"

definition sort_desc :: "('a \<Rightarrow> 'k::linorder) \<Rightarrow> 'a list \<Rightarrow> 'a list" where
  "sort_desc f xs = rev (sort_key f (rev xs))"

lemma set_sort_asc [simp]: "set (sort_asc f xs) = set xs"
  by (simp add: sort_asc_def)

lemma set_sort_desc [simp]: "set (sort_desc f xs) = set xs"
  by (simp add: sort_desc_def)

lemma sorted_sort_asc: "sorted (map f (sort_asc f xs))"
  by (simp add: sort_asc_def)

lemma sorted_sort_desc: "sorted (rev (map f (sort_desc f xs)))"
  by (simp add: sort_desc_def rev_map [symmetric])

text \<open>\<open>min_by\<close> returns the first minimal element, \<open>max_by\<close> the last maximal one.\<close>

fun first_min :: "('a \<Rightarrow> 'k::linorder) \<Rightarrow> 'a list \<Rightarrow> 'a option" where
  "first_min f [] = None"
| "first_min f (x # xs) =
     (case first_min f xs of None \<Rightarrow> Some x | Some y \<Rightarrow> if f x \<le> f y then Some x else Some y)"

fun last_max :: "('a \<Rightarrow> 'k::linorder) \<Rightarrow> 'a list \<Rightarrow> 'a option" where
  "last_max f [] = None"
| "last_max f (x # xs) =
     (case last_max f xs of None \<Rightarrow> Some x | Some y \<Rightarrow> if f x \<le> f y then Some y else Some x)"

lemma first_min_None_iff [simp]: "first_min f xs = None \<longleftrightarrow> xs = []"
  by (cases xs) (auto split: option.splits)

lemma last_max_None_iff [simp]: "last_max f xs = None \<longleftrightarrow> xs = []"
  by (cases xs) (auto split: option.splits)

lemma first_min_Some: "first_min f xs = Some y \<Longrightarrow> y \<in> set xs \<and> (\<forall>x \<in> set xs. f y \<le> f x)"
  by (induction xs arbitrary: y) (fastforce split: option.splits if_splits)+

lemma last_max_Some: "last_max f xs = Some y \<Longrightarrow> y \<in> set xs \<and> (\<forall>x \<in> set xs. f x \<le> f y)"
  by (induction xs arbitrary: y) (fastforce split: option.splits if_splits)+

lemma first_min_snoc: "first_min f (xs @ [x]) =
    (case first_min f xs of None \<Rightarrow> Some x | Some y \<Rightarrow> if f y \<le> f x then Some y else Some x)"
  by (induction xs) (auto split: option.splits)

text \<open>The first match of a stably sorted list is the first minimal match.\<close>

lemma find_insort:
  "sorted (map f ys) \<Longrightarrow>
   find P (insort_key f x ys) =
     (if P x then (case find P ys of None \<Rightarrow> Some x | Some y \<Rightarrow> if f x \<le> f y then Some x else Some y)
      else find P ys)"
proof (induction ys)
  case (Cons y ys)
  have le: "find P ys = Some z \<Longrightarrow> f y \<le> f z" for z
    using Cons.prems by (auto simp: find_Some_iff)
  show ?case using Cons le by (auto split: option.splits)
qed simp

lemma find_sort_asc: "find P (sort_asc f xs) = first_min f (filter P xs)"
  by (induction xs) (auto simp: sort_asc_def find_insort split: option.splits)

section \<open>JSON values\<close>

text \<open>
  \<open>serde_json::Value\<close>; numbers are integers (no modelled field carries a fraction) and an
  object is its key-sorted map.
\<close>

datatype json =
    JNull
  | JBool bool
  | JNum int
  | JStr string
  | JArr "json list"
  | JObj "(string \<times> json) list"

fun json_get :: "json \<Rightarrow> string \<Rightarrow> json option" where
  "json_get (JObj m) k = bt_get m k"
| "json_get _ k = None"

fun json_str :: "json \<Rightarrow> string option" where
  "json_str (JStr s) = Some s"
| "json_str _ = None"

fun json_bool :: "json \<Rightarrow> bool option" where
  "json_bool (JBool b) = Some b"
| "json_bool _ = None"

fun json_obj :: "json \<Rightarrow> (string, json) btree_map option" where
  "json_obj (JObj m) = Some m"
| "json_obj _ = None"

end
