(* ===== verification/Punar_Machine.thy ===== *)
theory Punar_Machine
  imports Punar_Time Punar_Collections
begin

text \<open>
  What the daemons see of the machine they run on. \<open>os_env\<close> holds the answers of the kernel and
  the disk to the n-th interaction of a run: the wall clock, whether a synced write or an unlink
  succeeds, random bytes, the body of \<open>/proc/<pid>/cgroup\<close>, the passwd file. Nothing constrains
  them unless a lemma says so, so every interleaving of clock readings and disk failures is
  covered. The state counts the interactions (\<open>ticks\<close>); an operation that writes moves to the next
  one, and readings between two writes see the same answer. Also here: the helpers of
  \<open>crates/punard/src/util.rs\<close> that turn those answers into ids and names.
\<close>

section \<open>Environment and state\<close>

record os_env =
  env_clock :: "nat \<Rightarrow> nat"
  env_disk :: "nat \<Rightarrow> bool"
  env_urandom :: "nat \<Rightarrow> nat \<Rightarrow> nat list option"
  env_cgroup :: "nat \<Rightarrow> int \<Rightarrow> string option"
  env_passwd :: "nat \<Rightarrow> string option"

record os_state =
  ticks :: nat

definition tick :: "'s os_state_scheme \<Rightarrow> 's os_state_scheme" where
  "tick st = st\<lparr>ticks := Suc (ticks st)\<rparr>"

lemma ticks_tick [simp]: "ticks (tick st) = Suc (ticks st)"
  by (simp add: tick_def)

text \<open>\<open>read_exact\<close> fills the whole buffer with bytes: the documented behaviour of \<open>/dev/urandom\<close>.\<close>

definition urandom_fills :: "'e os_env_scheme \<Rightarrow> bool" where
  "urandom_fills E \<longleftrightarrow>
     (\<forall>t n bs. env_urandom E t n = Some bs \<longrightarrow> length bs = n \<and> (\<forall>b \<in> set bs. b < 256))"

section \<open>The clock\<close>

definition unix_now_millis :: "'e os_env_scheme \<Rightarrow> 's os_state_scheme \<Rightarrow> nat" where
  "unix_now_millis E st = env_clock E (ticks st)"

definition utc_now_rfc3339 :: "'e os_env_scheme \<Rightarrow> 's os_state_scheme \<Rightarrow> string" where
  "utc_now_rfc3339 E st = rfc3339_utc_from_unix_seconds (env_clock E (ticks st) div 1000)"

definition now_secs :: "'e os_env_scheme \<Rightarrow> 's os_state_scheme \<Rightarrow> nat" where
  "now_secs E st = unwrap_or (unix_seconds_from_rfc3339 (utc_now_rfc3339 E st)) 0"

definition rfc3339_in :: "'e os_env_scheme \<Rightarrow> 's os_state_scheme \<Rightarrow> nat \<Rightarrow> string" where
  "rfc3339_in E st secs = rfc3339_utc_from_unix_seconds (sat_add (now_secs E st) secs)"

text \<open>A clock that stays in the range the timestamp format can write.\<close>

definition clock_in_range :: "'e os_env_scheme \<Rightarrow> bool" where
  "clock_in_range E \<longleftrightarrow> (\<forall>t. env_clock E t div 1000 < 253402300800 - 2 ^ 32)"

lemma now_secs_exact: "clock_in_range E \<Longrightarrow> now_secs E st = env_clock E (ticks st) div 1000"
proof -
  assume "clock_in_range E"
  then have "env_clock E (ticks st) div 1000 < 253402300800"
    unfolding clock_in_range_def by (meson diff_le_self less_le_trans)
  then show ?thesis by (simp add: now_secs_def utc_now_rfc3339_def stamp_inverse)
qed

lemma rfc3339_in_parses:
  assumes "clock_in_range E" "secs \<le> 2 ^ 32"
  shows "unix_seconds_from_rfc3339 (rfc3339_in E st secs) = Some (now_secs E st + secs)"
    and "is_rfc3339_timestamp (rfc3339_in E st secs)"
proof -
  have "env_clock E (ticks st) div 1000 < 253402300800 - 2 ^ 32"
    using assms(1) by (simp add: clock_in_range_def)
  then have b: "now_secs E st + secs < 253402300800"
    using assms by (simp add: now_secs_exact)
  then have "sat_add (now_secs E st) secs = now_secs E st + secs"
    by (simp add: sat_add_exact u64_max_def)
  with stamp_inverse [OF b] show "unix_seconds_from_rfc3339 (rfc3339_in E st secs) = Some (now_secs E st + secs)"
    and "is_rfc3339_timestamp (rfc3339_in E st secs)"
    by (simp_all add: rfc3339_in_def)
qed

section \<open>The disk\<close>

text \<open>
  \<open>write_atomic_synced\<close>: on success the file holds the new bytes, on failure what it held
  before. \<open>remove_synced\<close>: a missing file counts as removed.
\<close>

definition write_atomic_synced ::
  "'e os_env_scheme \<Rightarrow> string \<Rightarrow> string \<Rightarrow> (string, string) btree_map \<Rightarrow> 's os_state_scheme
   \<Rightarrow> bool \<times> (string, string) btree_map" where
  "write_atomic_synced E name bytes files st =
     (if env_disk E (ticks st) then (True, bt_insert name bytes files) else (False, files))"

definition remove_synced ::
  "'e os_env_scheme \<Rightarrow> string \<Rightarrow> (string, string) btree_map \<Rightarrow> 's os_state_scheme
   \<Rightarrow> bool \<times> (string, string) btree_map" where
  "remove_synced E name files st =
     (if bt_get files name = None then (True, files)
      else if env_disk E (ticks st) then (True, bt_remove name files)
      else (False, files))"

section \<open>Names and random ids\<close>

definition hex_digit :: "nat \<Rightarrow> char" where
  "hex_digit n = char_of (if n < 10 then 48 + n else 87 + n)"

definition hex :: "nat list \<Rightarrow> string" where
  "hex bytes = concat (map (\<lambda>b. [hex_digit (b div 16), hex_digit (b mod 16)]) bytes)"

definition random_hex :: "'e os_env_scheme \<Rightarrow> nat \<Rightarrow> 's os_state_scheme \<Rightarrow> string option" where
  "random_hex E n_bytes st = map_option hex (env_urandom E (ticks st) n_bytes)"

definition u32_max :: nat where
  "u32_max = 2 ^ 32 - 1"

definition parse_u32 :: "string \<Rightarrow> nat option" where
  "parse_u32 s = (case parse_u64 s of Some n \<Rightarrow> if n \<le> u32_max then Some n else None | None \<Rightarrow> None)"

definition passwd_line :: "nat \<Rightarrow> string \<Rightarrow> string option" where
  "passwd_line uid line =
     (let fields = split_on CHR '':'' line
      in if length fields \<ge> 3 \<and> parse_u32 (fields ! 2) = Some uid then Some (fields ! 0) else None)"

fun first_Some :: "('a \<Rightarrow> 'b option) \<Rightarrow> 'a list \<Rightarrow> 'b option" where
  "first_Some f [] = None"
| "first_Some f (x # xs) = (case f x of Some y \<Rightarrow> Some y | None \<Rightarrow> first_Some f xs)"

definition lookup_username :: "'e os_env_scheme \<Rightarrow> nat \<Rightarrow> 's os_state_scheme \<Rightarrow> string option" where
  "lookup_username E uid st =
     (case env_passwd E (ticks st) of
        None \<Rightarrow> None
      | Some content \<Rightarrow> first_Some (passwd_line uid) (str_lines content))"

lemma first_Some_iff: "first_Some f xs = Some y \<Longrightarrow> \<exists>x \<in> set xs. f x = Some y"
  by (induction xs) (auto split: option.splits)

lemma first_Some_None_iff: "first_Some f xs = None \<longleftrightarrow> (\<forall>x \<in> set xs. f x = None)"
  by (induction xs) (auto split: option.splits)

lemma hex_digit_alnum: "n < 16 \<Longrightarrow> is_ascii_alphanumeric (hex_digit n)"
  by (auto simp: hex_digit_def is_ascii_alphanumeric_def is_ascii_alphabetic_def is_ascii_digit_def
      is_ascii_lowercase_def byte_char_of)

lemma hex_alnum: "(\<forall>b \<in> set bs. b < 256) \<Longrightarrow> list_all is_ascii_alphanumeric (hex bs)"
  by (induction bs) (auto simp: hex_def hex_digit_alnum)

lemma length_hex: "length (hex bs) = 2 * length bs"
  by (induction bs) (simp_all add: hex_def)

lemma random_hex_id:
  assumes "urandom_fills E" "random_hex E n st = Some h" "0 < n"
  shows "h \<noteq> []" "list_all is_ascii_alphanumeric h"
proof -
  obtain bs where "env_urandom E (ticks st) n = Some bs" "h = hex bs"
    using assms(2) by (auto simp: random_hex_def)
  with assms(1,3) show "h \<noteq> []" "list_all is_ascii_alphanumeric h"
    by (auto simp: urandom_fills_def hex_alnum length_hex simp flip: length_0_conv)
qed

end
