(* ===== verification/Sha256.thy ===== *)
theory Sha256
  imports Punar_Machine "HOL-Library.Word"
begin

unbundle bit_operations_syntax

text \<open>
  \<open>crates/punar-secrets/src/sha256.rs\<close>: the hand-written hash the credential broker keeps instead of
  a token. The definitions follow the source loop by loop on 8- and 32-bit words: the padding loop,
  the in-place message schedule, the eight working variables. The lemmas show that this computes
  the function of FIPS 180-4, given here as recurrences over the block and the round number, and
  that a digest is always 64 lowercase hexadecimal digits.
\<close>

section \<open>The source\<close>

text \<open>The table of round constants, a row for each line of the source.\<close>

definition K :: "32 word list" where
  "K = concat
    [[0x428a2f98, 0x71374491, 0xb5c0fbcf, 0xe9b5dba5, 0x3956c25b, 0x59f111f1, 0x923f82a4, 0xab1c5ed5],
     [0xd807aa98, 0x12835b01, 0x243185be, 0x550c7dc3, 0x72be5d74, 0x80deb1fe, 0x9bdc06a7, 0xc19bf174],
     [0xe49b69c1, 0xefbe4786, 0x0fc19dc6, 0x240ca1cc, 0x2de92c6f, 0x4a7484aa, 0x5cb0a9dc, 0x76f988da],
     [0x983e5152, 0xa831c66d, 0xb00327c8, 0xbf597fc7, 0xc6e00bf3, 0xd5a79147, 0x06ca6351, 0x14292967],
     [0x27b70a85, 0x2e1b2138, 0x4d2c6dfc, 0x53380d13, 0x650a7354, 0x766a0abb, 0x81c2c92e, 0x92722c85],
     [0xa2bfe8a1, 0xa81a664b, 0xc24b8b70, 0xc76c51a3, 0xd192e819, 0xd6990624, 0xf40e3585, 0x106aa070],
     [0x19a4c116, 0x1e376c08, 0x2748774c, 0x34b0bcb5, 0x391c0cb3, 0x4ed8aa4a, 0x5b9cca4f, 0x682e6ff3],
     [0x748f82ee, 0x78a5636f, 0x84c87814, 0x8cc70208, 0x90befffa, 0xa4506ceb, 0xbef9a3f7, 0xc67178f2]]"

type_synonym byte8 = "8 word"
type_synonym u32 = "32 word"
type_synonym working = "u32 \<times> u32 \<times> u32 \<times> u32 \<times> u32 \<times> u32 \<times> u32 \<times> u32"

definition initial_hash :: "u32 list" where
  "initial_hash =
    [0x6a09e667, 0xbb67ae85, 0x3c6ef372, 0xa54ff53a, 0x510e527f, 0x9b05688c, 0x1f83d9ab, 0x5be0cd19]"

definition from_be_bytes :: "byte8 \<Rightarrow> byte8 \<Rightarrow> byte8 \<Rightarrow> byte8 \<Rightarrow> u32" where
  "from_be_bytes b0 b1 b2 b3 =
     push_bit 24 (ucast b0) OR push_bit 16 (ucast b1) OR push_bit 8 (ucast b2) OR ucast b3"

definition to_be_bytes :: "u32 \<Rightarrow> byte8 list" where
  "to_be_bytes w = [ucast (drop_bit 24 w), ucast (drop_bit 16 w), ucast (drop_bit 8 w), ucast w]"

definition u64_to_be_bytes :: "64 word \<Rightarrow> byte8 list" where
  "u64_to_be_bytes w = map (\<lambda>i. ucast (drop_bit (56 - 8 * i) w)) [0..<8]"

text \<open>\<open>while message.len() % 64 != 56 { message.push(0) }\<close>.\<close>

function pad_zeros :: "byte8 list \<Rightarrow> byte8 list" where
  "pad_zeros message = (if length message mod 64 = 56 then message else pad_zeros (message @ [0]))"
  by auto

termination
proof (relation "measure (\<lambda>message. (120 - length message mod 64) mod 64)", goal_cases)
  case (2 message)
  define r where "r = length message mod 64"
  have "r < 64" "r \<noteq> 56" using 2 by (simp_all add: r_def)
  moreover have "length (message @ [0]) mod 64 = (if r = 63 then 0 else Suc r)"
    by (simp add: r_def mod_Suc)
  moreover have "(120 - r) mod 64 = (if r \<le> 56 then 56 - r else 120 - r)" if "r < 64" for r :: nat
    using that by (auto simp: le_mod_geq mod_if)
  ultimately show ?case by (auto simp flip: r_def)
qed simp

definition padded :: "byte8 list \<Rightarrow> byte8 list" where
  "padded bytes = pad_zeros (bytes @ [0x80]) @ u64_to_be_bytes (of_nat (length bytes) * 8)"

fun chunks_exact :: "nat \<Rightarrow> 'a list \<Rightarrow> 'a list list" where
  "chunks_exact n xs = (if n = 0 \<or> length xs < n then [] else take n xs # chunks_exact n (drop n xs))"

declare chunks_exact.simps [simp del] pad_zeros.simps [simp del]

definition load_words :: "byte8 list \<Rightarrow> u32 list" where
  "load_words chunk =
     fold (\<lambda>(i, word) w. w[i := from_be_bytes (word ! 0) (word ! 1) (word ! 2) (word ! 3)])
       (List.enumerate 0 (chunks_exact 4 chunk)) (replicate 64 0)"

definition extend_step :: "nat \<Rightarrow> u32 list \<Rightarrow> u32 list" where
  "extend_step i w =
     (let s0 = word_rotr 7 (w ! (i - 15)) XOR word_rotr 18 (w ! (i - 15)) XOR drop_bit 3 (w ! (i - 15));
          s1 = word_rotr 17 (w ! (i - 2)) XOR word_rotr 19 (w ! (i - 2)) XOR drop_bit 10 (w ! (i - 2))
      in w[i := w ! (i - 16) + s0 + w ! (i - 7) + s1])"

definition message_schedule :: "byte8 list \<Rightarrow> u32 list" where
  "message_schedule chunk = fold extend_step [16..<64] (load_words chunk)"

fun sha_round :: "u32 list \<Rightarrow> nat \<Rightarrow> working \<Rightarrow> working" where
  "sha_round w i (a, b, c, d, e, f, g, hh) =
     (let s1 = word_rotr 6 e XOR word_rotr 11 e XOR word_rotr 25 e;
          ch = (e AND f) XOR (NOT e AND g);
          t1 = hh + s1 + ch + K ! i + w ! i;
          s0 = word_rotr 2 a XOR word_rotr 13 a XOR word_rotr 22 a;
          maj = (a AND b) XOR (a AND c) XOR (b AND c);
          t2 = s0 + maj
      in (t1 + t2, a, b, c, d + t1, e, f, g))"

fun working_list :: "working \<Rightarrow> u32 list" where
  "working_list (a, b, c, d, e, f, g, hh) = [a, b, c, d, e, f, g, hh]"

definition compress :: "byte8 list \<Rightarrow> u32 list \<Rightarrow> u32 list" where
  "compress chunk h =
     map2 (+) h (working_list
       (fold (sha_round (message_schedule chunk)) [0..<64]
          (h ! 0, h ! 1, h ! 2, h ! 3, h ! 4, h ! 5, h ! 6, h ! 7)))"

definition sha256 :: "byte8 list \<Rightarrow> byte8 list" where
  "sha256 bytes = concat (map to_be_bytes (fold compress (chunks_exact 64 (padded bytes)) initial_hash))"

definition sha256_hex :: "string \<Rightarrow> string" where
  "sha256_hex bytes = hex (map unat (sha256 (map (\<lambda>c. of_nat (byte c)) bytes)))"

section \<open>FIPS 180-4\<close>

text \<open>
  The standard's function, over numbers and recurrences: a message is closed by \<open>0x80\<close>, the fewest
  zeros that leave 8 bytes in the last 64-byte block, and the bit length; word \<open>t\<close> of the schedule is
  a recurrence over earlier words; the working variables after \<open>t\<close> rounds are a recurrence over \<open>t\<close>.
\<close>

definition big_endian :: "nat \<Rightarrow> nat \<Rightarrow> byte8 list" where
  "big_endian n x = map (\<lambda>i. of_nat (x div 256 ^ (n - 1 - i))) [0..<n]"

definition big_endian_value :: "byte8 list \<Rightarrow> nat" where
  "big_endian_value = foldl (\<lambda>v b. 256 * v + unat b) 0"

definition fips_padded :: "byte8 list \<Rightarrow> byte8 list" where
  "fips_padded M =
     M @ [0x80] @ replicate ((119 - length M mod 64) mod 64) 0 @ big_endian 8 (8 * length M mod 2 ^ 64)"

definition ROTR :: "nat \<Rightarrow> u32 \<Rightarrow> u32" where
  "ROTR n x = drop_bit n x OR push_bit (32 - n) x"

definition fips_Sigma0 :: "u32 \<Rightarrow> u32" where
  "fips_Sigma0 x = ROTR 2 x XOR ROTR 13 x XOR ROTR 22 x"

definition fips_Sigma1 :: "u32 \<Rightarrow> u32" where
  "fips_Sigma1 x = ROTR 6 x XOR ROTR 11 x XOR ROTR 25 x"

definition fips_sigma0 :: "u32 \<Rightarrow> u32" where
  "fips_sigma0 x = ROTR 7 x XOR ROTR 18 x XOR drop_bit 3 x"

definition fips_sigma1 :: "u32 \<Rightarrow> u32" where
  "fips_sigma1 x = ROTR 17 x XOR ROTR 19 x XOR drop_bit 10 x"

definition block_word :: "byte8 list \<Rightarrow> nat \<Rightarrow> u32" where
  "block_word block t = of_nat (big_endian_value (take 4 (drop (4 * t) block)))"

fun fips_W :: "byte8 list \<Rightarrow> nat \<Rightarrow> u32" where
  "fips_W block t =
     (if t < 16 then block_word block t
      else fips_sigma1 (fips_W block (t - 2)) + fips_W block (t - 7)
         + fips_sigma0 (fips_W block (t - 15)) + fips_W block (t - 16))"

declare fips_W.simps [simp del]

fun fips_vars :: "byte8 list \<Rightarrow> working \<Rightarrow> nat \<Rightarrow> working" where
  "fips_vars block v 0 = v"
| "fips_vars block v (Suc t) =
     (case fips_vars block v t of (a, b, c, d, e, f, g, h) \<Rightarrow>
        let T1 = h + fips_Sigma1 e + ((e AND f) XOR (NOT e AND g)) + K ! t + fips_W block t;
            T2 = fips_Sigma0 a + ((a AND b) XOR (a AND c) XOR (b AND c))
        in (T1 + T2, a, b, c, d + T1, e, f, g))"

fun list_working :: "u32 list \<Rightarrow> working" where
  "list_working h = (h ! 0, h ! 1, h ! 2, h ! 3, h ! 4, h ! 5, h ! 6, h ! 7)"

definition fips_block :: "byte8 list \<Rightarrow> nat \<Rightarrow> byte8 list" where
  "fips_block M i = take 64 (drop (64 * i) (fips_padded M))"

fun fips_H :: "byte8 list \<Rightarrow> nat \<Rightarrow> u32 list" where
  "fips_H M 0 = initial_hash"
| "fips_H M (Suc i) =
     map2 (+) (fips_H M i) (working_list (fips_vars (fips_block M i) (list_working (fips_H M i)) 64))"

definition fips_sha256 :: "byte8 list \<Rightarrow> byte8 list" where
  "fips_sha256 M =
     concat (map (\<lambda>w. big_endian 4 (unat w)) (fips_H M (length (fips_padded M) div 64)))"

section \<open>Lemmas\<close>

lemma word_rotr_ROTR: "0 < n \<Longrightarrow> n < 32 \<Longrightarrow> word_rotr n x = ROTR n x"
proof (rule bit_eqI)
  fix k
  assume n: "0 < n" "n < 32"
  show "bit (word_rotr n x) k = bit (ROTR n x) k"
  proof (cases "k + n < 32")
    case True
    then show ?thesis using n
      by (auto simp: ROTR_def bit_word_rotr_iff bit_simps add.commute)
  next
    case False
    then have "(k + n) mod 32 = k + n - 32" if "k < 32" using that n by (simp add: mod_if)
    with False n show ?thesis
      by (auto simp: ROTR_def bit_word_rotr_iff bit_simps add.commute dest: bit_imp_le_length)
  qed
qed

lemma ucast_drop_of_nat:
  assumes "n + LENGTH('b) \<le> LENGTH('a)"
  shows "ucast (drop_bit n (of_nat m :: 'a :: len word)) = (of_nat (m div 2 ^ n) :: 'b :: len word)"
  using assms by (intro bit_eqI)
    (auto simp: bit_simps drop_bit_eq_div [symmetric] simp flip: drop_bit_eq_div)

lemma pad_zeros_eq:
  "pad_zeros message = message @ replicate ((120 - length message mod 64) mod 64) 0"
proof (induction message rule: pad_zeros.induct)
  case (1 message)
  define r where "r = length message mod 64"
  have r: "r < 64" by (simp add: r_def)
  have m: "(120 - r) mod 64 = (if r \<le> 56 then 56 - r else 120 - r)" if "r < 64" for r :: nat
    using that by (auto simp: le_mod_geq mod_if)
  show ?case
  proof (cases "r = 56")
    case True
    then show ?thesis by (simp add: pad_zeros.simps [of message] r_def)
  next
    case False
    then have "pad_zeros message =
        (message @ [0]) @ replicate ((120 - length (message @ [0]) mod 64) mod 64) 0"
      using 1 by (simp add: pad_zeros.simps [of message] r_def)
    moreover have "length (message @ [0]) mod 64 = (if r = 63 then 0 else Suc r)"
      by (simp add: r_def mod_Suc)
    ultimately show ?thesis using r False
      by (auto simp: m simp flip: r_def replicate_Suc split: if_splits)
  qed
qed

lemma u64_bytes_big_endian: "u64_to_be_bytes (of_nat l * 8) = big_endian 8 (8 * l mod 2 ^ 64)"
proof -
  have "of_nat l * 8 = (of_nat (8 * l) :: 64 word)" by simp
  also have "\<dots> = of_nat (8 * l mod 2 ^ 64)" by (simp only: word_of_nat_eq_iff take_bit_eq_mod) simp
  finally have w: "of_nat l * 8 = (of_nat (8 * l mod 2 ^ 64) :: 64 word)" .
  show ?thesis
    by (simp add: w u64_to_be_bytes_def big_endian_def ucast_drop_of_nat upt_rec)
qed

lemma u32_bytes_big_endian: "to_be_bytes w = big_endian 4 (unat w)"
proof (cases w rule: word_nat_cases)
  case (1 n)
  then show ?thesis
    using ucast_drop_of_nat [of 0 n, where 'a = 32 and 'b = 8]
    by (simp add: to_be_bytes_def big_endian_def ucast_drop_of_nat upt_rec take_bit_nat_eq_self unsigned_of_nat)
qed

lemma padded_fips: "padded bytes = fips_padded bytes"
proof -
  have "(120 - length (bytes @ [0x80]) mod 64) mod 64 = (119 - length bytes mod 64) mod 64"
  proof -
    define r where "r = length bytes mod 64"
    have "r < 64" "length (bytes @ [0x80]) mod 64 = (if r = 63 then 0 else Suc r)"
      by (simp_all add: r_def mod_Suc)
    moreover have "(120 - r) mod 64 = (if r \<le> 56 then 56 - r else 120 - r)"
      "(119 - r) mod 64 = (if r \<le> 55 then 55 - r else 119 - r)" if "r < 64" for r :: nat
      using that by (auto simp: le_mod_geq)
    ultimately show ?thesis by (auto simp flip: r_def)
  qed
  then show ?thesis by (simp add: padded_def fips_padded_def pad_zeros_eq u64_bytes_big_endian)
qed

lemma length_fips_padded: "length (fips_padded M) mod 64 = 0"
proof -
  define r where "r = length M mod 64"
  have r: "r < 64" by (simp add: r_def)
  have k: "(119 - r) mod 64 = (if r \<le> 55 then 55 - r else 119 - r)"
    using r by (auto simp: le_mod_geq)
  have "length (fips_padded M) mod 64 = (r + (9 + (119 - r) mod 64)) mod 64"
    by (simp add: fips_padded_def big_endian_def r_def mod_simps add.commute)
  also have "\<dots> = 0" using r by (auto simp: k)
  finally show ?thesis .
qed

lemma chunks_exact_blocks:
  assumes "0 < n"
  shows "chunks_exact n xs = map (\<lambda>i. take n (drop (n * i) xs)) [0..<length xs div n]"
proof (induction xs rule: measure_induct_rule [of length])
  case (less xs)
  show ?case
  proof (cases "length xs < n")
    case True
    then show ?thesis by (simp add: chunks_exact.simps)
  next
    case False
    then have "length (drop n xs) < length xs" using assms by simp
    with less have "chunks_exact n xs =
        take n xs # map (\<lambda>i. take n (drop (n * i) (drop n xs))) [0..<(length xs - n) div n]"
      using False assms by (simp add: chunks_exact.simps [of n xs])
    moreover have "length xs div n = Suc ((length xs - n) div n)"
      using False assms by (simp add: le_div_geq)
    ultimately show ?thesis
      by (simp add: upt_conv_Cons map_Suc_upt [symmetric] comp_def add.commute del: upt_Suc)
  qed
qed

lemma fold_store:
  "n + length xs \<le> length w \<Longrightarrow>
   fold (\<lambda>(i, x) w. w[i := f x]) (List.enumerate n xs) w = take n w @ map f xs @ drop (n + length xs) w"
proof (induction xs arbitrary: n w)
  case (Cons x xs)
  then have "fold (\<lambda>(i, x) w. w[i := f x]) (List.enumerate n (x # xs)) w =
      take (Suc n) (w[n := f x]) @ map f xs @ drop (Suc n + length xs) (w[n := f x])"
    by simp
  also have "\<dots> = take n w @ map f (x # xs) @ drop (n + length (x # xs)) w"
    using Cons.prems by (simp add: take_Suc_conv_app_nth)
  finally show ?case .
qed simp

lemma from_be_bytes_value:
  "from_be_bytes b0 b1 b2 b3 = of_nat (big_endian_value [b0, b1, b2, b3])"
proof -
  have d: "push_bit n x OR y = push_bit n x + y" if "\<And>k. bit y k \<Longrightarrow> k < n" for x y :: u32 and n
    using that by (intro disjunctive_add [symmetric]) (auto simp: bit_simps not_less dest: leD)
  have u: "bit (ucast b :: u32) k \<Longrightarrow> k < 8" for b :: byte8 and k
    by (auto simp: bit_simps dest: bit_imp_le_length)
  have s: "bit (push_bit n (ucast b) :: u32) k \<Longrightarrow> k < n + 8" for b :: byte8 and n k
    using u [of b "k - n"] by (auto simp: bit_simps)
  have k2: "k < 16" if "bit (push_bit 8 (ucast b2) OR ucast b3 :: u32) k" for k
    using that u [of b3 k] s [of 8 b2 k] by (auto simp: bit_or_iff)
  have k1: "k < 24" if "bit (push_bit 16 (ucast b1) OR push_bit 8 (ucast b2) OR ucast b3 :: u32) k" for k
    using that u [of b3 k] s [of 8 b2 k] s [of 16 b1 k] by (auto simp: bit_or_iff)
  have "from_be_bytes b0 b1 b2 b3 =
      push_bit 24 (ucast b0) + (push_bit 16 (ucast b1) + (push_bit 8 (ucast b2) + ucast b3))"
    unfolding from_be_bytes_def by (subst d [OF k1], simp, subst d [OF k2], simp, subst d [OF u], auto)
  then show ?thesis by (simp add: big_endian_value_def push_bit_eq_mult)
qed

lemma load_words_eq:
  assumes "length chunk = 64"
  shows "load_words chunk = map (block_word chunk) [0..<16] @ replicate 48 0"
proof -
  define f where "f = (\<lambda>word. from_be_bytes (word ! 0) (word ! 1) (word ! 2) (word ! 3))"
  have "f (take 4 (drop (4 * i) chunk)) = block_word chunk i" if "i < 16" for i
  proof -
    have four: "length xs = 4 \<Longrightarrow> \<exists>b0 b1 b2 b3. xs = [b0, b1, b2, b3]" for xs :: "byte8 list"
      by (auto simp: numeral_eq_Suc length_Suc_conv)
    obtain b0 b1 b2 b3 where "take 4 (drop (4 * i) chunk) = [b0, b1, b2, b3]"
      using four [of "take 4 (drop (4 * i) chunk)"] assms \<open>i < 16\<close> by auto
    then show ?thesis by (simp add: f_def block_word_def from_be_bytes_value)
  qed
  then have "map f (chunks_exact 4 chunk) = map (block_word chunk) [0..<16]"
    using assms by (simp add: chunks_exact_blocks)
  moreover have "length (chunks_exact 4 chunk) = 16" using assms by (simp add: chunks_exact_blocks)
  ultimately show ?thesis
    using fold_store [of 0 "chunks_exact 4 chunk" "replicate 64 0" f]
    by (simp add: load_words_def f_def case_prod_beta)
qed

lemma schedule_prefix:
  assumes "length chunk = 64" "n \<le> 48"
  shows "length (fold extend_step [16..<16 + n] (load_words chunk)) = 64 \<and>
         (\<forall>t < 16 + n. fold extend_step [16..<16 + n] (load_words chunk) ! t = fips_W chunk t)"
  using assms(2)
proof (induction n)
  case 0
  then show ?case using assms(1) by (auto simp: load_words_eq nth_append fips_W.simps)
next
  case (Suc n)
  define w where "w = fold extend_step [16..<16 + n] (load_words chunk)"
  have len: "length w = 64" and nth: "\<And>t. t < 16 + n \<Longrightarrow> w ! t = fips_W chunk t"
    using Suc by (auto simp: w_def)
  have W: "fips_W chunk (16 + n) = fips_W chunk n + fips_sigma0 (fips_W chunk (Suc n))
      + fips_W chunk (9 + n) + fips_sigma1 (fips_W chunk (14 + n))"
    by (simp add: fips_W.simps [of chunk "16 + n"])
  have "fold extend_step [16..<16 + Suc n] (load_words chunk) = extend_step (16 + n) w"
    using upt_Suc_append [of 16 "16 + n"] by (simp add: w_def)
  also have "\<dots> = w[16 + n := fips_W chunk (16 + n)]"
    by (simp add: extend_step_def nth word_rotr_ROTR W fips_sigma0_def fips_sigma1_def)
  finally show ?case using len nth Suc.prems by (auto simp: nth_list_update less_Suc_eq)
qed

lemma message_schedule_nth:
  "length chunk = 64 \<Longrightarrow> t < 64 \<Longrightarrow> message_schedule chunk ! t = fips_W chunk t"
  using schedule_prefix [of chunk 48] by (simp add: message_schedule_def)

lemma rounds_fips:
  assumes "length chunk = 64" "t \<le> 64"
  shows "fold (sha_round (message_schedule chunk)) [0..<t] v = fips_vars chunk v t"
  using assms(2)
proof (induction t)
  case (Suc t)
  obtain a b c d e f g h where v: "fips_vars chunk v t = (a, b, c, d, e, f, g, h)"
    by (cases "fips_vars chunk v t") auto
  with Suc assms(1) show ?case
    by (simp add: message_schedule_nth word_rotr_ROTR fips_Sigma0_def fips_Sigma1_def)
qed simp

lemma compress_fips:
  "length chunk = 64 \<Longrightarrow>
   compress chunk h = map2 (+) h (working_list (fips_vars chunk (list_working h) 64))"
  by (simp add: compress_def rounds_fips)

lemma hash_fips:
  assumes "n \<le> length (fips_padded M) div 64"
  shows "fold compress (map (fips_block M) [0..<n]) initial_hash = fips_H M n"
  using assms
proof (induction n)
  case (Suc n)
  then have "64 * Suc n \<le> length (fips_padded M)" by simp
  then have "length (fips_block M n) = 64" by (simp add: fips_block_def)
  with Suc show ?case by (simp add: compress_fips)
qed simp

lemma length_working_list [simp]: "length (working_list v) = 8"
  by (cases v rule: working_list.cases) simp

lemma length_fips_H: "length (fips_H M n) = 8"
  by (induction n) (simp_all add: initial_hash_def)

lemma length_fips_sha256: "length (fips_sha256 M) = 32"
  by (simp add: fips_sha256_def length_concat comp_def big_endian_def length_fips_H sum_list_triv)

lemma hex_lowercase:
  "\<forall>b \<in> set bs. b < 256 \<Longrightarrow>
   list_all (\<lambda>c. is_ascii_digit c \<or> is_ascii_lowercase c \<and> byte c \<le> 102) (hex bs)"
proof (induction bs)
  case (Cons b bs)
  have d: "is_ascii_digit (hex_digit n) \<or> is_ascii_lowercase (hex_digit n) \<and> byte (hex_digit n) \<le> 102"
    if "n < 16" for n
    using that by (auto simp: hex_digit_def is_ascii_digit_def is_ascii_lowercase_def byte_char_of)
  have "b div 16 < 16" using Cons.prems by auto
  then show ?case using Cons d [of "b div 16"] d [of "b mod 16"] by (simp add: hex_def)
qed (simp add: hex_def)

definition lower_hex :: "char \<Rightarrow> bool" where
  "lower_hex c \<longleftrightarrow> is_ascii_digit c \<or> is_ascii_lowercase c \<and> byte c \<le> 102"

lemma sha256_fips: "sha256 bytes = fips_sha256 bytes"
  by (simp add: sha256_def fips_sha256_def padded_fips chunks_exact_blocks u32_bytes_big_endian [abs_def]
      fips_block_def [symmetric] hash_fips)

lemma sha256_hex_shape: "length (sha256_hex s) = 64" "list_all lower_hex (sha256_hex s)"
proof -
  have lt: "\<forall>b \<in> set (map unat (bs :: byte8 list)). b < 256" for bs
    using unsigned_less [where 'b = 8 and 'a = nat] by auto
  show "length (sha256_hex s) = 64" "list_all lower_hex (sha256_hex s)"
    using hex_lowercase [OF lt]
    by (simp_all add: sha256_hex_def sha256_fips length_hex length_fips_sha256 lower_hex_def [abs_def])
qed

section \<open>Properties\<close>

text \<open>
  C12. The hash is SHA-256. On every input, of any length, the padding loop, the in-place schedule
  and the rounds compute the digest of FIPS 180-4, and what is printed of it is 64 characters, each
  a decimal digit or a letter from a to f in lower case.
\<close>

theorem sha256_is_fips:
  "sha256 bytes = fips_sha256 bytes \<and>
   sha256_hex s = hex (map unat (fips_sha256 (map (\<lambda>c. of_nat (byte c)) s))) \<and>
   length (sha256_hex s) = 64 \<and> list_all lower_hex (sha256_hex s)"
  by (simp add: sha256_fips sha256_hex_shape, simp add: sha256_hex_def sha256_fips)

end
