(* ===== verification/Punar_Principal.thy ===== *)
theory Punar_Principal
  imports Punar_Machine
begin

text \<open>
  Who is calling, and what may be named: \<open>crates/punar-common/src/{principal,decision,capability}.rs\<close>,
  the risk levels of \<open>descriptor.rs\<close>, and the peer identity of \<open>crates/punard/src/authz.rs\<close>. The
  lemmas pin the attribution rule both daemons share: a session is named only when the cgroup
  spells one, and everything that names a session also trips the wider scope test.
\<close>

section \<open>Closed vocabularies\<close>

datatype principal_kind = Device | Human | Organization | Project | Application | AiAgent | Service

datatype decision = Allow | Deny | ApprovalRequired

datatype risk = Low | Medium | High

fun risk_str :: "risk \<Rightarrow> string" where
  "risk_str Low = ''low''"
| "risk_str Medium = ''medium''"
| "risk_str High = ''high''"

section \<open>Capability ids\<close>

definition segment_is_valid :: "string \<Rightarrow> bool" where
  "segment_is_valid segment =
     (case segment of
        [] \<Rightarrow> False
      | c # cs \<Rightarrow> is_ascii_alphabetic c
          \<and> list_all (\<lambda>c. is_ascii_alphanumeric c \<or> c = CHR ''_'') cs)"

datatype capability_id_error = TooFewSegments string | InvalidSegment string string

text \<open>\<open>CapabilityId::new\<close>; the id it returns is the input string.\<close>

definition capability_id_new :: "string \<Rightarrow> (capability_id_error, string) result" where
  "capability_id_new input =
     (let segments = split_on CHR ''.'' input
      in if length segments < 2 then Err (TooFewSegments input)
         else (case find (\<lambda>s. \<not> segment_is_valid s) segments of
                 Some s \<Rightarrow> Err (InvalidSegment input s)
               | None \<Rightarrow> Ok input))"

section \<open>Agent-session attribution\<close>

definition AGENT_SCOPE_PREFIX :: string where
  "AGENT_SCOPE_PREFIX = ''punar-agent-''"

definition AGENT_SCOPE_SUFFIX :: string where
  "AGENT_SCOPE_SUFFIX = ''.scope''"

text \<open>One path segment of a cgroup line: the session it spells, if any.\<close>

definition segment_session :: "string \<Rightarrow> string option" where
  "segment_session segment =
     (case strip_prefix AGENT_SCOPE_PREFIX segment of
        None \<Rightarrow> None
      | Some rest \<Rightarrow>
          (case strip_suffix AGENT_SCOPE_SUFFIX rest of
             None \<Rightarrow> None
           | Some sid \<Rightarrow> if prefixed_id ''agt_'' sid then Some sid else None))"

definition agent_session_in_cgroup :: "string \<Rightarrow> string option" where
  "agent_session_in_cgroup cgroup =
     first_Some (\<lambda>line. first_Some segment_session (split_on CHR ''/'' line)) (str_lines cgroup)"

definition cgroup_mentions_agent_scope :: "string \<Rightarrow> bool" where
  "cgroup_mentions_agent_scope cgroup =
     list_ex (\<lambda>line. list_ex (starts_with AGENT_SCOPE_PREFIX) (split_on CHR ''/'' line))
       (str_lines cgroup)"

definition peer_cgroup ::
  "'e os_env_scheme \<Rightarrow> 's os_state_scheme \<Rightarrow> int option \<Rightarrow> string option" where
  "peer_cgroup E st pid =
     (case pid of
        None \<Rightarrow> None
      | Some p \<Rightarrow> if p \<le> 0 then None else env_cgroup E (ticks st) p)"

definition agent_session_of_pid ::
  "'e os_env_scheme \<Rightarrow> 's os_state_scheme \<Rightarrow> int option \<Rightarrow> string option" where
  "agent_session_of_pid E st pid = Option.bind (peer_cgroup E st pid) agent_session_in_cgroup"

definition peer_smells_of_agent_scope ::
  "'e os_env_scheme \<Rightarrow> 's os_state_scheme \<Rightarrow> int option \<Rightarrow> bool" where
  "peer_smells_of_agent_scope E st pid =
     (case peer_cgroup E st pid of None \<Rightarrow> False | Some c \<Rightarrow> cgroup_mentions_agent_scope c)"

section \<open>Peers\<close>

record peer =
  peer_uid :: nat
  peer_gid :: nat
  peer_pid :: "int option"

definition root_peer :: peer where
  "root_peer = \<lparr>peer_uid = 0, peer_gid = 0, peer_pid = None\<rparr>"

definition agent_session_of_peer ::
  "'e os_env_scheme \<Rightarrow> 's os_state_scheme \<Rightarrow> peer \<Rightarrow> string option" where
  "agent_session_of_peer E st p = agent_session_of_pid E st (peer_pid p)"

definition authorize_mutation :: "peer \<Rightarrow> decision" where
  "authorize_mutation p = (if peer_uid p = 0 then Allow else Deny)"

section \<open>Lemmas\<close>

lemma segment_session_Some_iff:
  "segment_session s = Some sid \<longleftrightarrow>
     s = AGENT_SCOPE_PREFIX @ sid @ AGENT_SCOPE_SUFFIX \<and> prefixed_id ''agt_'' sid"
  by (auto simp: segment_session_def strip_prefix_Some_iff strip_suffix_Some_iff
      split: option.splits if_splits)
     (metis strip_prefix_append strip_suffix_Some_iff option.distinct(1) option.inject)+

lemma session_id_shape: "agent_session_in_cgroup cg = Some sid \<Longrightarrow> prefixed_id ''agt_'' sid"
  by (auto simp: agent_session_in_cgroup_def segment_session_Some_iff dest!: first_Some_iff)

lemma session_implies_scope:
  "agent_session_in_cgroup cg = Some sid \<Longrightarrow> cgroup_mentions_agent_scope cg"
  by (fastforce simp: agent_session_in_cgroup_def cgroup_mentions_agent_scope_def list_ex_iff
      segment_session_Some_iff starts_with_iff dest!: first_Some_iff)

lemma session_of_pid_smells:
  "agent_session_of_pid E st pid = Some sid \<Longrightarrow> peer_smells_of_agent_scope E st pid"
  by (auto simp: agent_session_of_pid_def peer_smells_of_agent_scope_def
      dest: session_implies_scope split: option.splits bind_splits)

lemma session_of_pid_shape: "agent_session_of_pid E st pid = Some sid \<Longrightarrow> prefixed_id ''agt_'' sid"
  by (auto simp: agent_session_of_pid_def dest: session_id_shape split: bind_splits)

section \<open>Properties\<close>

text \<open>
  A session is attributed exactly when some cgroup path segment is the scope unit of a
  well-formed session id; the id attributed is one such id, and every attributed peer also trips
  the wider "smells of an agent scope" test that guards consent.
\<close>

theorem agent_attribution_exact:
  "(agent_session_in_cgroup cgroup \<noteq> None \<longleftrightarrow>
      (\<exists>line \<in> set (str_lines cgroup). \<exists>sid. prefixed_id ''agt_'' sid \<and>
         AGENT_SCOPE_PREFIX @ sid @ AGENT_SCOPE_SUFFIX \<in> set (split_on CHR ''/'' line))) \<and>
   (\<forall>sid. agent_session_in_cgroup cgroup = Some sid \<longrightarrow>
      prefixed_id ''agt_'' sid \<and> cgroup_mentions_agent_scope cgroup)"
proof (intro conjI allI impI)
  have seg: "segment_session seg \<noteq> None \<longleftrightarrow>
      (\<exists>sid. prefixed_id ''agt_'' sid \<and> seg = AGENT_SCOPE_PREFIX @ sid @ AGENT_SCOPE_SUFFIX)" for seg
    by (simp only: not_None_eq segment_session_Some_iff) blast
  have "agent_session_in_cgroup cgroup \<noteq> None \<longleftrightarrow>
      (\<exists>line \<in> set (str_lines cgroup). \<exists>seg \<in> set (split_on CHR ''/'' line). segment_session seg \<noteq> None)"
    by (simp add: agent_session_in_cgroup_def first_Some_None_iff)
  then show "agent_session_in_cgroup cgroup \<noteq> None \<longleftrightarrow>
      (\<exists>line \<in> set (str_lines cgroup). \<exists>sid. prefixed_id ''agt_'' sid \<and>
         AGENT_SCOPE_PREFIX @ sid @ AGENT_SCOPE_SUFFIX \<in> set (split_on CHR ''/'' line))"
    unfolding seg by blast
next
  fix sid
  assume "agent_session_in_cgroup cgroup = Some sid"
  then show "prefixed_id ''agt_'' sid" by (rule session_id_shape)
next
  fix sid
  assume "agent_session_in_cgroup cgroup = Some sid"
  then show "cgroup_mentions_agent_scope cgroup" by (rule session_implies_scope)
qed

theorem agent_attribution_exact_witness:
  "cgroup_mentions_agent_scope ''0::/user.slice/punar-agent-agt_7f.scope''"
proof -
  have "agent_session_in_cgroup ''0::/user.slice/punar-agent-agt_7f.scope'' = Some ''agt_7f''"
    by code_simp
  from agent_attribution_exact [THEN conjunct2, rule_format, OF this] show ?thesis by blast
qed

end
