(* ===== verification/Punar_Policy.thy ===== *)
theory Punar_Policy
  imports Punar_Collections
begin

text \<open>
  The precedence ladder and the document merge of \<open>crates/punar-policy/src/lib.rs\<close>, and the
  effective document \<open>crates/punard/src/policy.rs\<close> computes over it: the personal, organization
  and administrator layers in the order the daemon pushes them. The lemmas characterise the
  winner of \<open>resolve\<close> (highest rung, first among equals), the per-path behaviour of \<open>merge\<close>,
  and what an administrator or a user may still override.
\<close>

section \<open>The ladder\<close>

datatype policy_source =
    OsDefault
  | UserPreference
  | TemporaryApprovedExceptionSource
  | OrganizationRole
  | OrganizationMandatory
  | HardOsSafetyConstraint

text \<open>The derived \<open>Ord\<close>: declaration order, lowest precedence first.\<close>

fun rung :: "policy_source \<Rightarrow> nat" where
  "rung OsDefault = 0"
| "rung UserPreference = 1"
| "rung TemporaryApprovedExceptionSource = 2"
| "rung OrganizationRole = 3"
| "rung OrganizationMandatory = 4"
| "rung HardOsSafetyConstraint = 5"

lemma rung_inject: "rung a = rung b \<Longrightarrow> a = b"
  by (cases a; cases b) simp_all

instantiation policy_source :: linorder
begin

definition less_eq_policy_source :: "policy_source \<Rightarrow> policy_source \<Rightarrow> bool" where
  "less_eq_policy_source a b \<longleftrightarrow> rung a \<le> rung b"

definition less_policy_source :: "policy_source \<Rightarrow> policy_source \<Rightarrow> bool" where
  "less_policy_source a b \<longleftrightarrow> rung a < rung b"

instance
  by standard (auto simp: less_eq_policy_source_def less_policy_source_def dest: rung_inject)

end

lemmas source_order = less_eq_policy_source_def less_policy_source_def

definition IN_PRECEDENCE_ORDER :: "policy_source list" where
  "IN_PRECEDENCE_ORDER =
     [HardOsSafetyConstraint, OrganizationMandatory, OrganizationRole,
      TemporaryApprovedExceptionSource, UserPreference, OsDefault]"

record 'v resolved =
  r_value :: 'v
  r_source :: policy_source

definition resolve_step ::
  "'v resolved option \<Rightarrow> policy_source \<times> 'v \<Rightarrow> 'v resolved option" where
  "resolve_step best e =
     (case best of
        Some current \<Rightarrow>
          (if fst e > r_source current then Some \<lparr>r_value = snd e, r_source = fst e\<rparr>
           else Some current)
      | None \<Rightarrow> Some \<lparr>r_value = snd e, r_source = fst e\<rparr>)"

definition resolve :: "(policy_source \<times> 'v) list \<Rightarrow> 'v resolved option" where
  "resolve entries = foldl resolve_step None entries"

section \<open>Sources, provenance, layers\<close>

datatype source_kind =
    OsHardSafetyConstraint
  | OrganizationBaseline
  | OrganizationRolePolicy
  | TemporaryApprovedException
  | LocalUserPreference
  | OsSecureDefault
  | DeviceSpecificOverride

definition source_kind_all :: "source_kind list" where
  "source_kind_all =
     [OsHardSafetyConstraint, OrganizationBaseline, OrganizationRolePolicy,
      TemporaryApprovedException, LocalUserPreference, OsSecureDefault, DeviceSpecificOverride]"

fun source_kind_str :: "source_kind \<Rightarrow> string" where
  "source_kind_str OsHardSafetyConstraint = ''os_hard_safety_constraint''"
| "source_kind_str OrganizationBaseline = ''organization_baseline''"
| "source_kind_str OrganizationRolePolicy = ''organization_role_policy''"
| "source_kind_str TemporaryApprovedException = ''temporary_approved_exception''"
| "source_kind_str LocalUserPreference = ''local_user_preference''"
| "source_kind_str OsSecureDefault = ''os_secure_default''"
| "source_kind_str DeviceSpecificOverride = ''device_specific_override''"

fun fixed_rank :: "source_kind \<Rightarrow> nat option" where
  "fixed_rank OsHardSafetyConstraint = Some 1"
| "fixed_rank OrganizationBaseline = Some 2"
| "fixed_rank OrganizationRolePolicy = Some 3"
| "fixed_rank TemporaryApprovedException = Some 4"
| "fixed_rank LocalUserPreference = Some 5"
| "fixed_rank OsSecureDefault = Some 6"
| "fixed_rank DeviceSpecificOverride = None"

definition USER_OVERRIDE_MIN_RANK :: nat where
  "USER_OVERRIDE_MIN_RANK = 5"

definition policy_source_for_rank :: "nat \<Rightarrow> policy_source" where
  "policy_source_for_rank rank =
     (if rank = 0 \<or> rank = 1 then HardOsSafetyConstraint
      else if rank = 2 then OrganizationMandatory
      else if rank = 3 then OrganizationRole
      else if rank = 4 then TemporaryApprovedExceptionSource
      else if rank = 5 then UserPreference
      else OsDefault)"

record provenance =
  pv_kind :: source_kind
  pv_rank :: nat
  pv_policy_id :: string
  pv_source_name :: string

definition provenance_policy_source :: "provenance \<Rightarrow> policy_source" where
  "provenance_policy_source p = policy_source_for_rank (pv_rank p)"

datatype classification = AutoRemediate | AlertOnly | ApprovalRequiredClass

fun classification_str :: "classification \<Rightarrow> string" where
  "classification_str AutoRemediate = ''auto_remediate''"
| "classification_str AlertOnly = ''alert_only''"
| "classification_str ApprovalRequiredClass = ''approval_required''"

record 'v layer_value =
  lv_value :: 'v
  lv_provenance :: provenance
  lv_classification :: classification

record 'v effective_entry =
  ee_value :: 'v
  ee_provenance :: provenance
  ee_classification :: classification
  ee_user_override_permitted :: bool

section \<open>The merge\<close>

text \<open>First loop: group the entries by path, each group in input order.\<close>

definition push_candidate ::
  "(string, (policy_source \<times> 'v layer_value) list) btree_map \<Rightarrow> string \<times> 'v layer_value
   \<Rightarrow> (string, (policy_source \<times> 'v layer_value) list) btree_map" where
  "push_candidate per_path e =
     bt_insert (fst e)
       (unwrap_or (bt_get per_path (fst e)) []
         @ [(provenance_policy_source (lv_provenance (snd e)), snd e)]) per_path"

definition per_path_of ::
  "(string \<times> 'v layer_value) list
   \<Rightarrow> (string, (policy_source \<times> 'v layer_value) list) btree_map" where
  "per_path_of entries = foldl push_candidate [] entries"

definition effective_of :: "'v layer_value \<Rightarrow> 'v effective_entry" where
  "effective_of w =
     \<lparr>ee_value = lv_value w, ee_provenance = lv_provenance w,
      ee_classification = lv_classification w,
      ee_user_override_permitted = (pv_rank (lv_provenance w) \<ge> USER_OVERRIDE_MIN_RANK)\<rparr>"

text \<open>Second loop; the \<open>expect\<close> is the \<open>the\<close>, and \<open>per_path_candidates\<close> shows it never fails.\<close>

definition merge ::
  "(string \<times> 'v layer_value) list \<Rightarrow> (string, 'v effective_entry) btree_map" where
  "merge entries =
     map (\<lambda>(path, candidates). (path, effective_of (r_value (the (resolve candidates)))))
       (per_path_of entries)"

section \<open>Lemmas on the ladder\<close>

lemma resolve_Nil [simp]: "resolve [] = None"
  by (simp add: resolve_def)

lemma resolve_snoc: "resolve (xs @ [x]) = resolve_step (resolve xs) x"
  by (simp add: resolve_def)

lemma resolve_None_iff [simp]: "resolve xs = None \<longleftrightarrow> xs = []"
  by (cases xs rule: rev_cases) (auto simp: resolve_snoc resolve_step_def split: option.splits)

lemma resolve_winner:
  "resolve xs = Some r \<Longrightarrow>
   \<exists>ys zs. xs = ys @ (r_source r, r_value r) # zs \<and>
     (\<forall>y \<in> set ys. fst y < r_source r) \<and> (\<forall>z \<in> set zs. fst z \<le> r_source r)"
proof (induction xs arbitrary: r rule: rev_induct)
  case Nil
  then show ?case by simp
next
  case (snoc x xs)
  show ?case
  proof (cases "resolve xs")
    case None
    then have "xs = []" by simp
    with snoc.prems have "x = (r_source r, r_value r)" by (auto simp: resolve_def resolve_step_def)
    with \<open>xs = []\<close> show ?thesis by (intro exI [of _ "[]"]) simp
  next
    case (Some b)
    with snoc.IH obtain ys zs where
      b: "xs = ys @ (r_source b, r_value b) # zs" "\<forall>y \<in> set ys. fst y < r_source b"
        "\<forall>z \<in> set zs. fst z \<le> r_source b" by blast
    show ?thesis
    proof (cases "fst x > r_source b")
      case True
      with Some snoc.prems have r: "r_source r = fst x" "r_value r = snd x"
        by (auto simp: resolve_snoc resolve_step_def)
      have "\<forall>y \<in> set xs. fst y < r_source r" using b True r by fastforce
      then show ?thesis using r by (intro exI [of _ xs] exI [of _ "[]"]) simp
    next
      case False
      with Some snoc.prems have "r = b" by (auto simp: resolve_snoc resolve_step_def)
      with b False show ?thesis
        by (intro exI [of _ ys] exI [of _ "zs @ [x]"]) auto
    qed
  qed
qed

lemma resolve_is_max: "resolve xs = Some r \<Longrightarrow> x \<in> set xs \<Longrightarrow> fst x \<le> r_source r"
  using resolve_winner [of xs r] by fastforce

lemma resolve_in: "resolve xs = Some r \<Longrightarrow> (r_source r, r_value r) \<in> set xs"
  using resolve_winner [of xs r] by fastforce

lemma winner_unique:
  assumes "xs = ys @ (s, v) # zs" "\<forall>y \<in> set ys. fst y < s" "\<forall>z \<in> set zs. fst z \<le> s"
  shows "resolve xs = Some \<lparr>r_value = v, r_source = s\<rparr>"
proof -
  have "resolve xs \<noteq> None" using assms(1) by simp
  then obtain r where r: "resolve xs = Some r" by blast
  obtain ys' zs' where w: "xs = ys' @ (r_source r, r_value r) # zs'"
    "\<forall>y \<in> set ys'. fst y < r_source r" "\<forall>z \<in> set zs'. fst z \<le> r_source r"
    using resolve_winner [OF r] by blast
  have s: "r_source r = s"
  proof (rule antisym)
    show "r_source r \<le> s" using resolve_in [OF r] assms by fastforce
    show "s \<le> r_source r" using resolve_is_max [OF r, of "(s, v)"] assms(1) by simp
  qed
  have "takeWhile (\<lambda>y. fst y < s) xs = ys" using assms by (simp add: takeWhile_tail)
  moreover have "takeWhile (\<lambda>y. fst y < s) xs = ys'" using w s by (simp add: takeWhile_tail)
  ultimately have "ys = ys'" by simp
  with assms(1) w(1) have "r_value r = v" by simp
  with r s show ?thesis by (metis resolved.surjective old.unit.exhaust)
qed

lemma rung_of_rank: "1 \<le> k \<Longrightarrow> k \<le> 6 \<Longrightarrow> rung (policy_source_for_rank k) = 6 - k"
  by (auto simp: policy_source_for_rank_def)

lemma policy_source_antimono: "j \<le> k \<Longrightarrow> policy_source_for_rank k \<le> policy_source_for_rank j"
  by (auto simp: policy_source_for_rank_def source_order)

lemma above_user_iff: "policy_source_for_rank k > UserPreference \<longleftrightarrow> k < USER_OVERRIDE_MIN_RANK"
  by (auto simp: policy_source_for_rank_def source_order USER_OVERRIDE_MIN_RANK_def)

section \<open>Lemmas on the merge\<close>

text \<open>The candidates \<open>merge\<close> sees for one path.\<close>

definition candidates_at ::
  "(string \<times> 'v layer_value) list \<Rightarrow> string \<Rightarrow> (policy_source \<times> 'v layer_value) list" where
  "candidates_at entries p =
     map (\<lambda>e. (provenance_policy_source (lv_provenance (snd e)), snd e)) (filter (\<lambda>e. fst e = p) entries)"

lemma candidates_at_append:
  "candidates_at (xs @ ys) p = candidates_at xs p @ candidates_at ys p"
  by (simp add: candidates_at_def)

lemma bt_ok_per_path: "bt_ok (per_path_of entries)"
  by (induction entries rule: rev_induct)
     (simp_all add: per_path_of_def push_candidate_def bt_ok_insert)

lemma per_path_get:
  "bt_get (per_path_of entries) p =
     (if candidates_at entries p = [] then None else Some (candidates_at entries p))"
proof (induction entries rule: rev_induct)
  case Nil
  show ?case by (simp add: per_path_of_def bt_get_def candidates_at_def)
next
  case (snoc e es)
  have "per_path_of (es @ [e]) = push_candidate (per_path_of es) e"
    by (simp add: per_path_of_def)
  moreover have "candidates_at (es @ [e]) p = candidates_at es p @
      (if fst e = p then [(provenance_policy_source (lv_provenance (snd e)), snd e)] else [])"
    by (simp add: candidates_at_def)
  ultimately show ?case
    using snoc bt_ok_per_path [of es] by (auto simp: push_candidate_def bt_get_insert)
qed

lemma per_path_candidates: "(p, c) \<in> set (per_path_of entries) \<Longrightarrow> resolve c \<noteq> None"
  using bt_entries_get [OF bt_ok_per_path, of p c entries]
  by (auto simp: per_path_get split: if_splits)

lemma map_fst_merge: "map fst (merge entries) = map fst (per_path_of entries)"
  by (simp add: merge_def case_prod_unfold comp_def)

lemma bt_ok_merge: "bt_ok (merge entries)"
  using bt_ok_per_path [of entries] by (simp add: bt_ok_def map_fst_merge)

lemma merge_get:
  "bt_get (merge entries) p = map_option (effective_of \<circ> r_value) (resolve (candidates_at entries p))"
proof -
  have "bt_get (merge entries) p =
      map_option (\<lambda>c. effective_of (r_value (the (resolve c)))) (bt_get (per_path_of entries) p)"
    by (simp add: merge_def bt_get_def map_of_map)
  then show ?thesis
    by (cases "resolve (candidates_at entries p)") (auto simp: per_path_get)
qed

lemma merge_Some:
  assumes "bt_get (merge entries) p = Some e"
  obtains ys w zs where "filter (\<lambda>x. fst x = p) entries = ys @ (p, w) # zs" "e = effective_of w"
    "\<forall>y \<in> set ys. provenance_policy_source (lv_provenance (snd y)) < provenance_policy_source (lv_provenance w)"
    "\<forall>z \<in> set zs. provenance_policy_source (lv_provenance (snd z)) \<le> provenance_policy_source (lv_provenance w)"
proof -
  let ?g = "\<lambda>x. (provenance_policy_source (lv_provenance (snd x)), snd x)"
  let ?xs = "filter (\<lambda>x. fst x = p) entries"
  from assms obtain r where r: "resolve (map ?g ?xs) = Some r" "e = effective_of (r_value r)"
    by (auto simp: merge_get candidates_at_def)
  obtain as bs where w: "map ?g ?xs = as @ (r_source r, r_value r) # bs"
    "\<forall>y \<in> set as. fst y < r_source r" "\<forall>z \<in> set bs. fst z \<le> r_source r"
    using resolve_winner [OF r(1)] by blast
  from w(1) obtain ys x zs where x: "?xs = ys @ x # zs" "map ?g ys = as"
    "?g x = (r_source r, r_value r)" "map ?g zs = bs"
    by (auto simp: map_eq_append_conv map_eq_Cons_conv)
  have "x \<in> set ?xs" using x(1) by simp
  then have "fst x = p" by simp
  then have xp: "x = (p, snd x)" by (metis prod.collapse)
  show thesis
  proof (rule that [of ys "snd x" zs])
    show "?xs = ys @ (p, snd x) # zs" using x(1) xp by simp
    show "e = effective_of (snd x)" using r(2) x(3) by simp
    show "\<forall>y \<in> set ys. provenance_policy_source (lv_provenance (snd y)) < provenance_policy_source (lv_provenance (snd x))"
      using w(2) x(2,3) by force
    show "\<forall>z \<in> set zs. provenance_policy_source (lv_provenance (snd z)) \<le> provenance_policy_source (lv_provenance (snd x))"
      using w(3) x(3,4) by force
  qed
qed

lemma resolve_append:
  "resolve (xs @ ys) =
     (case resolve xs of
        None \<Rightarrow> resolve ys
      | Some a \<Rightarrow> (case resolve ys of
          None \<Rightarrow> Some a
        | Some b \<Rightarrow> if r_source b > r_source a then Some b else Some a))"
proof (induction ys rule: rev_induct)
  case Nil
  show ?case by (simp split: option.splits)
next
  case (snoc y ys)
  show ?case
    by (simp only: append_assoc [symmetric] resolve_snoc snoc)
       (auto simp: resolve_step_def split: option.splits)
qed

section \<open>Properties\<close>

text \<open>
  The effective document holds, for each path, exactly the first entry pushed for that path
  among those at the highest precedence rung: everything before it is strictly lower, nothing
  after it is higher, and a path nobody mentions has no entry.
\<close>

theorem merge_picks_first_highest:
  "bt_get (merge entries) p = Some e \<longleftrightarrow>
     (\<exists>ys w zs. filter (\<lambda>x. fst x = p) entries = ys @ (p, w) # zs \<and> e = effective_of w \<and>
        (\<forall>y \<in> set ys. provenance_policy_source (lv_provenance (snd y)) < provenance_policy_source (lv_provenance w)) \<and>
        (\<forall>z \<in> set zs. provenance_policy_source (lv_provenance (snd z)) \<le> provenance_policy_source (lv_provenance w)))"
    (is "?L \<longleftrightarrow> ?R")
proof
  assume ?L
  then show ?R by (rule merge_Some) blast
next
  assume ?R
  then obtain ys w zs where f: "filter (\<lambda>x. fst x = p) entries = ys @ (p, w) # zs"
    and e: "e = effective_of w"
    and less: "\<forall>y \<in> set ys. provenance_policy_source (lv_provenance (snd y)) < provenance_policy_source (lv_provenance w)"
    and le: "\<forall>z \<in> set zs. provenance_policy_source (lv_provenance (snd z)) \<le> provenance_policy_source (lv_provenance w)"
    by blast
  have "resolve (candidates_at entries p) = Some \<lparr>r_value = w, r_source = provenance_policy_source (lv_provenance w)\<rparr>"
    by (rule winner_unique
         [of _ "map (\<lambda>e. (provenance_policy_source (lv_provenance (snd e)), snd e)) ys" _ w
            "map (\<lambda>e. (provenance_policy_source (lv_provenance (snd e)), snd e)) zs"])
       (use f less le in \<open>auto simp: candidates_at_def\<close>)
  with e show ?L by (simp add: merge_get)
qed

definition demo_layer :: "nat \<Rightarrow> bool \<Rightarrow> bool layer_value" where
  "demo_layer rank v =
     \<lparr>lv_value = v,
      lv_provenance = \<lparr>pv_kind = DeviceSpecificOverride, pv_rank = rank, pv_policy_id = ''p'',
                       pv_source_name = ''p''\<rparr>,
      lv_classification = AutoRemediate\<rparr>"

lemmas demo_policy_simps = demo_layer_def provenance_policy_source_def policy_source_for_rank_def source_order
  effective_of_def USER_OVERRIDE_MIN_RANK_def

text \<open>
  The firewall example of the source's tests: the OS default and the organization say on, the
  user says off, and the organization's rank 2 entry decides.
\<close>

theorem merge_picks_first_highest_witness:
  "bt_get (merge [(''security.firewall'', demo_layer 6 True), (''security.firewall'', demo_layer 5 False),
                  (''security.firewall'', demo_layer 2 True)]) ''security.firewall''
     = Some (effective_of (demo_layer 2 True))"
  by (rule merge_picks_first_highest [THEN iffD2],
      rule exI [of _ "[(''security.firewall'', demo_layer 6 True), (''security.firewall'', demo_layer 5 False)]"],
      rule exI [of _ "demo_layer 2 True"], rule exI [of _ "[]"])
     (simp add: demo_policy_simps)

text \<open>
  A user may override the effective value of a path exactly when no layer above the User
  Preference rung has any opinion about it: the bit the IPC results carry agrees with the whole
  input, not only with the winner.
\<close>

lemma merge_override_iff_unpinned:
  assumes "bt_get (merge entries) p = Some e"
  shows "ee_user_override_permitted e \<longleftrightarrow>
    (\<forall>(q, lv) \<in> set entries. q = p \<longrightarrow> pv_rank (lv_provenance lv) \<ge> USER_OVERRIDE_MIN_RANK)"
proof -
  from assms obtain ys w zs where f: "filter (\<lambda>x. fst x = p) entries = ys @ (p, w) # zs"
    and e: "e = effective_of w"
    and less: "\<forall>y \<in> set ys. provenance_policy_source (lv_provenance (snd y)) < provenance_policy_source (lv_provenance w)"
    and le: "\<forall>z \<in> set zs. provenance_policy_source (lv_provenance (snd z)) \<le> provenance_policy_source (lv_provenance w)"
    by (rule merge_Some)
  have max: "provenance_policy_source (lv_provenance lv) \<le> provenance_policy_source (lv_provenance w)"
    if "(p, lv) \<in> set entries" for lv
  proof -
    have "(p, lv) \<in> set (ys @ (p, w) # zs)" using that by (simp flip: f)
    then show ?thesis using less le by fastforce
  qed
  have w: "(p, w) \<in> set entries"
    using f by (metis filter_is_subset in_set_conv_decomp subsetD)
  have "ee_user_override_permitted e \<longleftrightarrow> \<not> UserPreference < provenance_policy_source (lv_provenance w)"
    by (simp add: e effective_of_def provenance_policy_source_def above_user_iff not_less)
  also have "\<dots> \<longleftrightarrow>
      (\<forall>lv. (p, lv) \<in> set entries \<longrightarrow> \<not> UserPreference < provenance_policy_source (lv_provenance lv))"
    using w max by (meson less_le_trans)
  also have "\<dots> \<longleftrightarrow>
      (\<forall>(q, lv) \<in> set entries. q = p \<longrightarrow> pv_rank (lv_provenance lv) \<ge> USER_OVERRIDE_MIN_RANK)"
    by (auto simp: provenance_policy_source_def above_user_iff not_less)
  finally show ?thesis .
qed

end
