(* ===== verification/Ai_Policy.thy ===== *)
theory Ai_Policy
  imports Punar_Principal Punar_Policy
begin

text \<open>
  AI authority documents: the types and the evaluation of \<open>crates/punar-common/src/aipolicy.rs\<close> and
  the loader of \<open>crates/punard/src/aipolicy.rs\<close>. YAML and JSON parsing are the fields of
  \<open>ai_codec\<close>; a policy directory is the list of its drops in file-name order, each the texts of the
  envelope and of the document as far as they can be read. The lemmas show that a ruling is the
  best-ranked one among the layers that name the token, and that silence is no ruling.
\<close>

section \<open>Documents\<close>

datatype filesystem_access = FsReadWrite | FsRead | FsDeny

datatype credential_decision = CredAllow | CredDeny | CredRequest

fun credential_decision_str :: "credential_decision \<Rightarrow> string" where
  "credential_decision_str CredAllow = ''allow''"
| "credential_decision_str CredDeny = ''deny''"
| "credential_decision_str CredRequest = ''request''"

record agent_profile =
  ap_filesystem :: "(string, filesystem_access) btree_map"
  ap_host :: "(string, decision) btree_map"
  ap_network :: "(string, decision) btree_map"
  ap_credentials :: "(string, credential_decision) btree_map"

record ai_policy_document =
  doc_default :: agent_profile
  doc_named :: "(string, agent_profile) btree_map"

record ai_layer =
  al_policy_id :: string
  al_source_name :: string
  al_rank :: nat
  al_document :: ai_policy_document

record ai_ruling =
  ar_decision :: decision
  ar_token :: string
  ar_policy_id :: string
  ar_source_name :: string
  ar_rank :: nat

record credential_ruling =
  cr_decision :: credential_decision
  cr_policy_key :: string
  cr_policy_id :: string
  cr_source_name :: string
  cr_rank :: nat

section \<open>Evaluation\<close>

text \<open>\<open>AiAuthority\<close> is its layer list, sorted by rank and stable within a rank.\<close>

type_synonym ai_authority = "ai_layer list"

definition ai_authority_new :: "ai_layer list \<Rightarrow> ai_authority" where
  "ai_authority_new layers = sort_asc al_rank layers"

definition host_ruling :: "ai_authority \<Rightarrow> string \<Rightarrow> ai_ruling option" where
  "host_ruling layers token =
     first_Some (\<lambda>layer.
       map_option (\<lambda>d. \<lparr>ar_decision = d, ar_token = token, ar_policy_id = al_policy_id layer,
                        ar_source_name = al_source_name layer, ar_rank = al_rank layer\<rparr>)
         (bt_get (ap_host (doc_default (al_document layer))) token)) layers"

definition credential_ruling_for :: "ai_authority \<Rightarrow> string \<Rightarrow> credential_ruling option" where
  "credential_ruling_for layers policy_key =
     first_Some (\<lambda>layer.
       map_option (\<lambda>d. \<lparr>cr_decision = d, cr_policy_key = policy_key, cr_policy_id = al_policy_id layer,
                        cr_source_name = al_source_name layer, cr_rank = al_rank layer\<rparr>)
         (bt_get (ap_credentials (doc_default (al_document layer))) policy_key)) layers"

definition host_tokens :: "ai_authority \<Rightarrow> string list" where
  "host_tokens layers =
     foldl (\<lambda>tokens layer.
       foldl (\<lambda>ts token. if token \<in> set ts then ts else ts @ [token]) tokens
         (bt_keys (ap_host (doc_default (al_document layer))))) [] layers"

section \<open>Capabilities and tokens\<close>

definition HOST_TOKEN_BY_CAPABILITY :: "(string \<times> string) list" where
  "HOST_TOKEN_BY_CAPABILITY =
     [(''security.firewall'', ''firewall''), (''system.hostname'', ''hostname''),
      (''time.timezone'', ''timezone'')]"

definition host_token_for_capability :: "string \<Rightarrow> string option" where
  "host_token_for_capability capability =
     map_option snd (find (\<lambda>p. fst p = capability) HOST_TOKEN_BY_CAPABILITY)"

definition capability_for_host_token :: "string \<Rightarrow> string option" where
  "capability_for_host_token token =
     map_option fst (find (\<lambda>p. snd p = token) HOST_TOKEN_BY_CAPABILITY)"

definition is_inert_host_token :: "string \<Rightarrow> bool" where
  "is_inert_host_token token = (capability_for_host_token token = None)"

section \<open>The shipped document\<close>

text \<open>\<open>fixtures/policies/ai-policy-personal-defaults.yaml\<close>, compiled into the daemon.\<close>

definition personal_defaults_document :: ai_policy_document where
  "personal_defaults_document =
     \<lparr>doc_default =
        \<lparr>ap_filesystem = [(''aws'', FsDeny), (''home'', FsRead), (''ssh'', FsDeny),
                          (''workspace'', FsReadWrite)],
         ap_host = [(''firewall'', ApprovalRequired), (''hostname'', ApprovalRequired),
                    (''system_package'', ApprovalRequired), (''system_update'', Deny),
                    (''timezone'', ApprovalRequired), (''user_management'', Deny),
                    (''user_package'', ApprovalRequired)],
         ap_network = [(''corp_dev'', Allow), (''corp_prod'', Deny), (''internet'', Allow)],
         ap_credentials = [(''aws_dev'', CredRequest), (''aws_prod'', CredDeny), (''github'', CredAllow)]\<rparr>,
      doc_named = []\<rparr>"

definition PERSONAL_DEFAULTS_NAME :: string where
  "PERSONAL_DEFAULTS_NAME = ''Personal defaults''"

section \<open>The loader\<close>

record ai_source_envelope =
  se_policy_id :: string
  se_source_kind :: source_kind
  se_precedence_rank :: nat
  se_source_name :: "string option"

record ai_codec =
  parse_document :: "string \<Rightarrow> ai_policy_document option"
  parse_envelope :: "string \<Rightarrow> ai_source_envelope option"

record ai_drop =
  dr_envelope :: "string option"
  dr_document :: "string option"

definition personal_layer :: "'c ai_codec_scheme \<Rightarrow> string option \<Rightarrow> ai_layer" where
  "personal_layer K defaults_text =
     \<lparr>al_policy_id = POLICY_PERSONAL_DEFAULTS, al_source_name = PERSONAL_DEFAULTS_NAME,
      al_rank = the (fixed_rank OsSecureDefault),
      al_document =
        (case Option.bind defaults_text (parse_document K) of
           Some document \<Rightarrow> document
         | None \<Rightarrow> personal_defaults_document)\<rparr>"

definition rank_contradicted :: "source_kind \<Rightarrow> nat \<Rightarrow> bool" where
  "rank_contradicted kind rank =
     (case fixed_rank kind of None \<Rightarrow> False | Some fixed \<Rightarrow> fixed \<noteq> rank)"

text \<open>One drop: the layer it contributes, or nothing.\<close>

definition load_org_drop :: "'c ai_codec_scheme \<Rightarrow> ai_drop \<Rightarrow> ai_layer option" where
  "load_org_drop K d =
     (case dr_envelope d of
        None \<Rightarrow> None
      | Some envelope_text \<Rightarrow>
          (case parse_envelope K envelope_text of
             None \<Rightarrow> None
           | Some envelope \<Rightarrow>
               (if rank_contradicted (se_source_kind envelope) (se_precedence_rank envelope) then None
                else
                  (case dr_document d of
                     None \<Rightarrow> None
                   | Some text \<Rightarrow>
                       (case parse_document K text of
                          None \<Rightarrow> None
                        | Some document \<Rightarrow>
                            Some \<lparr>al_policy_id = se_policy_id envelope,
                                  al_source_name = unwrap_or (se_source_name envelope) (se_policy_id envelope),
                                  al_rank = se_precedence_rank envelope,
                                  al_document = document\<rparr>)))))"

definition load_org_layers :: "'c ai_codec_scheme \<Rightarrow> ai_drop list \<Rightarrow> ai_layer list" where
  "load_org_layers K drops = List.map_filter (load_org_drop K) drops"

text \<open>An unreadable directory (\<open>None\<close>) leaves the personal defaults alone.\<close>

definition load_authority ::
  "'c ai_codec_scheme \<Rightarrow> string option \<Rightarrow> ai_drop list option \<Rightarrow> ai_authority" where
  "load_authority K defaults_text policy_dir =
     ai_authority_new
       (personal_layer K defaults_text
          # (case policy_dir of Some drops \<Rightarrow> load_org_layers K drops | None \<Rightarrow> []))"

section \<open>Lemmas\<close>

lemma first_Some_map_option:
  "first_Some (\<lambda>x. map_option (g x) (h x)) xs =
     map_option (\<lambda>x. g x (the (h x))) (find (\<lambda>x. h x \<noteq> None) xs)"
  by (induction xs) (auto split: option.splits)

lemma fixed_rank_range: "fixed_rank k = Some n \<Longrightarrow> 1 \<le> n \<and> n \<le> 6"
  by (cases k) auto

section \<open>Properties\<close>

text \<open>
  A host ruling is that of the lowest-ranked layer naming the token, the first loaded among
  equals, and a token no layer names gets no ruling at all.
\<close>

lemma host_ruling_is_best_ranked:
  "host_ruling (ai_authority_new layers) token =
     (case first_min al_rank
             (filter (\<lambda>l. bt_get (ap_host (doc_default (al_document l))) token \<noteq> None) layers) of
        None \<Rightarrow> None
      | Some l \<Rightarrow>
          Some \<lparr>ar_decision = the (bt_get (ap_host (doc_default (al_document l))) token),
                ar_token = token, ar_policy_id = al_policy_id l, ar_source_name = al_source_name l,
                ar_rank = al_rank l\<rparr>)"
  unfolding host_ruling_def ai_authority_new_def first_Some_map_option find_sort_asc
  by (simp split: option.splits)

text \<open>
  The shipped authority never lets an agent change the host on its own: with no organization
  drop and no replacement file, every ruling on a host token is a denial or an approval, and the
  three tokens of real capabilities need an approval.
\<close>

lemma shipped_authority_never_allows:
  "(\<forall>r. host_ruling (load_authority K None (Some [])) token = Some r \<longrightarrow> ar_decision r \<noteq> Allow) \<and>
   (\<forall>cap token. host_token_for_capability cap = Some token \<longrightarrow>
      map_option ar_decision (host_ruling (load_authority K None (Some [])) token)
        = Some ApprovalRequired)"
proof -
  have "load_authority K None (Some []) = [personal_layer K None]"
    by (simp add: load_authority_def ai_authority_new_def sort_asc_def load_org_layers_def map_filter_simps)
  then show ?thesis
    by (auto simp: host_ruling_def personal_layer_def personal_defaults_document_def bt_get_def
        host_token_for_capability_def HOST_TOKEN_BY_CAPABILITY_def split: if_splits option.splits)
qed

end
