(* ===== verification/Credential_Policy.thy ===== *)
theory Credential_Policy
  imports Ai_Policy
begin

text \<open>
  The two files the credential broker reads before it listens: the class catalog of
  \<open>crates/punar-secrets/src/classes.rs\<close> and the AI authority documents of
  \<open>crates/punar-secrets/src/policy.rs\<close>, of which the broker keeps the \<open>credentials\<close> block. YAML and
  JSON parsing are the fields of \<open>cred_codec\<close>; the policy directory is the list of drops that
  \<open>Ai_Policy\<close> already uses for punard, in file-name order. The lemmas bound the lifetimes a validated
  catalog can give and show when the broker reaches the verdict punard reaches on the same files.
\<close>

section \<open>The class catalog\<close>

definition TTL_MIN_SECS :: nat where
  "TTL_MIN_SECS = 5"

definition TTL_MAX_SECS :: nat where
  "TTL_MAX_SECS = 3600"

definition PROVIDER_MOCK :: string where
  "PROVIDER_MOCK = ''mock''"

definition ATTESTATION_SIMULATED :: string where
  "ATTESTATION_SIMULATED = ''simulated''"

definition MAX_RESOURCE_CLASS_BYTES :: nat where
  "MAX_RESOURCE_CLASS_BYTES = 64"

record credential_class =
  cc_id :: string
  cc_display :: string
  cc_policy_key :: string
  cc_default_ttl :: nat
  cc_max_ttl :: nat
  cc_risk :: risk

definition effective_ttl :: "credential_class \<Rightarrow> nat option \<Rightarrow> nat" where
  "effective_ttl class requested =
     (let ttl = unwrap_or requested (cc_default_ttl class)
      in clamp (min TTL_MIN_SECS (cc_max_ttl class)) (cc_max_ttl class) ttl)"

definition issuable :: "credential_class \<Rightarrow> bool" where
  "issuable class = (cc_max_ttl class > 0)"

record class_catalog =
  cat_version :: nat
  cat_provider :: string
  cat_classes :: "credential_class list"

definition class_id_ok :: "string \<Rightarrow> bool" where
  "class_id_ok i =
     (i \<noteq> [] \<and> length i \<le> MAX_RESOURCE_CLASS_BYTES
      \<and> (case i of c # _ \<Rightarrow> is_ascii_lowercase c | [] \<Rightarrow> False)
      \<and> list_all (\<lambda>b. is_ascii_lowercase b \<or> is_ascii_digit b \<or> b = CHR ''-'') i)"

definition policy_key_ok :: "string \<Rightarrow> bool" where
  "policy_key_ok k =
     (k \<noteq> [] \<and> (case k of c # _ \<Rightarrow> is_ascii_lowercase c | [] \<Rightarrow> False)
      \<and> list_all (\<lambda>b. is_ascii_lowercase b \<or> is_ascii_digit b \<or> b = CHR ''_'') k)"

text \<open>Why a catalog is refused, by the message the code formats.\<close>

datatype catalog_error =
    UnsupportedVersion nat
  | UnknownProvider string
  | NoClasses
  | BadClassId string
  | BadPolicyKey string string
  | EmptyDisplay string
  | MaxTtlAboveCeiling string nat
  | MaxTtlBelowFloor string nat
  | DefaultTtlAboveMax string nat nat
  | DuplicateClassId string
  | DuplicatePolicyKey string

definition validate_class :: "credential_class \<Rightarrow> (catalog_error, unit) result" where
  "validate_class class =
     (if \<not> class_id_ok (cc_id class) then Err (BadClassId (cc_id class))
      else if \<not> policy_key_ok (cc_policy_key class) then Err (BadPolicyKey (cc_policy_key class) (cc_id class))
      else if blank (cc_display class) then Err (EmptyDisplay (cc_id class))
      else if cc_max_ttl class > TTL_MAX_SECS then Err (MaxTtlAboveCeiling (cc_id class) (cc_max_ttl class))
      else if cc_max_ttl class > 0 \<and> cc_max_ttl class < TTL_MIN_SECS
      then Err (MaxTtlBelowFloor (cc_id class) (cc_max_ttl class))
      else if cc_default_ttl class > cc_max_ttl class
      then Err (DefaultTtlAboveMax (cc_id class) (cc_default_ttl class) (cc_max_ttl class))
      else Ok ())"

fun validate_classes :: "credential_class list \<Rightarrow> (catalog_error, unit) result" where
  "validate_classes [] = Ok ()"
| "validate_classes (c # cs) = (case validate_class c of Err e \<Rightarrow> Err e | Ok _ \<Rightarrow> validate_classes cs)"

text \<open>The second loop: \<open>earlier\<close> is \<open>classes[..i]\<close>.\<close>

fun validate_distinct :: "credential_class list \<Rightarrow> credential_class list \<Rightarrow> (catalog_error, unit) result" where
  "validate_distinct earlier [] = Ok ()"
| "validate_distinct earlier (c # cs) =
     (if list_ex (\<lambda>d. cc_id d = cc_id c) earlier then Err (DuplicateClassId (cc_id c))
      else if list_ex (\<lambda>d. cc_policy_key d = cc_policy_key c) earlier
      then Err (DuplicatePolicyKey (cc_policy_key c))
      else validate_distinct (earlier @ [c]) cs)"

definition catalog_validate :: "class_catalog \<Rightarrow> (catalog_error, unit) result" where
  "catalog_validate cat =
     (if cat_version cat \<noteq> 1 then Err (UnsupportedVersion (cat_version cat))
      else if cat_provider cat \<noteq> PROVIDER_MOCK then Err (UnknownProvider (cat_provider cat))
      else if cat_classes cat = [] then Err NoClasses
      else (case validate_classes (cat_classes cat) of
              Err e \<Rightarrow> Err e
            | Ok _ \<Rightarrow> validate_distinct [] (cat_classes cat)))"

definition catalog_get :: "class_catalog \<Rightarrow> string \<Rightarrow> credential_class option" where
  "catalog_get cat i = find (\<lambda>class. cc_id class = i) (cat_classes cat)"

definition catalog_ids :: "class_catalog \<Rightarrow> string list" where
  "catalog_ids cat = map cc_id (cat_classes cat)"

section \<open>The credentials block\<close>

definition POLICY_FAIL_CLOSED :: string where
  "POLICY_FAIL_CLOSED = ''os-fail-closed''"

text \<open>The dash in the name is U+2014.\<close>

definition NO_POLICY_NAMES_IT :: string where
  "NO_POLICY_NAMES_IT =
     ''OS default '' @ [CHR 0xE2, CHR 0x80, CHR 0x94] @ '' no policy names this credential''"

datatype credential_grant = GrantAllow | GrantDeny | GrantRequest

fun credential_grant_str :: "credential_grant \<Rightarrow> string" where
  "credential_grant_str GrantAllow = ''allow''"
| "credential_grant_str GrantDeny = ''deny''"
| "credential_grant_str GrantRequest = ''request''"

fun grant_decision :: "credential_grant \<Rightarrow> decision" where
  "grant_decision GrantAllow = Allow"
| "grant_decision GrantDeny = Deny"
| "grant_decision GrantRequest = ApprovalRequired"

record credential_authority =
  ca_grant :: credential_grant
  ca_policy_id :: string
  ca_policy_name :: string
  ca_source :: policy_source
  ca_from_org :: bool
  ca_stated :: bool

definition fail_closed :: "string \<Rightarrow> string \<Rightarrow> credential_authority" where
  "fail_closed reason_name policy_id =
     \<lparr>ca_grant = GrantDeny, ca_policy_id = policy_id, ca_policy_name = reason_name,
      ca_source = OsDefault, ca_from_org = False, ca_stated = False\<rparr>"

record cred_layer =
  cl_credentials :: "(string, credential_grant) btree_map"
  cl_provenance :: provenance
  cl_from_org :: bool

text \<open>A warning is the position of the drop it is about and what was wrong with it.\<close>

datatype load_warning = DropIgnored nat | DropUnparsable nat | DropUnreadable nat

record ai_policy_set =
  ps_layers :: "cred_layer list"
  ps_broken :: "string list"
  ps_warnings :: "load_warning list"

definition policy_set_empty :: ai_policy_set where
  "policy_set_empty = \<lparr>ps_layers = [], ps_broken = [], ps_warnings = []\<rparr>"

record cred_codec =
  parse_credentials :: "string \<Rightarrow> (string, credential_grant) btree_map option"
  parse_cred_envelope :: "string \<Rightarrow> ai_source_envelope option"

definition read_envelope :: "'c cred_codec_scheme \<Rightarrow> string option \<Rightarrow> provenance option" where
  "read_envelope C envelope_text =
     (case Option.bind envelope_text (parse_cred_envelope C) of
        None \<Rightarrow> None
      | Some envelope \<Rightarrow>
          (if rank_contradicted (se_source_kind envelope) (se_precedence_rank envelope) then None
           else Some \<lparr>pv_kind = se_source_kind envelope, pv_rank = se_precedence_rank envelope,
                      pv_policy_id = se_policy_id envelope,
                      pv_source_name = unwrap_or (se_source_name envelope) (se_policy_id envelope)\<rparr>))"

definition load_cred_drop :: "'c cred_codec_scheme \<Rightarrow> nat \<times> ai_drop \<Rightarrow> ai_policy_set \<Rightarrow> ai_policy_set" where
  "load_cred_drop C e s =
     (case e of (i, d) \<Rightarrow>
        case read_envelope C (dr_envelope d) of
          None \<Rightarrow> s\<lparr>ps_warnings := ps_warnings s @ [DropIgnored i]\<rparr>
        | Some prov \<Rightarrow>
            (case dr_document d of
               None \<Rightarrow> s\<lparr>ps_broken := ps_broken s @ [pv_policy_id prov],
                         ps_warnings := ps_warnings s @ [DropUnreadable i]\<rparr>
             | Some text \<Rightarrow>
                 (case parse_credentials C text of
                    None \<Rightarrow> s\<lparr>ps_broken := ps_broken s @ [pv_policy_id prov],
                              ps_warnings := ps_warnings s @ [DropUnparsable i]\<rparr>
                  | Some credentials \<Rightarrow>
                      s\<lparr>ps_layers := ps_layers s @
                          [\<lparr>cl_credentials = credentials, cl_provenance = prov,
                            cl_from_org = pv_kind prov \<in> {OrganizationBaseline, OrganizationRolePolicy,
                                                           TemporaryApprovedException}\<rparr>]\<rparr>)))"

definition load_org_dir :: "'c cred_codec_scheme \<Rightarrow> ai_drop list option \<Rightarrow> ai_policy_set \<Rightarrow> ai_policy_set" where
  "load_org_dir C dir s =
     (case dir of None \<Rightarrow> s | Some drops \<Rightarrow> fold (load_cred_drop C) (List.enumerate 0 drops) s)"

definition defaults_layer :: "(string, credential_grant) btree_map \<Rightarrow> cred_layer" where
  "defaults_layer credentials =
     \<lparr>cl_credentials = credentials,
      cl_provenance = \<lparr>pv_kind = OsSecureDefault, pv_rank = unwrap_or (fixed_rank OsSecureDefault) 6,
                       pv_policy_id = POLICY_PERSONAL_DEFAULTS, pv_source_name = ''Personal defaults''\<rparr>,
      cl_from_org = False\<rparr>"

text \<open>\<open>None\<close>: the defaults document is missing or malformed, and the daemon does not start.\<close>

definition policy_set_load ::
  "'c cred_codec_scheme \<Rightarrow> string option \<Rightarrow> ai_drop list option \<Rightarrow> ai_policy_set option" where
  "policy_set_load C defaults_text dir =
     map_option (\<lambda>credentials. load_org_dir C dir
         \<lparr>ps_layers = [defaults_layer credentials], ps_broken = [], ps_warnings = []\<rparr>)
       (Option.bind defaults_text (parse_credentials C))"

definition enrolled :: "ai_policy_set \<Rightarrow> bool" where
  "enrolled s = list_ex cl_from_org (ps_layers s)"

definition cred_entries ::
  "cred_layer list \<Rightarrow> string \<Rightarrow> (policy_source \<times> (credential_grant \<times> cred_layer)) list" where
  "cred_entries layers policy_key =
     List.map_filter (\<lambda>layer.
       map_option (\<lambda>grant. (provenance_policy_source (cl_provenance layer), (grant, layer)))
         (bt_get (cl_credentials layer) policy_key)) layers"

definition credential_decision_for :: "ai_policy_set \<Rightarrow> string \<Rightarrow> credential_authority" where
  "credential_decision_for s policy_key =
     (case ps_broken s of
        broken # _ \<Rightarrow> fail_closed ''Unreadable policy layer'' broken
      | [] \<Rightarrow>
          (case resolve (cred_entries (ps_layers s) policy_key) of
             Some r \<Rightarrow>
               (case r_value r of (grant, layer) \<Rightarrow>
                  \<lparr>ca_grant = grant, ca_policy_id = pv_policy_id (cl_provenance layer),
                   ca_policy_name = pv_source_name (cl_provenance layer),
                   ca_source = policy_source_for_rank (pv_rank (cl_provenance layer)),
                   ca_from_org = cl_from_org layer, ca_stated = True\<rparr>)
           | None \<Rightarrow> fail_closed NO_POLICY_NAMES_IT POLICY_FAIL_CLOSED))"

section \<open>Lemmas on the catalog\<close>

lemma validate_classes_Ok: "validate_classes cs = Ok () \<longleftrightarrow> (\<forall>c \<in> set cs. validate_class c = Ok ())"
  by (induction cs) (auto split: sum.splits)

lemma validate_distinct_Ok:
  "validate_distinct earlier cs = Ok () \<Longrightarrow>
   distinct (map cc_id cs) \<and> distinct (map cc_policy_key cs) \<and>
   (\<forall>d \<in> set earlier. cc_id d \<notin> cc_id ` set cs \<and> cc_policy_key d \<notin> cc_policy_key ` set cs)"
  by (induction earlier cs rule: validate_distinct.induct) (auto simp: list_ex_iff split: if_splits)

lemma catalog_validate_Ok:
  assumes "catalog_validate cat = Ok ()"
  shows "\<forall>c \<in> set (cat_classes cat). validate_class c = Ok ()"
    and "distinct (map cc_id (cat_classes cat))" "distinct (map cc_policy_key (cat_classes cat))"
  using assms validate_distinct_Ok [of "[]" "cat_classes cat"]
  by (auto simp: catalog_validate_def validate_classes_Ok split: if_splits sum.splits)

lemma catalog_get_Some: "catalog_get cat i = Some c \<Longrightarrow> c \<in> set (cat_classes cat) \<and> cc_id c = i"
  by (auto simp: catalog_get_def find_Some_iff)

lemma validate_class_Ok:
  "validate_class c = Ok () \<Longrightarrow> class_id_ok (cc_id c) \<and> policy_key_ok (cc_policy_key c) \<and>
     cc_max_ttl c \<le> TTL_MAX_SECS \<and> (cc_max_ttl c = 0 \<or> TTL_MIN_SECS \<le> cc_max_ttl c) \<and>
     cc_default_ttl c \<le> cc_max_ttl c"
  by (auto simp: validate_class_def split: if_splits)

lemma effective_ttl_bounds:
  "effective_ttl c r \<le> cc_max_ttl c" "min TTL_MIN_SECS (cc_max_ttl c) \<le> effective_ttl c r"
  using clamp_bounds [of "min TTL_MIN_SECS (cc_max_ttl c)" "cc_max_ttl c"]
  by (simp_all add: effective_ttl_def Let_def)

section \<open>Lemmas on the two loaders\<close>

text \<open>punard's reading of a decision word, as the broker's.\<close>

fun grant_of_credential :: "credential_decision \<Rightarrow> credential_grant" where
  "grant_of_credential CredAllow = GrantAllow"
| "grant_of_credential CredDeny = GrantDeny"
| "grant_of_credential CredRequest = GrantRequest"

definition credentials_of :: "ai_policy_document \<Rightarrow> (string, credential_grant) btree_map" where
  "credentials_of doc = map (\<lambda>(k, d). (k, grant_of_credential d)) (ap_credentials (doc_default doc))"

lemma credentials_of_get:
  "bt_get (credentials_of doc) k = map_option grant_of_credential (bt_get (ap_credentials (doc_default doc)) k)"
  by (simp add: credentials_of_def bt_get_def map_of_map)

definition twin :: "cred_layer \<Rightarrow> ai_layer \<Rightarrow> bool" where
  "twin l al \<longleftrightarrow>
     pv_policy_id (cl_provenance l) = al_policy_id al \<and> pv_source_name (cl_provenance l) = al_source_name al \<and>
     pv_rank (cl_provenance l) = al_rank al \<and> 1 \<le> al_rank al \<and> al_rank al \<le> 6 \<and>
     cl_credentials l = credentials_of (al_document al)"

text \<open>
  A drop both daemons read alike: the envelope parses to the same fields or fails for both, and
  when it is accepted its rank is one of the ladder's six and the document parses for both.
\<close>

definition drop_agrees :: "'k ai_codec_scheme \<Rightarrow> 'c cred_codec_scheme \<Rightarrow> ai_drop \<Rightarrow> bool" where
  "drop_agrees KC C d \<longleftrightarrow>
     Option.bind (dr_envelope d) (parse_cred_envelope C) = Option.bind (dr_envelope d) (parse_envelope KC) \<and>
     (case read_envelope C (dr_envelope d) of
        None \<Rightarrow> True
      | Some prov \<Rightarrow> 1 \<le> pv_rank prov \<and> pv_rank prov \<le> 6 \<and>
          (case Option.bind (dr_document d) (parse_document KC) of
             None \<Rightarrow> False
           | Some doc \<Rightarrow> Option.bind (dr_document d) (parse_credentials C) = Some (credentials_of doc)))"

lemma drop_twins:
  assumes "drop_agrees KC C d" "list_all2 twin (ps_layers s) als"
  shows "list_all2 twin (ps_layers (load_cred_drop C (i, d) s))
           (als @ (case load_org_drop KC d of None \<Rightarrow> [] | Some al \<Rightarrow> [al]))"
    and "ps_broken (load_cred_drop C (i, d) s) = ps_broken s"
  using assms
  by (auto simp: drop_agrees_def load_cred_drop_def load_org_drop_def read_envelope_def twin_def
      bind_eq_Some_conv list_all2_appendI split: option.splits if_splits)

lemma load_twins:
  assumes "list_all (drop_agrees KC C) drops" "list_all2 twin (ps_layers s) als"
  shows "list_all2 twin (ps_layers (fold (load_cred_drop C) (List.enumerate n drops) s))
           (als @ load_org_layers KC drops) \<and>
         ps_broken (fold (load_cred_drop C) (List.enumerate n drops) s) = ps_broken s"
  using assms
proof (induction drops arbitrary: n s als)
  case (Cons d drops)
  have step: "list_all2 twin (ps_layers (load_cred_drop C (n, d) s))
        (als @ (case load_org_drop KC d of None \<Rightarrow> [] | Some al \<Rightarrow> [al]))"
    "ps_broken (load_cred_drop C (n, d) s) = ps_broken s"
    using Cons.prems drop_twins [of KC C d s als n] by simp_all
  have "load_org_layers KC (d # drops) =
      (case load_org_drop KC d of None \<Rightarrow> [] | Some al \<Rightarrow> [al]) @ load_org_layers KC drops"
    by (simp add: load_org_layers_def map_filter_simps split: option.splits)
  with Cons.IH [OF _ step(1), of "Suc n"] Cons.prems step(2) show ?case by simp
qed (simp add: load_org_layers_def map_filter_simps)

lemma cred_entries_simps:
  "cred_entries ls k = List.map_filter (\<lambda>layer.
     map_option (\<lambda>grant. (policy_source_for_rank (pv_rank (cl_provenance layer)), (grant, layer)))
       (bt_get (cl_credentials layer) k)) ls"
  by (simp add: cred_entries_def provenance_policy_source_def)

lemma map_filter_snoc:
  "List.map_filter f (xs @ [x]) = List.map_filter f xs @ (case f x of None \<Rightarrow> [] | Some y \<Rightarrow> [y])"
  by (induction xs) (simp_all add: map_filter_simps split: option.splits)

lemma resolve_twins:
  assumes "list_all2 twin ls als"
  shows "case first_min al_rank
             (filter (\<lambda>al. bt_get (ap_credentials (doc_default (al_document al))) k \<noteq> None) als) of
           None \<Rightarrow> resolve (cred_entries ls k) = None
         | Some al \<Rightarrow> \<exists>l. twin l al \<and> resolve (cred_entries ls k) =
             Some \<lparr>r_value = (grant_of_credential (the (bt_get (ap_credentials (doc_default (al_document al))) k)), l),
                   r_source = policy_source_for_rank (al_rank al)\<rparr>"
  using assms
proof (induction als arbitrary: ls rule: rev_induct)
  case (snoc al als)
  then obtain ls' l where ls: "ls = ls' @ [l]" and tw: "list_all2 twin ls' als" "twin l al"
    by (auto simp: list_all2_append2 list_all2_Cons2)
  have src: "policy_source_for_rank (al_rank b) < policy_source_for_rank (al_rank a) \<longleftrightarrow> al_rank a < al_rank b"
    if "twin x a" "twin y b" for x y a b
    using that rung_of_rank [of "al_rank a"] rung_of_rank [of "al_rank b"]
    by (auto simp: twin_def source_order)
  show ?case
    using snoc.IH [OF tw(1)] tw(2)
    by (auto simp: ls cred_entries_simps map_filter_snoc first_min_snoc resolve_snoc resolve_step_def
        credentials_of_get src not_le twin_def split: option.splits)
qed (simp add: cred_entries_simps map_filter_simps)

lemma broken_grows:
  "set (ps_broken s) \<subseteq> set (ps_broken (fold (load_cred_drop C) es s))"
proof (induction es arbitrary: s)
  case (Cons e es)
  have "set (ps_broken s) \<subseteq> set (ps_broken (load_cred_drop C e s))"
    by (auto simp: load_cred_drop_def split: prod.splits option.splits)
  with Cons [of "load_cred_drop C e s"] show ?case by auto
qed simp

lemma broken_drop:
  assumes "d \<in> set drops" "read_envelope C (dr_envelope d) = Some prov"
    and "Option.bind (dr_document d) (parse_credentials C) = None"
  shows "pv_policy_id prov \<in> set (ps_broken (fold (load_cred_drop C) (List.enumerate n drops) s))"
  using assms(1)
proof (induction drops arbitrary: n s)
  case (Cons e drops)
  show ?case
  proof (cases "e = d")
    case True
    then have "pv_policy_id prov \<in> set (ps_broken (load_cred_drop C (n, e) s))"
      using assms(2,3) by (auto simp: load_cred_drop_def bind_eq_None_conv split: option.splits)
    then show ?thesis using broken_grows by fastforce
  qed (use Cons in auto)
qed simp

section \<open>Properties\<close>

text \<open>
  What a catalog that passed validation can issue. A class name finds at most one class, no two
  classes share a policy key, and whatever lifetime a caller asks for, the one used is at most the
  class's maximum, which is at most an hour; it is at least five seconds, except for a class whose
  maximum is zero, whose lifetime is always zero.
\<close>

lemma validated_lifetimes_are_bounded:
  assumes "catalog_validate cat = Ok ()" "catalog_get cat i = Some c"
  shows "class_id_ok i \<and> effective_ttl c r \<le> cc_max_ttl c \<and> cc_max_ttl c \<le> 3600 \<and>
         (if issuable c then 5 \<le> effective_ttl c r else effective_ttl c r = 0) \<and>
         (\<forall>c' \<in> set (cat_classes cat). cc_id c' = i \<or> cc_policy_key c' = cc_policy_key c \<longrightarrow> c' = c)"
proof -
  have c: "c \<in> set (cat_classes cat)" "cc_id c = i" using catalog_get_Some [OF assms(2)] by simp_all
  then have v: "validate_class c = Ok ()" using catalog_validate_Ok [OF assms(1)] by blast
  have "inj_on cc_id (set (cat_classes cat))" "inj_on cc_policy_key (set (cat_classes cat))"
    using catalog_validate_Ok(2,3) [OF assms(1)] by (simp_all add: distinct_map)
  then have "\<forall>c' \<in> set (cat_classes cat). cc_id c' = i \<or> cc_policy_key c' = cc_policy_key c \<longrightarrow> c' = c"
    using c by (metis inj_on_contraD)
  moreover have "if issuable c then 5 \<le> effective_ttl c r else effective_ttl c r = 0"
    using validate_class_Ok [OF v] effective_ttl_bounds [of c r] by (auto simp: issuable_def TTL_MIN_SECS_def)
  ultimately show ?thesis
    using validate_class_Ok [OF v] c(2) effective_ttl_bounds(1) [of c r] by (simp only: TTL_MAX_SECS_def)
qed

text \<open>The catalog the image ships, \<open>crates/punar-secrets/share/classes.yaml\<close>.\<close>

definition shipped_catalog :: class_catalog where
  "shipped_catalog =
     \<lparr>cat_version = 1, cat_provider = ''mock'',
      cat_classes =
        [\<lparr>cc_id = ''github'', cc_display = ''GitHub (mock)'', cc_policy_key = ''github'',
          cc_default_ttl = 3600, cc_max_ttl = 3600, cc_risk = Low\<rparr>,
         \<lparr>cc_id = ''aws-dev'', cc_display = ''AWS development (mock)'', cc_policy_key = ''aws_dev'',
          cc_default_ttl = 3600, cc_max_ttl = 3600, cc_risk = Medium\<rparr>,
         \<lparr>cc_id = ''aws-prod'', cc_display = ''AWS production (mock)'', cc_policy_key = ''aws_prod'',
          cc_default_ttl = 0, cc_max_ttl = 0, cc_risk = High\<rparr>]\<rparr>"

lemma shipped_catalog_valid: "catalog_validate shipped_catalog = Ok ()"
  by code_simp

text \<open>
  C23. One organization document, one verdict. When both daemons can parse the defaults and every
  drop whose envelope they accept, and those envelopes claim ranks 1 to 6, the broker's decision on
  a credential key is the ruling punard computes from the same files, citing the same policy; and
  where punard has no ruling the broker denies.
\<close>

theorem broker_and_daemon_agree:
  assumes "parse_document KC text = Some doc" "parse_credentials C text = Some (credentials_of doc)"
    and "list_all (drop_agrees KC C) drops"
    and "policy_set_load C (Some text) (Some drops) = Some s"
  shows "case credential_ruling_for (load_authority KC (Some text) (Some drops)) key of
           Some r \<Rightarrow> ca_grant (credential_decision_for s key) = grant_of_credential (cr_decision r) \<and>
             ca_policy_id (credential_decision_for s key) = cr_policy_id r \<and>
             ca_policy_name (credential_decision_for s key) = cr_source_name r \<and>
             ca_stated (credential_decision_for s key)
         | None \<Rightarrow> credential_decision_for s key = fail_closed NO_POLICY_NAMES_IT POLICY_FAIL_CLOSED"
proof -
  let ?d = "defaults_layer (credentials_of doc)"
  let ?s0 = "\<lparr>ps_layers = [?d], ps_broken = [], ps_warnings = []\<rparr>"
  let ?als = "personal_layer KC (Some text) # load_org_layers KC drops"
  have s: "s = fold (load_cred_drop C) (List.enumerate 0 drops) ?s0"
    using assms(2,4) by (simp add: policy_set_load_def load_org_dir_def)
  have "list_all2 twin (ps_layers ?s0) [personal_layer KC (Some text)]"
    using assms(1) by (simp add: twin_def defaults_layer_def personal_layer_def PERSONAL_DEFAULTS_NAME_def)
  from load_twins [OF assms(3) this, of 0] have tw: "list_all2 twin (ps_layers s) ?als" and ok: "ps_broken s = []"
    by (simp_all add: s)
  have "credential_ruling_for (load_authority KC (Some text) (Some drops)) key =
      map_option (\<lambda>l. \<lparr>cr_decision = the (bt_get (ap_credentials (doc_default (al_document l))) key),
          cr_policy_key = key, cr_policy_id = al_policy_id l, cr_source_name = al_source_name l,
          cr_rank = al_rank l\<rparr>)
        (first_min al_rank (filter (\<lambda>l. bt_get (ap_credentials (doc_default (al_document l))) key \<noteq> None) ?als))"
    by (simp add: credential_ruling_for_def load_authority_def ai_authority_new_def first_Some_map_option
        find_sort_asc)
  with resolve_twins [OF tw, of key] ok show ?thesis
    by (auto simp: credential_decision_for_def twin_def split: option.splits)
qed

text \<open>A managed device: one organization baseline that forbids what the defaults put to a person.\<close>

definition demo_ai_envelope :: ai_source_envelope where
  "demo_ai_envelope = \<lparr>se_policy_id = ''eng-ai-v3'', se_source_kind = OrganizationBaseline,
     se_precedence_rank = 2, se_source_name = Some ''Engineering''\<rparr>"

definition demo_org_document :: ai_policy_document where
  "demo_org_document = personal_defaults_document
     \<lparr>doc_default := doc_default personal_defaults_document\<lparr>ap_credentials := [(''aws_dev'', CredDeny)]\<rparr>\<rparr>"

definition demo_ai_codec :: ai_codec where
  "demo_ai_codec = \<lparr>parse_document = (\<lambda>t. if t = ''org'' then Some demo_org_document
       else if t = ''defaults'' then Some personal_defaults_document else None),
     parse_envelope = (\<lambda>t. if t = ''env'' then Some demo_ai_envelope else None)\<rparr>"

definition demo_cred_codec :: cred_codec where
  "demo_cred_codec = \<lparr>parse_credentials = (\<lambda>t. map_option credentials_of (parse_document demo_ai_codec t)),
     parse_cred_envelope = parse_envelope demo_ai_codec\<rparr>"

definition demo_drop :: "string \<Rightarrow> ai_drop" where
  "demo_drop text = \<lparr>dr_envelope = Some ''env'', dr_document = Some text\<rparr>"

lemmas demo_codec_defs = demo_ai_codec_def demo_cred_codec_def demo_drop_def demo_ai_envelope_def
  drop_agrees_def read_envelope_def rank_contradicted_def

theorem broker_and_daemon_agree_witness:
  "\<exists>s. policy_set_load demo_cred_codec (Some ''defaults'') (Some [demo_drop ''org'']) = Some s \<and>
     ca_grant (credential_decision_for s ''aws_dev'') = GrantDeny \<and>
     ca_policy_id (credential_decision_for s ''aws_dev'') = ''eng-ai-v3'' \<and>
     ca_grant (credential_decision_for s ''github'') = GrantAllow"
proof -
  obtain s where s: "policy_set_load demo_cred_codec (Some ''defaults'') (Some [demo_drop ''org'']) = Some s"
    by (simp add: policy_set_load_def demo_codec_defs)
  have a: "list_all (drop_agrees demo_ai_codec demo_cred_codec) [demo_drop ''org'']"
    by (simp add: demo_codec_defs)
  have "credential_ruling_for (load_authority demo_ai_codec (Some ''defaults'') (Some [demo_drop ''org''])) ''aws_dev'' =
      Some \<lparr>cr_decision = CredDeny, cr_policy_key = ''aws_dev'', cr_policy_id = ''eng-ai-v3'',
            cr_source_name = ''Engineering'', cr_rank = 2\<rparr>"
    "credential_ruling_for (load_authority demo_ai_codec (Some ''defaults'') (Some [demo_drop ''org''])) ''github'' =
      Some \<lparr>cr_decision = CredAllow, cr_policy_key = ''github'', cr_policy_id = POLICY_PERSONAL_DEFAULTS,
            cr_source_name = PERSONAL_DEFAULTS_NAME, cr_rank = 6\<rparr>"
    by code_simp+
  with broker_and_daemon_agree [OF _ _ a s, of personal_defaults_document "''aws_dev''"]
    broker_and_daemon_agree [OF _ _ a s, of personal_defaults_document "''github''"] s
  show ?thesis by (simp add: demo_codec_defs)
qed

text \<open>
  C37. A damaged organization layer. A drop whose envelope is accepted and whose document the broker
  cannot read makes the broker deny every credential, whatever the other layers say; punard treats
  the same file as absent and keeps ruling from the remaining layers.
\<close>

theorem damaged_layer_splits_the_daemons:
  assumes "policy_set_load C (Some text) (Some (before @ d # after)) = Some s"
    and "read_envelope C (dr_envelope d) = Some prov"
    and "Option.bind (dr_document d) (parse_credentials C) = None"
    and "Option.bind (dr_document d) (parse_document KC) = None"
  shows "ca_grant (credential_decision_for s key) = GrantDeny \<and> \<not> ca_stated (credential_decision_for s key) \<and>
         load_authority KC (Some text) (Some (before @ d # after)) = load_authority KC (Some text) (Some (before @ after))"
proof -
  have "pv_policy_id prov \<in> set (ps_broken s)"
    using assms(1) broken_drop [OF _ assms(2,3), of "before @ d # after" 0]
    by (auto simp: policy_set_load_def load_org_dir_def)
  then have "ca_grant (credential_decision_for s key) = GrantDeny \<and> \<not> ca_stated (credential_decision_for s key)"
    by (cases "ps_broken s") (auto simp: credential_decision_for_def fail_closed_def)
  moreover have "load_org_drop KC d = None"
    using assms(4) by (auto simp: load_org_drop_def bind_eq_None_conv split: option.splits)
  then have "load_org_layers KC (before @ d # after) = load_org_layers KC (before @ after)"
    by (induction before) (simp_all add: load_org_layers_def map_filter_simps split: option.splits)
  ultimately show ?thesis by (simp add: load_authority_def)
qed

theorem damaged_layer_splits_the_daemons_witness:
  "\<exists>s. policy_set_load demo_cred_codec (Some ''defaults'') (Some [demo_drop ''torn'']) = Some s \<and>
     ca_grant (credential_decision_for s ''github'') = GrantDeny \<and>
     map_option cr_decision (credential_ruling_for
       (load_authority demo_ai_codec (Some ''defaults'') (Some [demo_drop ''torn''])) ''github'') = Some CredAllow"
proof -
  obtain s where s: "policy_set_load demo_cred_codec (Some ''defaults'') (Some ([] @ demo_drop ''torn'' # [])) = Some s"
    by (simp add: policy_set_load_def demo_codec_defs)
  have "\<exists>prov. read_envelope demo_cred_codec (dr_envelope (demo_drop ''torn'')) = Some prov"
    "Option.bind (dr_document (demo_drop ''torn'')) (parse_credentials demo_cred_codec) = None"
    "Option.bind (dr_document (demo_drop ''torn'')) (parse_document demo_ai_codec) = None"
    by (simp_all add: demo_codec_defs)
  moreover have "map_option cr_decision (credential_ruling_for
      (load_authority demo_ai_codec (Some ''defaults'') (Some [])) ''github'') = Some CredAllow"
    by code_simp
  ultimately show ?thesis
    using damaged_layer_splits_the_daemons [OF s, of _ demo_ai_codec "''github''"] s by auto
qed

end
