(* ===== verification/Token_Store.thy ===== *)
theory Token_Store
  imports Sha256 Credential_Policy
begin

text \<open>
  \<open>crates/punar-secrets/src/store.rs\<close>: the broker's in-memory map of issued tokens, which keeps the
  hash of a token and not the token. The store is its entry list; entropy is an argument of
  \<open>store_issue\<close>, \<open>None\<close> when \<open>getrandom\<close> failed. The lemmas follow one token from its issue to its
  expiry or revocation, bound the number of entries and show that distinct random bytes or distinct
  classes give distinct tokens.
\<close>

section \<open>Records\<close>

definition TOKEN_PREFIX :: string where
  "TOKEN_PREFIX = ''punar-mock-''"

definition TOKEN_ENTROPY_BYTES :: nat where
  "TOKEN_ENTROPY_BYTES = 32"

definition MAX_LIVE_TOKENS :: nat where
  "MAX_LIVE_TOKENS = 128"

record issued_record =
  ir_token_sha256 :: string
  ir_credential :: string
  ir_owner_uid :: nat
  ir_agent_session_id :: "string option"
  ir_issued_at :: string
  ir_expires_at :: string
  ir_expires_at_unix :: nat
  ir_revoked :: bool

definition ir_is_expired :: "issued_record \<Rightarrow> nat \<Rightarrow> bool" where
  "ir_is_expired r now = (now \<ge> ir_expires_at_unix r)"

definition remaining_secs :: "issued_record \<Rightarrow> nat \<Rightarrow> nat" where
  "remaining_secs r now = ir_expires_at_unix r - now"

datatype presented = PValid issued_record | PExpired issued_record | PUnknown

datatype issue_error = Flood | NotIssuable | NoEntropy

type_synonym token_entries = "issued_record list"

definition store_live :: "token_entries \<Rightarrow> nat \<Rightarrow> nat" where
  "store_live entries now = length (filter (\<lambda>e. \<not> ir_is_expired e now) entries)"

section \<open>Token text\<close>

definition BASE64_ALPHABET :: string where
  "BASE64_ALPHABET = ''ABCDEFGHIJKLMNOPQRSTUVWXYZabcdefghijklmnopqrstuvwxyz0123456789-_''"

fun chunks :: "nat \<Rightarrow> 'a list \<Rightarrow> 'a list list" where
  "chunks n xs = (if n = 0 \<or> xs = [] then [] else take n xs # chunks n (drop n xs))"

declare chunks.simps [simp del]

definition byte_at :: "byte8 list \<Rightarrow> nat \<Rightarrow> u32" where
  "byte_at chunk i = (if i < length chunk then ucast (chunk ! i) else 0)"

definition base64_triple :: "byte8 list \<Rightarrow> u32" where
  "base64_triple chunk =
     push_bit 16 (byte_at chunk 0) OR push_bit 8 (byte_at chunk 1) OR byte_at chunk 2"

definition base64_chunk :: "byte8 list \<Rightarrow> string" where
  "base64_chunk chunk =
     (let triple = base64_triple chunk;
          indices = [drop_bit 18 triple AND 0x3f, drop_bit 12 triple AND 0x3f,
                     drop_bit 6 triple AND 0x3f, triple AND 0x3f]
      in map (\<lambda>i. BASE64_ALPHABET ! unat i) (take (length chunk + 1) indices))"

definition base64url :: "byte8 list \<Rightarrow> string" where
  "base64url bytes = concat (map base64_chunk (chunks 3 bytes))"

definition token_text :: "string \<Rightarrow> byte8 list \<Rightarrow> string" where
  "token_text class_id bytes = TOKEN_PREFIX @ class_id @ ''-'' @ base64url bytes"

section \<open>The store\<close>

definition issued_record_of ::
  "credential_class \<Rightarrow> string \<Rightarrow> nat \<Rightarrow> nat \<Rightarrow> string option \<Rightarrow> nat \<Rightarrow> issued_record" where
  "issued_record_of class token ttl_secs owner_uid session now =
     \<lparr>ir_token_sha256 = sha256_hex token, ir_credential = cc_id class, ir_owner_uid = owner_uid,
      ir_agent_session_id = session, ir_issued_at = rfc3339_utc_from_unix_seconds now,
      ir_expires_at = rfc3339_utc_from_unix_seconds (sat_add now ttl_secs),
      ir_expires_at_unix = sat_add now ttl_secs, ir_revoked = False\<rparr>"

definition reclaim :: "nat \<Rightarrow> nat \<Rightarrow> token_entries \<Rightarrow> token_entries" where
  "reclaim max_live now entries =
     (if length entries \<ge> max_live then filter (\<lambda>e. \<not> ir_is_expired e now) entries else entries)"

definition store_issue ::
  "nat \<Rightarrow> byte8 list option \<Rightarrow> credential_class \<Rightarrow> nat \<Rightarrow> nat \<Rightarrow> string option \<Rightarrow> nat \<Rightarrow> token_entries
   \<Rightarrow> (issue_error, string \<times> issued_record) result \<times> token_entries" where
  "store_issue max_live fill class ttl_secs owner_uid session now entries =
     (if \<not> issuable class \<or> ttl_secs = 0 then (Err NotIssuable, entries)
      else (let kept = reclaim max_live now entries
            in if length kept \<ge> max_live then (Err Flood, kept)
               else (case fill of
                       None \<Rightarrow> (Err NoEntropy, kept)
                     | Some bytes \<Rightarrow>
                         (let token = token_text (cc_id class) bytes;
                              r = issued_record_of class token ttl_secs owner_uid session now
                          in (Ok (token, r), kept @ [r])))))"

fun position :: "('a \<Rightarrow> bool) \<Rightarrow> 'a list \<Rightarrow> nat option" where
  "position P [] = None"
| "position P (x # xs) = (if P x then Some 0 else map_option Suc (position P xs))"

definition remove_at :: "nat \<Rightarrow> 'a list \<Rightarrow> 'a list" where
  "remove_at i xs = take i xs @ drop (Suc i) xs"

definition store_present ::
  "string \<Rightarrow> string option \<Rightarrow> nat \<Rightarrow> token_entries \<Rightarrow> presented \<times> token_entries" where
  "store_present token expect_class now entries =
     (case position (\<lambda>e. ir_token_sha256 e = sha256_hex token) entries of
        None \<Rightarrow> (PUnknown, entries)
      | Some i \<Rightarrow>
          if (case expect_class of Some c \<Rightarrow> c \<noteq> ir_credential (entries ! i) | None \<Rightarrow> False)
          then (PUnknown, entries)
          else if ir_is_expired (entries ! i) now then (PExpired (entries ! i), remove_at i entries)
          else (PValid (entries ! i), entries))"

definition store_revoke :: "string \<Rightarrow> token_entries \<Rightarrow> issued_record option \<times> token_entries" where
  "store_revoke token entries =
     (case position (\<lambda>e. ir_token_sha256 e = sha256_hex token) entries of
        None \<Rightarrow> (None, entries)
      | Some i \<Rightarrow> (Some ((entries ! i)\<lparr>ir_revoked := True\<rparr>), remove_at i entries))"

section \<open>Lemmas on the text of a token\<close>

lemma chunks_Cons3: "0 < n \<Longrightarrow> xs \<noteq> [] \<Longrightarrow> chunks n xs = take n xs # chunks n (drop n xs)"
  by (simp add: chunks.simps [of n xs])

lemma base64_index_bit: "bit (drop_bit n x AND 0x3f :: u32) k \<longleftrightarrow> k < 6 \<and> bit x (n + k)"
proof -
  have m: "(0x3f :: u32) = mask 6" by (simp add: mask_eq_exp_minus_1)
  show ?thesis unfolding m by (auto simp: bit_and_iff bit_mask_iff bit_drop_bit_eq dest: bit_imp_le_length)
qed

lemma base64_triple_bit:
  "k < 8 \<Longrightarrow> bit (base64_triple chunk) (16 + k) \<longleftrightarrow> 0 < length chunk \<and> bit (chunk ! 0) k"
  "k < 8 \<Longrightarrow> bit (base64_triple chunk) (8 + k) \<longleftrightarrow> 1 < length chunk \<and> bit (chunk ! 1) k"
  "k < 8 \<Longrightarrow> bit (base64_triple chunk) k \<longleftrightarrow> 2 < length chunk \<and> bit (chunk ! 2) k"
  by (auto simp: base64_triple_def byte_at_def bit_simps dest: bit_imp_le_length)

lemma alphabet_inject:
  assumes "BASE64_ALPHABET ! unat (x AND 0x3f :: u32) = BASE64_ALPHABET ! unat (y AND 0x3f :: u32)"
  shows "x AND 0x3f = y AND 0x3f"
proof -
  have lt: "unat (z AND 0x3f :: u32) < length BASE64_ALPHABET" for z
  proof -
    have "z AND 0x3f \<le> (0x3f :: u32)" by (rule word_and_le1)
    then show ?thesis by (simp add: word_le_nat_alt BASE64_ALPHABET_def)
  qed
  have "distinct BASE64_ALPHABET" by code_simp
  with assms lt have "unat (x AND 0x3f) = unat (y AND 0x3f)" by (simp add: nth_eq_iff_index_eq)
  then show ?thesis by (simp add: word_unat_eq_iff)
qed

lemma base64_chunk_nth:
  assumes "j \<le> length chunk" "length chunk \<le> 3"
  shows "base64_chunk chunk ! j = BASE64_ALPHABET ! unat (drop_bit (18 - 6 * j) (base64_triple chunk) AND 0x3f)"
proof -
  let ?is = "[drop_bit 18 (base64_triple chunk) AND 0x3f, drop_bit 12 (base64_triple chunk) AND 0x3f,
      drop_bit 6 (base64_triple chunk) AND 0x3f, base64_triple chunk AND 0x3f]"
  have "base64_chunk chunk ! j = BASE64_ALPHABET ! unat (?is ! j)"
    using assms by (simp add: base64_chunk_def Let_def del: take_Suc_Cons)
  moreover have "?is ! j = drop_bit (18 - 6 * j) (base64_triple chunk) AND 0x3f"
  proof -
    consider "j = 0" | "j = 1" | "j = 2" | "j = 3" using assms by linarith
    then show ?thesis by cases simp_all
  qed
  ultimately show ?thesis by simp
qed

lemma base64_chunk_bits:
  assumes "length xs = length ys" "base64_chunk xs = base64_chunk ys" "length xs \<le> 3"
    and "18 - 6 * length xs \<le> k" "k < 24"
  shows "bit (base64_triple xs) k = bit (base64_triple ys) k"
proof -
  define j where "j = (23 - k) div 6"
  have j: "j \<le> length xs" "j < 4" "18 - 6 * j \<le> k" "k < 24 - 6 * j"
    using assms(3-5) by (auto simp: j_def)
  have "base64_chunk xs ! j = base64_chunk ys ! j" using assms(2) by simp
  then have "drop_bit (18 - 6 * j) (base64_triple xs) AND 0x3f = drop_bit (18 - 6 * j) (base64_triple ys) AND 0x3f"
    using j(1) assms(1,3) by (intro alphabet_inject) (simp add: base64_chunk_nth)
  then have "bit (drop_bit (18 - 6 * j) (base64_triple xs) AND 0x3f) (k - (18 - 6 * j)) =
      bit (drop_bit (18 - 6 * j) (base64_triple ys) AND 0x3f) (k - (18 - 6 * j))" by simp
  moreover have "k + 6 * j - 18 < 6" using j by linarith
  ultimately show ?thesis using j by (simp add: base64_index_bit)
qed

lemma base64_chunk_inject:
  assumes "length xs = length ys" "base64_chunk xs = base64_chunk ys" "length xs \<le> 3"
  shows "xs = ys"
proof (rule nth_equalityI)
  fix i
  assume i: "i < length xs"
  note eq = base64_chunk_bits [OF assms]
  have "bit (xs ! i) k = bit (ys ! i) k" if k: "k < 8" for k
  proof -
    consider "i = 0" "18 - 6 * length xs \<le> 16 + k" | "i = 1" "18 - 6 * length xs \<le> 8 + k"
      | "i = 2" "18 - 6 * length xs \<le> k" using i assms(3) by linarith
    then show ?thesis
      using eq [of "16 + k"] eq [of "8 + k"] eq [of k] i k assms(1) by cases (simp_all add: base64_triple_bit)
  qed
  then show "xs ! i = ys ! i" by (intro bit_eqI) (auto dest: bit_imp_le_length)
qed (rule assms(1))

lemma length_base64_chunk: "length xs \<le> 3 \<Longrightarrow> length (base64_chunk xs) = Suc (length xs)"
  by (simp add: base64_chunk_def Let_def)

lemma base64url_step: "xs \<noteq> [] \<Longrightarrow> base64url xs = base64_chunk (take 3 xs) @ base64url (drop 3 xs)"
  by (simp add: base64url_def chunks_Cons3)

lemma base64url_inject:
  "length xs = length ys \<Longrightarrow> base64url xs = base64url ys \<Longrightarrow> xs = ys"
proof (induction xs arbitrary: ys rule: measure_induct_rule [of length])
  case (less xs)
  show ?case
  proof (cases "xs = []")
    case False
    then have ne: "xs \<noteq> []" "ys \<noteq> []" using less.prems by auto
    have l: "length (base64_chunk (take 3 xs)) = length (base64_chunk (take 3 ys))"
      using less.prems by (simp add: length_base64_chunk)
    have "base64_chunk (take 3 xs) @ base64url (drop 3 xs) = base64_chunk (take 3 ys) @ base64url (drop 3 ys)"
      using less.prems(2) by (simp add: base64url_step ne)
    then have "base64_chunk (take 3 xs) = base64_chunk (take 3 ys)" "base64url (drop 3 xs) = base64url (drop 3 ys)"
      using append_eq_append_conv [of "base64_chunk (take 3 xs)"] l by auto
    moreover from this(1) have "take 3 xs = take 3 ys"
      by (intro base64_chunk_inject) (use less.prems in auto)
    moreover have "drop 3 xs = drop 3 ys"
      by (rule less.IH) (use ne less.prems(1) calculation in auto)
    ultimately show ?thesis by (metis append_take_drop_id)
  qed (use less.prems in auto)
qed

lemma length_base64url: "length xs = length ys \<Longrightarrow> length (base64url xs) = length (base64url ys)"
proof (induction xs arbitrary: ys rule: measure_induct_rule [of length])
  case (less xs)
  show ?case
  proof (cases "xs = []")
    case False
    then have ne: "xs \<noteq> []" "ys \<noteq> []" using less.prems by auto
    then have "length (base64url (drop 3 xs)) = length (base64url (drop 3 ys))"
      using less.prems by (intro less.IH) auto
    with ne less.prems show ?thesis by (simp add: base64url_step length_base64_chunk)
  qed (use less.prems in auto)
qed

lemma token_text_inject:
  assumes "length bs = length bs'" "token_text c bs = token_text c' bs'"
  shows "c = c' \<and> bs = bs'"
proof -
  have "c @ ''-'' @ base64url bs = c' @ ''-'' @ base64url bs'" using assms(2) by (simp add: token_text_def)
  then have "(c @ ''-'') @ base64url bs = (c' @ ''-'') @ base64url bs'" by simp
  then have "c @ ''-'' = c' @ ''-''" "base64url bs = base64url bs'"
    using append_eq_append_conv [of "c @ ''-''" "c' @ ''-''" "base64url bs" "base64url bs'"]
      length_base64url [OF assms(1)] by simp_all
  with base64url_inject [OF assms(1)] show ?thesis by simp
qed

section \<open>Lemmas on the store\<close>

lemma position_None: "position P xs = None \<longleftrightarrow> (\<forall>x \<in> set xs. \<not> P x)"
  by (induction xs) auto

lemma position_Some: "position P xs = Some i \<Longrightarrow> i < length xs \<and> P (xs ! i) \<and> (\<forall>j < i. \<not> P (xs ! j))"
  by (induction xs arbitrary: i) (auto split: if_splits simp: nth_Cons split: nat.splits)

lemma position_fresh: "\<forall>x \<in> set xs. \<not> P x \<Longrightarrow> P y \<Longrightarrow> position P (xs @ [y]) = Some (length xs)"
  by (induction xs) auto

lemma remove_at_last [simp]: "remove_at (length xs) (xs @ [y]) = xs"
  by (simp add: remove_at_def)

lemma length_remove_at: "i < length xs \<Longrightarrow> length (remove_at i xs) = length xs - 1"
  by (simp add: remove_at_def)

lemma set_remove_at: "set (remove_at i xs) \<subseteq> set xs"
  by (auto simp: remove_at_def dest: in_set_takeD in_set_dropD)

lemma reclaim_subset: "set (reclaim max_live now es) \<subseteq> set es" "length (reclaim max_live now es) \<le> length es"
  by (auto simp: reclaim_def)

lemma store_issue_Ok:
  assumes "store_issue max_live fill c ttl uid session now es = (Ok (token, r), es')"
  obtains bytes where "fill = Some bytes" "token = token_text (cc_id c) bytes" "issuable c" "0 < ttl"
    "r = issued_record_of c token ttl uid session now" "es' = reclaim max_live now es @ [r]"
    "length (reclaim max_live now es) < max_live"
  using assms by (auto simp: store_issue_def Let_def split: if_splits option.splits)

text \<open>
  What every entry is: of a class of the catalog that can be issued, known only by the 64 hexadecimal
  digits of a hash, not revoked, with its expiry written the same way twice. A store holds at most
  \<open>MAX_LIVE_TOKENS\<close> of them.
\<close>

definition entry_typed :: "class_catalog \<Rightarrow> issued_record \<Rightarrow> bool" where
  "entry_typed cat r \<longleftrightarrow>
     (\<exists>c \<in> set (cat_classes cat). ir_credential r = cc_id c \<and> issuable c) \<and>
     length (ir_token_sha256 r) = 64 \<and> list_all lower_hex (ir_token_sha256 r) \<and> \<not> ir_revoked r \<and>
     ir_expires_at_unix r \<le> u64_max \<and> ir_expires_at r = rfc3339_utc_from_unix_seconds (ir_expires_at_unix r)"

definition store_typed :: "class_catalog \<Rightarrow> token_entries \<Rightarrow> bool" where
  "store_typed cat es \<longleftrightarrow> length es \<le> MAX_LIVE_TOKENS \<and> list_all (entry_typed cat) es"

lemma store_typed_subset:
  "store_typed cat es \<Longrightarrow> set es' \<subseteq> set es \<Longrightarrow> length es' \<le> length es \<Longrightarrow> store_typed cat es'"
  by (auto simp: store_typed_def list_all_iff)

lemma store_typed_issue:
  assumes "store_typed cat es" "c \<in> set (cat_classes cat)"
  shows "store_typed cat (snd (store_issue MAX_LIVE_TOKENS fill c ttl uid session now es))"
proof -
  have k: "store_typed cat (reclaim MAX_LIVE_TOKENS now es)"
    using assms(1) reclaim_subset by (rule store_typed_subset)
  moreover have "issuable c \<Longrightarrow> entry_typed cat (issued_record_of c token ttl uid session now)" for token
    using assms(2) sha256_hex_shape [of token]
    by (auto simp: entry_typed_def issued_record_of_def sat_add_def)
  ultimately show ?thesis
    using assms(1) by (auto simp: store_issue_def store_typed_def Let_def split: option.split)
qed

lemma store_typed_ops:
  assumes "store_typed cat es"
  shows "store_typed cat (snd (store_present token expect now es))" "store_typed cat (snd (store_revoke token es))"
proof -
  have "store_typed cat (remove_at i es)" for i
    using assms set_remove_at [of i es] by (rule store_typed_subset) (simp add: remove_at_def)
  then show "store_typed cat (snd (store_present token expect now es))" "store_typed cat (snd (store_revoke token es))"
    using assms by (auto simp: store_present_def store_revoke_def split: option.splits)
qed

section \<open>Properties\<close>

text \<open>
  The life of one token. While no other entry has its hash, the token a successful issue returns
  is valid, for its own class only, at every moment before the expiry it was issued with; at that
  moment and later, presenting it reports the expiry once and forgets it; revoking it forgets it
  at once; and a forgotten token is unknown from then on. Nothing else in the store changes.
\<close>

theorem token_lives_until_it_expires:
  assumes "store_issue max_live fill c ttl uid session now es = (Ok (token, r), es')"
    and "\<forall>e \<in> set es. ir_token_sha256 e \<noteq> sha256_hex token"
    and "now + ttl \<le> u64_max"
  shows "ir_credential r = cc_id c \<and> ir_expires_at_unix r = now + ttl \<and>
         (\<forall>t < now + ttl. \<forall>cls. store_present token cls t es' =
            (if cls = None \<or> cls = Some (cc_id c) then PValid r else PUnknown, es')) \<and>
         (\<forall>t \<ge> now + ttl. store_present token None t es' = (PExpired r, reclaim max_live now es)) \<and>
         store_revoke token es' = (Some (r\<lparr>ir_revoked := True\<rparr>), reclaim max_live now es) \<and>
         (\<forall>cls t. store_present token cls t (reclaim max_live now es) = (PUnknown, reclaim max_live now es))"
proof -
  obtain bytes where "fill = Some bytes" and r: "r = issued_record_of c token ttl uid session now"
    and es': "es' = reclaim max_live now es @ [r]"
    using assms(1) by (rule store_issue_Ok)
  have x: "ir_token_sha256 r = sha256_hex token" "ir_credential r = cc_id c" "ir_expires_at_unix r = now + ttl"
    using assms(3) by (simp_all add: r issued_record_of_def sat_add_exact)
  have fresh: "\<forall>e \<in> set (reclaim max_live now es). \<not> ir_token_sha256 e = sha256_hex token"
    using assms(2) reclaim_subset(1) [of max_live now es] by auto
  then have "position (\<lambda>e. ir_token_sha256 e = sha256_hex token) es' = Some (length (reclaim max_live now es))"
    unfolding es' using x(1) by (intro position_fresh) simp_all
  moreover have "position (\<lambda>e. ir_token_sha256 e = sha256_hex token) (reclaim max_live now es) = None"
    using fresh by (simp add: position_None)
  ultimately show ?thesis
    by (auto simp: store_present_def store_revoke_def es' x ir_is_expired_def split: option.splits)
qed

text \<open>A class for the witnesses.\<close>

definition demo_class :: credential_class where
  "demo_class = \<lparr>cc_id = ''aws-dev'', cc_display = ''AWS development (mock)'', cc_policy_key = ''aws_dev'',
     cc_default_ttl = 3600, cc_max_ttl = 3600, cc_risk = Medium\<rparr>"

theorem token_lives_until_it_expires_witness:
  "\<exists>token r es'. store_issue 128 (Some (replicate 32 7)) demo_class 60 1000 None 500 [] = (Ok (token, r), es') \<and>
     fst (store_present token None 559 es') = PValid r \<and> fst (store_present token None 560 es') = PExpired r \<and>
     fst (store_present token (Some ''github'') 559 es') = PUnknown"
proof -
  obtain token r es' where i: "store_issue 128 (Some (replicate 32 7)) demo_class 60 1000 None 500 [] = (Ok (token, r), es')"
    by (simp add: store_issue_def issuable_def demo_class_def reclaim_def Let_def)
  have "(500 :: nat) + 60 \<le> u64_max" by (simp add: u64_max_def)
  from token_lives_until_it_expires [OF i _ this] show ?thesis
    using i by (intro exI [of _ token] exI [of _ r] exI [of _ es']) (simp add: demo_class_def)
qed

text \<open>
  Tokens do not collide. Two tokens the store can issue have the same text only when they are of
  the same class and were made from the same 32 random bytes.
\<close>

lemma tokens_are_distinct:
  assumes "store_issue m (Some bytes) c ttl uid session now es = (Ok (token, r), es1)"
    and "store_issue m' (Some bytes') c' ttl' uid' session' now' es' = (Ok (token', r'), es1')"
    and "length bytes = TOKEN_ENTROPY_BYTES" "length bytes' = TOKEN_ENTROPY_BYTES"
  shows "token = token' \<longleftrightarrow> cc_id c = cc_id c' \<and> bytes = bytes'"
proof -
  have "token = token_text (cc_id c) bytes" "token' = token_text (cc_id c') bytes'"
    using assms(1,2) by (auto elim!: store_issue_Ok)
  then show ?thesis using token_text_inject [of bytes bytes' "cc_id c" "cc_id c'"] assms(3,4) by auto
qed

end
