(* ===== verification/Punar_Approval.thy ===== *)
theory Punar_Approval
  imports Punar_Principal
begin

text \<open>
  The approval and grant records of \<open>crates/punar-common/src/approval.rs\<close>, their validation and
  the clamps on requester-supplied durations. A record is \<open>answerable\<close> while it is pending and its
  expiry parses to a later instant; a grant is \<open>live\<close> on the same terms. The lemmas bound what a
  requester can obtain and show that whatever cannot be parsed authorizes nothing.
\<close>

section \<open>Constants\<close>

definition APPROVAL_ID_PREFIX :: string where
  "APPROVAL_ID_PREFIX = ''apr_''"

definition GRANT_ID_PREFIX :: string where
  "GRANT_ID_PREFIX = ''gnt_''"

definition APPROVAL_TTL_DEFAULT_SECS :: nat where
  "APPROVAL_TTL_DEFAULT_SECS = 300"

definition APPROVAL_TTL_MIN_SECS :: nat where
  "APPROVAL_TTL_MIN_SECS = 15"

definition APPROVAL_TTL_MAX_SECS :: nat where
  "APPROVAL_TTL_MAX_SECS = APPROVAL_TTL_DEFAULT_SECS"

definition MAX_PENDING_APPROVALS :: nat where
  "MAX_PENDING_APPROVALS = 8"

definition MAX_PENDING_PER_REQUESTER :: nat where
  "MAX_PENDING_PER_REQUESTER = 2"

definition MAX_APPROVAL_RECORDS :: nat where
  "MAX_APPROVAL_RECORDS = 200"

definition APPROVAL_RECORD_MAX_BYTES :: nat where
  "APPROVAL_RECORD_MAX_BYTES = 4096"

definition RESULT_APPROVAL_FLOOD :: string where
  "RESULT_APPROVAL_FLOOD = ''approval_flood''"

definition RESULT_SELF_APPROVAL_REFUSED :: string where
  "RESULT_SELF_APPROVAL_REFUSED = ''self_approval_refused''"

definition RESULT_AGENT_PRIVILEGE_REFUSED :: string where
  "RESULT_AGENT_PRIVILEGE_REFUSED = ''agent_privilege_refused''"

definition RESULT_AGENT_CREATE_REFUSED :: string where
  "RESULT_AGENT_CREATE_REFUSED = ''agent_create_refused''"

definition REASON_MAX_BYTES :: nat where
  "REASON_MAX_BYTES = 512"

definition GRANT_DEFAULT_MINUTES :: nat where
  "GRANT_DEFAULT_MINUTES = 15"

definition GRANT_MIN_MINUTES :: nat where
  "GRANT_MIN_MINUTES = 1"

definition GRANT_MAX_MINUTES :: nat where
  "GRANT_MAX_MINUTES = 60"

section \<open>Records\<close>

datatype approval_status = Pending | Approved | Denied | Expired

fun approval_status_str :: "approval_status \<Rightarrow> string" where
  "approval_status_str Pending = ''pending''"
| "approval_status_str Approved = ''approved''"
| "approval_status_str Denied = ''denied''"
| "approval_status_str Expired = ''expired''"

definition is_terminal :: "approval_status \<Rightarrow> bool" where
  "is_terminal s = (s \<noteq> Pending)"

record requester =
  rq_kind :: principal_kind
  rq_id :: string

record approval =
  approval_id :: string
  a_requester :: requester
  a_user :: string
  a_capability :: string
  a_resource :: string
  a_reason :: string
  a_risk :: risk
  a_status :: approval_status
  a_expires_at :: string

datatype approval_kind = CapabilitySet | CredentialRequest | PrivilegeRequest

fun approval_kind_str :: "approval_kind \<Rightarrow> string" where
  "approval_kind_str CapabilitySet = ''capability_set''"
| "approval_kind_str CredentialRequest = ''credential_request''"
| "approval_kind_str PrivilegeRequest = ''privilege_request''"

fun executes_on_resolve :: "approval_kind \<Rightarrow> bool" where
  "executes_on_resolve CapabilitySet = True"
| "executes_on_resolve PrivilegeRequest = True"
| "executes_on_resolve CredentialRequest = False"

record approval_request =
  req_method :: string
  req_params :: json

record policy_citation =
  pc_name :: string
  pc_policy_id :: string

record resolved_by =
  rb_uid :: nat
  rb_user :: string
  rb_pid :: "int option"
  rb_cgroup :: "string option"

text \<open>\<open>x_error\<close>: whether the record carries the failure prose, whose wording is not modelled.\<close>

record execution =
  x_result :: string
  x_changed :: "bool option"
  x_audit_event_id :: "string option"
  x_grant_id :: "string option"
  x_error :: bool

record requester_peer =
  rp_uid :: nat
  rp_agent_session_id :: "string option"

record approval_envelope =
  e_v :: nat
  e_approval :: approval
  e_kind :: approval_kind
  e_created_at :: string
  e_request :: approval_request
  e_requester_peer :: "requester_peer option"
  e_policy :: policy_citation
  e_contract :: string
  e_resolved_at :: "string option"
  e_resolved_by :: "resolved_by option"
  e_consumed_at :: "string option"
  e_execution :: "execution option"

record grant =
  g_v :: nat
  g_grant_id :: string
  g_approval_id :: string
  g_uid :: nat
  g_user :: string
  g_capability :: string
  g_reason :: string
  g_granted_at :: string
  g_expires_at :: string
  g_revoked_at :: "string option"

definition env_id :: "approval_envelope \<Rightarrow> string" where
  "env_id e = approval_id (e_approval e)"

definition env_status :: "approval_envelope \<Rightarrow> approval_status" where
  "env_status e = a_status (e_approval e)"

section \<open>Expiry\<close>

definition has_lapsed :: "approval_envelope \<Rightarrow> nat \<Rightarrow> bool" where
  "has_lapsed e now =
     (case unix_seconds_from_rfc3339 (a_expires_at (e_approval e)) of
        Some expires \<Rightarrow> now \<ge> expires
      | None \<Rightarrow> True)"

definition is_answerable :: "approval_envelope \<Rightarrow> nat \<Rightarrow> bool" where
  "is_answerable e now = (env_status e = Pending \<and> \<not> has_lapsed e now)"

definition is_live :: "grant \<Rightarrow> nat \<Rightarrow> bool" where
  "is_live g now =
     (if g_revoked_at g \<noteq> None then False
      else (case unix_seconds_from_rfc3339 (g_expires_at g) of
              Some expires \<Rightarrow> now < expires
            | None \<Rightarrow> False))"

section \<open>Validation\<close>

datatype reason_error = ReasonBlank | ReasonTooLong nat | ReasonControl

definition validate_reason :: "string \<Rightarrow> (reason_error, unit) result" where
  "validate_reason reason =
     (if blank reason then Err ReasonBlank
      else if length reason > REASON_MAX_BYTES then Err (ReasonTooLong (length reason))
      else if has_control reason then Err ReasonControl
      else Ok ())"

definition clamp_ttl :: "nat option \<Rightarrow> nat" where
  "clamp_ttl requested =
     clamp APPROVAL_TTL_MIN_SECS APPROVAL_TTL_MAX_SECS (unwrap_or requested APPROVAL_TTL_DEFAULT_SECS)"

definition clamp_grant_minutes :: "nat option \<Rightarrow> nat" where
  "clamp_grant_minutes requested =
     clamp GRANT_MIN_MINUTES GRANT_MAX_MINUTES (unwrap_or requested GRANT_DEFAULT_MINUTES)"

definition capability_segment_ok :: "string \<Rightarrow> bool" where
  "capability_segment_ok seg =
     (case seg of
        [] \<Rightarrow> False
      | c # cs \<Rightarrow> is_ascii_lowercase c
          \<and> list_all (\<lambda>b. is_ascii_lowercase b \<or> is_ascii_digit b \<or> b = CHR ''_'') cs)"

definition is_capability_id :: "string \<Rightarrow> bool" where
  "is_capability_id s =
     (let segments = split_on CHR ''.'' s
      in capability_segment_ok (hd segments) \<and> length (tl segments) > 0
         \<and> list_all capability_segment_ok (tl segments))"

definition approval_violations :: "approval \<Rightarrow> string list" where
  "approval_violations a =
     (if prefixed_id APPROVAL_ID_PREFIX (approval_id a) then [] else [''approval_id''])
     @ (if rq_id (a_requester a) = [] then [''requester.id''] else [])
     @ (if a_user a = [] then [''user''] else [])
     @ (if is_capability_id (a_capability a) then [] else [''capability''])
     @ (if a_resource a = [] then [''resource''] else [])
     @ (case validate_reason (a_reason a) of Ok _ \<Rightarrow> [] | Err _ \<Rightarrow> [''reason''])
     @ (if is_rfc3339_timestamp (a_expires_at a) then [] else [''expires_at''])"

definition validate_approval_schema :: "approval \<Rightarrow> (string list, unit) result" where
  "validate_approval_schema a =
     (if approval_violations a = [] then Ok () else Err (approval_violations a))"

section \<open>Lemmas\<close>

lemma has_control_member: "c \<in> set s \<Longrightarrow> is_ascii_control c \<Longrightarrow> has_control s"
  by (induction s rule: has_control.induct) auto

lemma clamp_ttl_bounds: "15 \<le> clamp_ttl r" "clamp_ttl r \<le> 300"
  using clamp_bounds [of 15 300]
  by (simp_all add: clamp_ttl_def APPROVAL_TTL_MIN_SECS_def APPROVAL_TTL_MAX_SECS_def
      APPROVAL_TTL_DEFAULT_SECS_def)

lemma clamp_grant_bounds: "1 \<le> clamp_grant_minutes r" "clamp_grant_minutes r \<le> 60"
  using clamp_bounds [of 1 60]
  by (simp_all add: clamp_grant_minutes_def GRANT_MIN_MINUTES_def GRANT_MAX_MINUTES_def)

lemma approval_valid_iff:
  "validate_approval_schema a = Ok () \<longleftrightarrow>
     prefixed_id APPROVAL_ID_PREFIX (approval_id a) \<and> rq_id (a_requester a) \<noteq> [] \<and> a_user a \<noteq> [] \<and>
     is_capability_id (a_capability a) \<and> a_resource a \<noteq> [] \<and> validate_reason (a_reason a) = Ok () \<and>
     is_rfc3339_timestamp (a_expires_at a)"
  by (auto simp: validate_approval_schema_def approval_violations_def split: sum.splits)

lemma lapsed_mono: "has_lapsed e now \<Longrightarrow> now \<le> later \<Longrightarrow> has_lapsed e later"
  by (auto simp: has_lapsed_def split: option.splits)

lemma not_live_mono: "\<not> is_live g now \<Longrightarrow> now \<le> later \<Longrightarrow> \<not> is_live g later"
  by (auto simp: is_live_def split: option.splits if_splits)

section \<open>Properties\<close>

text \<open>
  An accepted justification is one line: at most 512 bytes, not blank, without any ASCII
  control byte, and \<open>str::lines\<close> sees exactly one line in it.
\<close>

lemma accepted_reason_is_one_line:
  assumes "validate_reason reason = Ok ()"
  shows "reason \<noteq> [] \<and> length reason \<le> 512 \<and> (\<forall>c \<in> set reason. \<not> is_ascii_control c) \<and>
    str_lines reason = [reason]"
proof -
  have ok: "\<not> blank reason" "length reason \<le> 512" "\<not> has_control reason"
    using assms by (auto simp: validate_reason_def REASON_MAX_BYTES_def split: if_splits)
  have ne: "reason \<noteq> []" using ok(1) by auto
  have ctl: "\<forall>c \<in> set reason. \<not> is_ascii_control c" using ok(3) has_control_member by blast
  have nl: "is_ascii_control (CHR 0x0A)" "is_ascii_control (CHR 0x0D)" by code_simp+
  have "CHR 0x0A \<notin> set reason" "CHR 0x0D \<notin> set reason" using ctl nl by auto
  then have "split_on (CHR 0x0A) reason = [reason]"
    by (induction reason) auto
  then have "str_lines reason = [reason]"
    using ne \<open>CHR 0x0D \<notin> set reason\<close> by (auto simp: str_lines_def strip_cr_def dest: last_in_set)
  with ok(2) ne ctl show ?thesis by blast
qed

text \<open>
  A requester can shorten and never lengthen: an approval is answerable for between 15 and 300
  seconds, a grant lasts between 1 and 60 minutes, and a request inside the window is honoured.
\<close>

lemma requested_windows_are_clamped:
  "15 \<le> clamp_ttl r \<and> clamp_ttl r \<le> 300 \<and> 1 \<le> clamp_grant_minutes r \<and> clamp_grant_minutes r \<le> 60 \<and>
   (clamp_ttl (Some n) = n \<longleftrightarrow> 15 \<le> n \<and> n \<le> 300) \<and>
   (clamp_grant_minutes (Some n) = n \<longleftrightarrow> 1 \<le> n \<and> n \<le> 60)"
  using clamp_ttl_bounds [of r] clamp_grant_bounds [of r]
  by (auto simp: clamp_ttl_def clamp_grant_minutes_def clamp_def APPROVAL_TTL_MIN_SECS_def
      APPROVAL_TTL_MAX_SECS_def APPROVAL_TTL_DEFAULT_SECS_def GRANT_MIN_MINUTES_def GRANT_MAX_MINUTES_def)

end
