(* ===== verification/Punar_Audit.thy ===== *)
theory Punar_Audit
  imports Punar_Principal
begin

text \<open>
  \<open>crates/punar-common/src/audit.rs\<close>: events, their builders, the schema check, the append-only
  writer with its size-capped rotation, and the readers behind \<open>audit.tail\<close> and \<open>status\<close>. The live
  file is its bytes. \<open>serde_json\<close> is the pair of fields \<open>ser_event\<close>/\<open>de_event\<close> of the environment,
  with \<open>event_codec\<close> as the named hypothesis. A write that fails may leave a torn prefix, and a
  failed \<open>fdatasync\<close> the whole line: \<open>env_append\<close> says after how many bytes the n-th append fails.
\<close>

section \<open>Events\<close>

definition AGENT_SESSION_NONE :: string where
  "AGENT_SESSION_NONE = ''agt_none''"

definition PROJECT_ID_SYSTEM :: string where
  "PROJECT_ID_SYSTEM = ''system''"

definition USER_ID_DAEMON :: string where
  "USER_ID_DAEMON = ''punard''"

definition RESOURCE_CAPABILITY_REGISTRY :: string where
  "RESOURCE_CAPABILITY_REGISTRY = ''capability_registry''"

record audit_event =
  ev_event_id :: string
  ev_timestamp :: string
  ev_device_id :: string
  ev_user_id :: "string option"
  ev_agent_session_id :: "string option"
  ev_project_id :: "string option"
  ev_source :: principal_kind
  ev_action :: string
  ev_resource :: "string option"
  ev_decision :: decision
  ev_policy_ids :: "string list"
  ev_result :: string

datatype audit_outcome = Success | Noop | DeniedOutcome | Failure | VerifyFailed | DriftDetected | Clean

fun audit_outcome_str :: "audit_outcome \<Rightarrow> string" where
  "audit_outcome_str Success = ''success''"
| "audit_outcome_str Noop = ''noop''"
| "audit_outcome_str DeniedOutcome = ''denied''"
| "audit_outcome_str Failure = ''failure''"
| "audit_outcome_str VerifyFailed = ''verify_failed''"
| "audit_outcome_str DriftDetected = ''drift_detected''"
| "audit_outcome_str Clean = ''clean''"

record audit_actor =
  aa_user_id :: string
  aa_source :: principal_kind
  aa_agent_session_id :: "string option"

definition cli_peer :: "string \<Rightarrow> audit_actor" where
  "cli_peer user_id = \<lparr>aa_user_id = user_id, aa_source = Human, aa_agent_session_id = None\<rparr>"

definition cli_peer_uid :: "nat \<Rightarrow> audit_actor" where
  "cli_peer_uid uid = cli_peer (''uid:'' @ show_nat uid)"

definition service_actor :: "string \<Rightarrow> audit_actor" where
  "service_actor user_id = \<lparr>aa_user_id = user_id, aa_source = Service, aa_agent_session_id = None\<rparr>"

definition daemon_actor :: audit_actor where
  "daemon_actor = service_actor USER_ID_DAEMON"

definition with_agent_session :: "audit_actor \<Rightarrow> string \<Rightarrow> audit_actor" where
  "with_agent_session a sid = a\<lparr>aa_agent_session_id := Some sid, aa_source := AiAgent\<rparr>"

section \<open>State of the writer\<close>

text \<open>How a rotation ends: the rename may fail, or the reopening of the live file after it.\<close>

datatype rotation = Rotated | RenameFailed | ReopenFailed

record audit_env = os_env +
  ser_event :: "audit_event \<Rightarrow> string"
  de_event :: "string \<Rightarrow> audit_event option"
  env_append :: "nat \<Rightarrow> nat option"
  env_rotate :: "nat \<Rightarrow> rotation"
  rotate_bytes :: nat

record audit_state = os_state +
  event_counter :: nat
  trail_live :: string
  trail_rotated :: string
  trail_detached :: bool
  audit_events :: nat

text \<open>The process-wide atomic counter wraps at 64 bits.\<close>

definition next_event_id ::
  "'e audit_env_scheme \<Rightarrow> 's audit_state_scheme \<Rightarrow> string \<times> 's audit_state_scheme" where
  "next_event_id E st =
     (''evt_'' @ show_nat (unix_now_millis E st) @ ''x'' @ show_nat (event_counter st),
      st\<lparr>event_counter := (event_counter st + 1) mod 2 ^ 64\<rparr>)"

definition m3_event ::
  "'e audit_env_scheme \<Rightarrow> string \<Rightarrow> audit_actor \<Rightarrow> string \<Rightarrow> string \<Rightarrow> decision \<Rightarrow> string
   \<Rightarrow> 's audit_state_scheme \<Rightarrow> audit_event \<times> 's audit_state_scheme" where
  "m3_event E device_id actor action resource dec res st =
     (let (event_id, st') = next_event_id E st
      in (\<lparr>ev_event_id = event_id, ev_timestamp = utc_now_rfc3339 E st, ev_device_id = device_id,
           ev_user_id = Some (aa_user_id actor),
           ev_agent_session_id = Some (unwrap_or (aa_agent_session_id actor) AGENT_SESSION_NONE),
           ev_project_id = Some PROJECT_ID_SYSTEM, ev_source = aa_source actor,
           ev_action = action, ev_resource = Some resource, ev_decision = dec,
           ev_policy_ids = [POLICY_PERSONAL_DEFAULTS], ev_result = res\<rparr>, st'))"

definition event_action ::
  "'e audit_env_scheme \<Rightarrow> string \<Rightarrow> audit_actor \<Rightarrow> string \<Rightarrow> string \<Rightarrow> decision \<Rightarrow> audit_outcome
   \<Rightarrow> 's audit_state_scheme \<Rightarrow> audit_event \<times> 's audit_state_scheme" where
  "event_action E device_id actor action resource dec outcome st =
     m3_event E device_id actor action resource dec (audit_outcome_str outcome) st"

definition event_reconcile ::
  "'e audit_env_scheme \<Rightarrow> string \<Rightarrow> audit_actor \<Rightarrow> audit_outcome
   \<Rightarrow> 's audit_state_scheme \<Rightarrow> audit_event \<times> 's audit_state_scheme" where
  "event_reconcile E device_id actor outcome st =
     m3_event E device_id actor ''reconcile'' RESOURCE_CAPABILITY_REGISTRY Allow
       (audit_outcome_str outcome) st"

definition event_denial ::
  "'e audit_env_scheme \<Rightarrow> string \<Rightarrow> audit_actor \<Rightarrow> string \<Rightarrow> string
   \<Rightarrow> 's audit_state_scheme \<Rightarrow> audit_event \<times> 's audit_state_scheme" where
  "event_denial E device_id actor action resource st =
     m3_event E device_id actor action resource Deny (audit_outcome_str DeniedOutcome) st"

section \<open>The schema check\<close>

definition action_segment_ok :: "string \<Rightarrow> bool" where
  "action_segment_ok segment =
     (case segment of
        [] \<Rightarrow> False
      | c # cs \<Rightarrow> is_ascii_lowercase c
          \<and> list_all (\<lambda>b. is_ascii_lowercase b \<or> is_ascii_digit b \<or> b = CHR ''_'') cs)"

definition action_pattern_ok :: "string \<Rightarrow> bool" where
  "action_pattern_ok action =
     (action \<noteq> [] \<and> list_all action_segment_ok (split_on CHR ''.'' action))"

text \<open>The violations in the order the code pushes them, each by the field it names.\<close>

definition event_violations :: "audit_event \<Rightarrow> string list" where
  "event_violations e =
     (if prefixed_id ''evt_'' (ev_event_id e) then [] else [''event_id''])
     @ (if is_rfc3339_timestamp (ev_timestamp e) then [] else [''timestamp''])
     @ (if prefixed_id ''dev_'' (ev_device_id e) then [] else [''device_id''])
     @ (case ev_user_id e of Some u \<Rightarrow> if u \<noteq> [] then [] else [''user_id''] | None \<Rightarrow> [''user_id''])
     @ (case ev_agent_session_id e of
          Some i \<Rightarrow> if prefixed_id ''agt_'' i then [] else [''agent_session_id'']
        | None \<Rightarrow> [''agent_session_id''])
     @ (case ev_project_id e of
          Some i \<Rightarrow> if i \<noteq> [] then [] else [''project_id''] | None \<Rightarrow> [''project_id''])
     @ (if action_pattern_ok (ev_action e) then [] else [''action''])
     @ (case ev_resource e of
          Some r \<Rightarrow> if r \<noteq> [] then [] else [''resource''] | None \<Rightarrow> [''resource''])
     @ map (\<lambda>_. ''policy_ids'') (filter (\<lambda>p. p = []) (ev_policy_ids e))
     @ (if ev_result e \<noteq> [] then [] else [''result''])"

definition validate_event_schema :: "audit_event \<Rightarrow> (string list, unit) result" where
  "validate_event_schema e =
     (if event_violations e = [] then Ok () else Err (event_violations e))"

section \<open>The writer\<close>

datatype audit_error = SchemaViolation "string list" | AuditIo

text \<open>
  After a failed reopening the descriptor still names the renamed file, whose length is over the
  limit: the next call finds the live file small, renames nothing and tries to open it again. The
  rotations another daemon makes of the same trail are not part of the model.
\<close>

definition rotate_if_needed ::
  "'e audit_env_scheme \<Rightarrow> 's audit_state_scheme \<Rightarrow> bool \<times> 's audit_state_scheme" where
  "rotate_if_needed E st =
     (if \<not> trail_detached st \<and> length (trail_live st) < rotate_bytes E then (True, st)
      else if length (trail_live st) < rotate_bytes E
      then (if env_rotate E (ticks st) = ReopenFailed then (False, st) else (True, st\<lparr>trail_detached := False\<rparr>))
      else (case env_rotate E (ticks st) of
              RenameFailed \<Rightarrow> (False, st)
            | Rotated \<Rightarrow> (True, st\<lparr>trail_rotated := trail_live st, trail_live := [], trail_detached := False\<rparr>)
            | ReopenFailed \<Rightarrow>
                (False, st\<lparr>trail_rotated := trail_live st, trail_live := [], trail_detached := True\<rparr>)))"

definition append_event ::
  "'e audit_env_scheme \<Rightarrow> audit_event \<Rightarrow> 's audit_state_scheme
   \<Rightarrow> (audit_error, unit) result \<times> 's audit_state_scheme" where
  "append_event E e st =
     (case validate_event_schema e of
        Err vs \<Rightarrow> (Err (SchemaViolation vs), st)
      | Ok _ \<Rightarrow>
          (let line = ser_event E e @ [CHR 0x0A]
           in case rotate_if_needed E st of
                (False, st1) \<Rightarrow> (Err AuditIo, tick st1)
              | (True, st1) \<Rightarrow>
                  (case env_append E (ticks st1) of
                     None \<Rightarrow> (Ok (), tick (st1\<lparr>trail_live := trail_live st1 @ line\<rparr>))
                   | Some k \<Rightarrow>
                       (Err AuditIo, tick (st1\<lparr>trail_live := trail_live st1 @ take k line\<rparr>)))))"

definition log_audit ::
  "'e audit_env_scheme \<Rightarrow> audit_event \<Rightarrow> 's audit_state_scheme \<Rightarrow> 's audit_state_scheme" where
  "log_audit E e st =
     (case append_event E e st of
        (Ok _, st') \<Rightarrow> st'\<lparr>audit_events := audit_events st' + 1\<rparr>
      | (Err _, st') \<Rightarrow> st')"

definition log_audit_id ::
  "'e audit_env_scheme \<Rightarrow> audit_event \<Rightarrow> 's audit_state_scheme
   \<Rightarrow> string option \<times> 's audit_state_scheme" where
  "log_audit_id E e st =
     (let st' = log_audit E e st
      in (if audit_events st' > audit_events st then Some (ev_event_id e) else None, st'))"

section \<open>The readers\<close>

definition trail_lines :: "string \<Rightarrow> string list" where
  "trail_lines bytes = filter (\<lambda>l. l \<noteq> []) (str_lines bytes)"

definition last_n :: "nat \<Rightarrow> 'a list \<Rightarrow> 'a list" where
  "last_n n xs = drop (length xs - n) xs"

definition audit_tail ::
  "'e audit_env_scheme \<Rightarrow> nat \<Rightarrow> 's audit_state_scheme \<Rightarrow> audit_event list \<times> nat" where
  "audit_tail E n st =
     (let window = last_n n (trail_lines (trail_live st));
          parsed = map (de_event E) window
      in (map the (filter (\<lambda>p. p \<noteq> None) parsed), length (filter (\<lambda>p. p = None) parsed)))"

definition count_events :: "'s audit_state_scheme \<Rightarrow> nat" where
  "count_events st = length (trail_lines (trail_live st))"

section \<open>Lemmas\<close>

text \<open>Documented behaviour of \<open>serde_json\<close>: it round-trips and escapes control characters.\<close>

definition event_codec :: "'e audit_env_scheme \<Rightarrow> audit_event set \<Rightarrow> bool" where
  "event_codec E A \<longleftrightarrow>
     (\<forall>e \<in> A. de_event E (ser_event E e) = Some e \<and> ser_event E e \<noteq> []
        \<and> CHR 0x0A \<notin> set (ser_event E e) \<and> CHR 0x0D \<notin> set (ser_event E e))"

definition encode_trail :: "'e audit_env_scheme \<Rightarrow> audit_event list \<Rightarrow> string" where
  "encode_trail E es = concat (map (\<lambda>e. ser_event E e @ [CHR 0x0A]) es)"

lemma encode_trail_snoc:
  "encode_trail E (es @ [e]) = encode_trail E es @ ser_event E e @ [CHR 0x0A]"
  by (simp add: encode_trail_def)

lemma split_on_line: "sep \<notin> set a \<Longrightarrow> split_on sep (a @ sep # b) = a # split_on sep b"
  by (induction a) auto

lemma str_lines_line:
  "CHR 0x0A \<notin> set l \<Longrightarrow> CHR 0x0D \<notin> set l \<Longrightarrow> str_lines (l @ CHR 0x0A # rest) = l # str_lines rest"
  by (auto simp: str_lines_def split_on_line Let_def strip_cr_def dest: last_in_set)

lemma str_lines_Nil [simp]: "str_lines [] = []"
  by (simp add: str_lines_def)

lemma trail_lines_encode:
  "event_codec E (set es) \<Longrightarrow> trail_lines (encode_trail E es @ rest) = map (ser_event E) es @ trail_lines rest"
  by (induction es) (simp_all add: encode_trail_def trail_lines_def str_lines_line event_codec_def)

lemma trail_lines_encode_all: "event_codec E (set es) \<Longrightarrow> trail_lines (encode_trail E es) = map (ser_event E) es"
  using trail_lines_encode [of E es "[]"] by (simp add: trail_lines_def)

lemma last_n_map: "last_n n (map f xs) = map f (last_n n xs)"
  by (simp add: last_n_def drop_map)

lemma tail_of_encoded:
  assumes "event_codec E (set es)" "trail_live st = encode_trail E es"
  shows "audit_tail E n st = (last_n n es, 0)" "count_events st = length es"
proof -
  have "set (last_n n es) \<subseteq> set es" by (simp add: last_n_def set_drop_subset)
  then have "\<forall>e \<in> set (last_n n es). de_event E (ser_event E e) = Some e"
    using assms(1) by (auto simp: event_codec_def)
  then have parsed: "map (de_event E) (last_n n (trail_lines (trail_live st))) = map Some (last_n n es)"
    using assms by (simp add: trail_lines_encode_all last_n_map)
  show "audit_tail E n st = (last_n n es, 0)"
    unfolding audit_tail_def Let_def parsed by (simp add: filter_map comp_def)
  show "count_events st = length es"
    using assms by (simp add: count_events_def trail_lines_encode_all)
qed

lemma append_event_Ok:
  assumes "append_event E e st = (Ok (), st')"
  shows "event_violations e = []"
    and "(trail_live st' = trail_live st @ ser_event E e @ [CHR 0x0A] \<and> trail_rotated st' = trail_rotated st) \<or>
         (trail_live st' = ser_event E e @ [CHR 0x0A] \<and> trail_rotated st' = trail_live st)"
  using assms
  by (auto simp: append_event_def rotate_if_needed_def validate_event_schema_def tick_def Let_def
      split: if_splits option.splits rotation.splits)

lemma log_audit_fields:
  "audit_events (log_audit E e st) \<in> {audit_events st, audit_events st + 1}"
  "event_counter (log_audit E e st) = event_counter st"
  by (auto simp: log_audit_def append_event_def rotate_if_needed_def tick_def Let_def
      split: sum.splits option.splits prod.splits if_splits rotation.splits)

lemma event_id_shape: "prefixed_id ''evt_'' (fst (next_event_id E st))"
proof -
  have d: "is_ascii_digit c \<Longrightarrow> is_ascii_alphanumeric c" for c
    by (simp add: is_ascii_alphanumeric_def)
  have "list_all is_ascii_alphanumeric (show_nat n)" for n
    using show_nat_digits [of n] d by (auto simp: list_all_iff)
  moreover have "is_ascii_alphanumeric (CHR ''x'')" by code_simp
  ultimately show ?thesis
    unfolding prefixed_id_iff next_event_id_def fst_conv
    by (intro exI [of _ "show_nat (unix_now_millis E st) @ ''x'' @ show_nat (event_counter st)"]) simp
qed

text \<open>What a builder needs so that its event is never refused by the writer.\<close>

definition actor_ok :: "audit_actor \<Rightarrow> bool" where
  "actor_ok a \<longleftrightarrow>
     aa_user_id a \<noteq> [] \<and>
     (case aa_agent_session_id a of None \<Rightarrow> True | Some s \<Rightarrow> prefixed_id ''agt_'' s)"

lemma m3_event_valid:
  assumes "actor_ok actor" "prefixed_id ''dev_'' device_id" "action_pattern_ok action" "resource \<noteq> []"
    "res \<noteq> []" "env_clock E (ticks st) div 1000 < 253402300800"
  shows "event_violations (fst (m3_event E device_id actor action resource dec res st)) = []"
proof -
  have "prefixed_id ''agt_'' (unwrap_or (aa_agent_session_id actor) AGENT_SESSION_NONE)"
  proof (cases "aa_agent_session_id actor")
    case None
    moreover have "prefixed_id ''agt_'' ''agt_none''" by code_simp
    ultimately show ?thesis by (simp add: AGENT_SESSION_NONE_def)
  qed (use assms(1) in \<open>simp add: actor_ok_def\<close>)
  moreover have "is_rfc3339_timestamp (utc_now_rfc3339 E st)"
    unfolding utc_now_rfc3339_def by (rule stamp_inverse(2) [OF assms(6)])
  ultimately show ?thesis
    using assms event_id_shape [of E st]
    by (simp add: m3_event_def event_violations_def actor_ok_def case_prod_unfold Let_def
        PROJECT_ID_SYSTEM_def POLICY_PERSONAL_DEFAULTS_def)
qed

section \<open>Properties\<close>

text \<open>
  Reading back: when the live file holds exactly the lines of the events \<open>es\<close> and an append
  reports success, the event was schema-valid, the file holds those lines (or none, if the size
  cap rotated them away) followed by the new one, and \<open>audit.tail\<close> returns the last events of that
  sequence, newest last, with no malformed line.
\<close>

theorem append_then_tail:
  assumes "event_codec E (set (es @ [e]))" "trail_live st = encode_trail E es"
    and "append_event E e st = (Ok (), st')"
  shows "event_violations e = [] \<and>
    (\<exists>kept. (kept = es \<and> trail_rotated st' = trail_rotated st
              \<or> kept = [] \<and> trail_rotated st' = encode_trail E es) \<and>
       trail_live st' = encode_trail E (kept @ [e]) \<and>
       audit_tail E n st' = (last_n n (kept @ [e]), 0) \<and> count_events st' = length kept + 1)"
proof -
  obtain kept where kept: "kept = es \<and> trail_rotated st' = trail_rotated st
      \<or> kept = [] \<and> trail_rotated st' = encode_trail E es"
    "trail_live st' = encode_trail E (kept @ [e])"
    using append_event_Ok(2) [OF assms(3)] assms(2)
    by (force simp: encode_trail_def)
  then have "event_codec E (set (kept @ [e]))" using assms(1) by (auto simp: event_codec_def)
  from kept tail_of_encoded [OF this kept(2)] append_event_Ok(1) [OF assms(3)] show ?thesis
    by auto
qed

definition demo_event :: "string \<Rightarrow> audit_event" where
  "demo_event resource =
     \<lparr>ev_event_id = ''evt_1x0'', ev_timestamp = ''2026-08-24T12:00:00Z'', ev_device_id = ''dev_1'',
      ev_user_id = Some ''alice'', ev_agent_session_id = Some AGENT_SESSION_NONE,
      ev_project_id = Some PROJECT_ID_SYSTEM, ev_source = Human, ev_action = ''reconcile'',
      ev_resource = Some resource, ev_decision = Allow, ev_policy_ids = [POLICY_PERSONAL_DEFAULTS],
      ev_result = ''clean''\<rparr>"

text \<open>A codec of the demo events: the resource is the whole text.\<close>

definition demo_audit_env :: audit_env where
  "demo_audit_env =
     \<lparr>env_clock = (\<lambda>t. 1767225600000 + t), env_disk = (\<lambda>_. True),
      env_urandom = (\<lambda>t n. Some (replicate n (t mod 256))), env_cgroup = (\<lambda>_ _. None),
      env_passwd = (\<lambda>_. None), ser_event = (\<lambda>e. unwrap_or (ev_resource e) []),
      de_event = (\<lambda>s. Some (demo_event s)), env_append = (\<lambda>_. None), env_rotate = (\<lambda>_. Rotated),
      rotate_bytes = 100\<rparr>"

theorem append_then_tail_witness:
  "let st = \<lparr>ticks = 0, event_counter = 0, trail_live = encode_trail demo_audit_env [demo_event ''a''],
             trail_rotated = [], trail_detached = False, audit_events = 1\<rparr>
   in fst (audit_tail demo_audit_env 2 (snd (append_event demo_audit_env (demo_event ''b'') st)))
        = [demo_event ''a'', demo_event ''b'']"
proof -
  let ?st = "\<lparr>ticks = 0, event_counter = 0,
     trail_live = encode_trail demo_audit_env [demo_event ''a''], trail_rotated = [], trail_detached = False, audit_events = 1\<rparr>"
  let ?r = "append_event demo_audit_env (demo_event ''b'') ?st"
  have ok: "event_violations (demo_event ''b'') = []" by code_simp
  have "event_codec demo_audit_env (set ([demo_event ''a''] @ [demo_event ''b'']))"
    by (simp add: event_codec_def demo_audit_env_def demo_event_def)
  moreover have r: "?r = (Ok (), snd ?r)" "trail_rotated (snd ?r) = []"
    using ok by (simp_all add: append_event_def validate_event_schema_def rotate_if_needed_def tick_def
        demo_audit_env_def encode_trail_def demo_event_def)
  moreover have "encode_trail demo_audit_env [demo_event ''a''] \<noteq> []"
    by (simp add: encode_trail_def)
  ultimately show ?thesis
    using append_then_tail [of demo_audit_env "[demo_event ''a'']" "demo_event ''b''" ?st "snd ?r" 2]
    by (auto simp: last_n_def Let_def)
qed

lemma last_n_snoc: "last_n (Suc n) (xs @ [x]) = last_n n xs @ [x]"
  by (simp add: last_n_def)

lemma trail_lines_single:
  "l \<noteq> [] \<Longrightarrow> CHR 0x0A \<notin> set l \<Longrightarrow> CHR 0x0D \<notin> set l \<Longrightarrow> trail_lines (l @ [CHR 0x0A]) = [l]"
  using str_lines_line [of l "[]"] by (simp add: trail_lines_def)

text \<open>
  C30. A torn append swallows the next event: when one append to the open live file fails after
  writing part of its line,
  the following append reports success, yet its text is glued to the fragment, so the tail counts
  one malformed line and does not return the recorded event.
\<close>

theorem torn_append_swallows_next:
  assumes codec: "event_codec E (set es \<union> {e1, e2})" and live: "trail_live st = encode_trail E es"
    and first: "append_event E e1 st = (Err AuditIo, st1)" "env_append E (ticks st) = Some k"
      "0 < k" "k \<le> length (ser_event E e1)" "length (trail_live st) < rotate_bytes E" "\<not> trail_detached st"
    and second: "append_event E e2 st1 = (Ok (), st2)" "length (trail_live st1) < rotate_bytes E"
    and garbled: "de_event E (take k (ser_event E e1) @ ser_event E e2) = None"
  shows "audit_tail E (Suc n) st2 = (last_n n es, 1) \<and> count_events st2 = length es + 1"
proof -
  let ?l = "take k (ser_event E e1) @ ser_event E e2"
  have "trail_live st1 = encode_trail E es @ take k (ser_event E e1)"
    using first live
    by (auto simp: append_event_def rotate_if_needed_def tick_def Let_def split: sum.splits if_splits)
  then have l2: "trail_live st2 = encode_trail E es @ ?l @ [CHR 0x0A]"
    using second
    by (auto simp: append_event_def rotate_if_needed_def tick_def Let_def
        split: sum.splits option.splits if_splits rotation.splits)
  have "?l \<noteq> []" "CHR 0x0A \<notin> set ?l" "CHR 0x0D \<notin> set ?l"
    using codec first(3) by (auto simp: event_codec_def dest: in_set_takeD)
  then have one: "trail_lines (?l @ [CHR 0x0A]) = [?l]" by (rule trail_lines_single)
  have c: "event_codec E (set es)" using codec by (simp add: event_codec_def)
  have lines: "trail_lines (trail_live st2) = map (ser_event E) es @ [?l]"
    unfolding l2 trail_lines_encode [OF c] one ..
  have "set (last_n n es) \<subseteq> set es" by (simp add: last_n_def set_drop_subset)
  then have "map (de_event E) (last_n n (map (ser_event E) es)) = map Some (last_n n es)"
    using c by (auto simp: last_n_map event_codec_def)
  then have parsed: "map (de_event E) (last_n (Suc n) (trail_lines (trail_live st2)))
      = map Some (last_n n es) @ [None]"
    using garbled by (simp add: lines last_n_snoc)
  have "audit_tail E (Suc n) st2 = (last_n n es, 1)"
    unfolding audit_tail_def Let_def parsed by (simp add: filter_map comp_def)
  then show ?thesis by (simp add: count_events_def lines)
qed

definition demo_torn_env :: audit_env where
  "demo_torn_env = demo_audit_env
     \<lparr>env_append := (\<lambda>t. if t = 0 then Some 1 else None),
      de_event := (\<lambda>s. if length s = 2 then Some (demo_event s) else None)\<rparr>"

theorem torn_append_swallows_next_witness:
  "let st = \<lparr>ticks = 0, event_counter = 0, trail_live = [], trail_rotated = [], trail_detached = False, audit_events = 0\<rparr>;
       st1 = snd (append_event demo_torn_env (demo_event ''aa'') st);
       st2 = snd (append_event demo_torn_env (demo_event ''bb'') st1)
   in audit_tail demo_torn_env 1 st2 = ([], 1)"
proof -
  let ?st = "\<lparr>ticks = 0, event_counter = 0, trail_live = [], trail_rotated = [], trail_detached = False, audit_events = 0\<rparr>"
  let ?r1 = "append_event demo_torn_env (demo_event ''aa'') ?st"
  let ?r2 = "append_event demo_torn_env (demo_event ''bb'') (snd ?r1)"
  have ok: "event_violations (demo_event ''aa'') = []" "event_violations (demo_event ''bb'') = []"
    by code_simp+
  have r1: "?r1 = (Err AuditIo, snd ?r1)" "trail_live (snd ?r1) = ''a''" "ticks (snd ?r1) = 1"
    using ok by (simp_all add: append_event_def validate_event_schema_def rotate_if_needed_def tick_def
        demo_torn_env_def demo_audit_env_def demo_event_def)
  have r2: "?r2 = (Ok (), snd ?r2)"
    using ok r1 by (simp add: append_event_def validate_event_schema_def rotate_if_needed_def tick_def
        demo_torn_env_def demo_audit_env_def)
  have "event_codec demo_torn_env (set [] \<union> {demo_event ''aa'', demo_event ''bb''})"
    by (simp add: event_codec_def demo_torn_env_def demo_audit_env_def demo_event_def)
  from torn_append_swallows_next [OF this _ r1(1) _ _ _ _ _ r2, of 1 0]
  have "audit_tail demo_torn_env (Suc 0) (snd ?r2) = (last_n 0 [], 1)"
    using r1 by (simp add: demo_torn_env_def demo_audit_env_def demo_event_def encode_trail_def)
  then show ?thesis by (simp add: Let_def last_n_def)
qed

end
