(* ===== verification/Approval_Store.thy ===== *)
theory Approval_Store
  imports Punar_Approval Punar_Audit
begin

text \<open>
  \<open>crates/punard/src/approvals.rs\<close>: approvals and privilege grants in memory and on disk. The two
  directories are maps from file names to contents; \<open>index.json\<close> and the shell summary are the
  last view written. \<open>serde_json\<close> is the codec fields of \<open>store_env\<close>. A record that cannot be read
  counts as one that does not parse. The lemmas give the store invariant and its preservation, the
  eviction bound, what a sweep expires, the selection of live grants, and crash recovery: loading
  the directory gives back the records in memory.
\<close>

section \<open>State\<close>

record store_env = audit_env +
  ser_envelope :: "approval_envelope \<Rightarrow> string"
  de_envelope :: "string \<Rightarrow> approval_envelope option"
  ser_grant :: "grant \<Rightarrow> string"
  de_grant :: "string \<Rightarrow> grant option"

record index_entry =
  ix_approval_id :: string
  ix_kind :: string
  ix_status :: string
  ix_requester :: string
  ix_capability :: string
  ix_resource :: string
  ix_created_at :: string
  ix_expires_at :: string
  ix_resolved_at :: "string option"

record summary_approval =
  sa_approval_id :: string
  sa_kind :: approval_kind
  sa_status :: approval_status
  sa_requester :: requester
  sa_user :: string
  sa_capability :: string
  sa_resource :: string
  sa_risk :: risk
  sa_reason :: string
  sa_contract :: string
  sa_policy :: policy_citation
  sa_created_at :: string
  sa_expires_at :: string
  sa_execution :: "execution option"

record summary_grant =
  sg_grant_id :: string
  sg_capability :: string
  sg_expires_at :: string

record approvals_summary =
  sm_updated_at :: string
  sm_approvals :: "summary_approval list"
  sm_grants :: "summary_grant list"

record approval_store = audit_state +
  records :: "(string, approval_envelope) btree_map"
  grants :: "(string, grant) btree_map"
  rec_files :: "(string, string) btree_map"
  grant_files :: "(string, string) btree_map"
  index_file :: "string \<times> index_entry list"
  summary_file :: "approvals_summary option"

datatype store_error = SchemaInvalid "string list" | RecordTooLarge nat | StoreIo

definition json_name :: "string \<Rightarrow> string" where
  "json_name i = i @ ''.json''"

section \<open>Reading\<close>

definition store_get :: "'s approval_store_scheme \<Rightarrow> string \<Rightarrow> approval_envelope option" where
  "store_get st aid = bt_get (records st) aid"

definition store_list :: "'s approval_store_scheme \<Rightarrow> approval_envelope list" where
  "store_list st =
     sort_asc (\<lambda>e. a_expires_at (e_approval e))
       (filter (\<lambda>e. env_status e = Pending) (bt_values (records st)))
     @ sort_desc e_created_at
         (filter (\<lambda>e. env_status e \<noteq> Pending) (bt_values (records st)))"

definition pending_count :: "'s approval_store_scheme \<Rightarrow> nat \<Rightarrow> nat" where
  "pending_count st now =
     length (filter (\<lambda>e. is_answerable e now) (bt_values (records st)))"

definition pending_for_requester :: "'s approval_store_scheme \<Rightarrow> string \<Rightarrow> nat \<Rightarrow> nat" where
  "pending_for_requester st requester_id now =
     length (filter (\<lambda>e. is_answerable e now \<and> rq_id (a_requester (e_approval e)) = requester_id)
       (bt_values (records st)))"

definition live_grant :: "'s approval_store_scheme \<Rightarrow> nat \<Rightarrow> string \<Rightarrow> nat \<Rightarrow> grant option" where
  "live_grant st uid capability now =
     last_max g_expires_at
       (filter (\<lambda>g. g_uid g = uid \<and> g_capability g = capability \<and> is_live g now)
         (bt_values (grants st)))"

definition live_grants :: "'s approval_store_scheme \<Rightarrow> nat option \<Rightarrow> nat \<Rightarrow> grant list" where
  "live_grants st uid now =
     sort_asc g_expires_at
       (filter (\<lambda>g. is_live g now \<and> (case uid of None \<Rightarrow> True | Some u \<Rightarrow> g_uid g = u))
         (bt_values (grants st)))"

definition grant_by_id :: "'s approval_store_scheme \<Rightarrow> string \<Rightarrow> grant option" where
  "grant_by_id st gid = bt_get (grants st) gid"

section \<open>Loading\<close>

text \<open>The \<open>.json\<close> extension: a bare \<open>.json\<close> has none.\<close>

definition is_json_file :: "string \<Rightarrow> bool" where
  "is_json_file f = (case strip_suffix ''.json'' f of Some stem \<Rightarrow> stem \<noteq> [] | None \<Rightarrow> False)"

definition load_records ::
  "'e store_env_scheme \<Rightarrow> (string, string) btree_map \<Rightarrow> (string, approval_envelope) btree_map" where
  "load_records E files =
     foldl (\<lambda>m f.
       if \<not> is_json_file (fst f) \<or> fst f = ''index.json'' then m
       else (case de_envelope E (snd f) of
               Some env \<Rightarrow> bt_insert (env_id env) env m
             | None \<Rightarrow> m)) [] files"

definition load_grants ::
  "'e store_env_scheme \<Rightarrow> (string, string) btree_map \<Rightarrow> (string, grant) btree_map" where
  "load_grants E files =
     foldl (\<lambda>m f.
       if \<not> is_json_file (fst f) then m
       else (case de_grant E (snd f) of
               Some g \<Rightarrow> bt_insert (g_grant_id g) g m
             | None \<Rightarrow> m)) [] files"

text \<open>A restart: what was in memory is gone, the directories are read back.\<close>

definition store_load :: "'e store_env_scheme \<Rightarrow> 's approval_store_scheme \<Rightarrow> 's approval_store_scheme" where
  "store_load E st =
     st\<lparr>records := load_records E (rec_files st), grants := load_grants E (grant_files st)\<rparr>"

section \<open>Writing\<close>

definition index_entry_of :: "approval_envelope \<Rightarrow> index_entry" where
  "index_entry_of e =
     \<lparr>ix_approval_id = env_id e, ix_kind = approval_kind_str (e_kind e),
      ix_status = approval_status_str (env_status e),
      ix_requester = rq_id (a_requester (e_approval e)), ix_capability = a_capability (e_approval e),
      ix_resource = a_resource (e_approval e), ix_created_at = e_created_at e,
      ix_expires_at = a_expires_at (e_approval e), ix_resolved_at = e_resolved_at e\<rparr>"

definition write_index ::
  "'e store_env_scheme \<Rightarrow> 's approval_store_scheme \<Rightarrow> bool \<times> 's approval_store_scheme" where
  "write_index E st =
     (if env_disk E (ticks st)
      then (True, tick (st\<lparr>index_file := (utc_now_rfc3339 E st, map index_entry_of (store_list st))\<rparr>))
      else (False, tick st))"

definition eviction_victim :: "'s approval_store_scheme \<Rightarrow> approval_envelope option" where
  "eviction_victim st =
     first_min e_created_at (filter (\<lambda>e. is_terminal (env_status e)) (bt_values (records st)))"

text \<open>
  The eviction loop, with one round of fuel per record: each round removes one, as
  \<open>evict_loop_bound\<close> shows, so the fuel is never what stops it.
\<close>

fun evict_loop ::
  "'e store_env_scheme \<Rightarrow> nat \<Rightarrow> 's approval_store_scheme \<Rightarrow> bool \<times> 's approval_store_scheme" where
  "evict_loop E 0 st = (True, st)"
| "evict_loop E (Suc fuel) st =
     (if length (records st) > MAX_APPROVAL_RECORDS
      then (case eviction_victim st of
              None \<Rightarrow> (True, st)
            | Some v \<Rightarrow>
                (case remove_synced E (json_name (env_id v)) (rec_files st) st of
                   (False, _) \<Rightarrow> (False, tick st)
                 | (True, files) \<Rightarrow>
                     evict_loop E fuel
                       (tick (st\<lparr>rec_files := files, records := bt_remove (env_id v) (records st)\<rparr>))))
      else (True, st))"

definition evict_if_needed ::
  "'e store_env_scheme \<Rightarrow> 's approval_store_scheme \<Rightarrow> bool \<times> 's approval_store_scheme" where
  "evict_if_needed E st = evict_loop E (length (records st)) st"

definition put ::
  "'e store_env_scheme \<Rightarrow> approval_envelope \<Rightarrow> 's approval_store_scheme
   \<Rightarrow> (store_error, unit) result \<times> 's approval_store_scheme" where
  "put E env st =
     (case validate_approval_schema (e_approval env) of
        Err vs \<Rightarrow> (Err (SchemaInvalid vs), st)
      | Ok _ \<Rightarrow>
          (let bytes = ser_envelope E env
           in if length bytes > APPROVAL_RECORD_MAX_BYTES then (Err (RecordTooLarge (length bytes)), st)
              else (case write_atomic_synced E (json_name (env_id env)) bytes (rec_files st) st of
                      (False, _) \<Rightarrow> (Err StoreIo, tick st)
                    | (True, files) \<Rightarrow>
                        (case evict_if_needed E
                                (tick (st\<lparr>rec_files := files,
                                          records := bt_insert (env_id env) env (records st)\<rparr>)) of
                           (False, st2) \<Rightarrow> (Err StoreIo, st2)
                         | (True, st2) \<Rightarrow>
                             (case write_index E st2 of
                                (False, st3) \<Rightarrow> (Err StoreIo, st3)
                              | (True, st3) \<Rightarrow> (Ok (), st3))))))"

definition set_status :: "approval_status \<Rightarrow> approval_envelope \<Rightarrow> approval_envelope" where
  "set_status s env = env\<lparr>e_approval := (e_approval env)\<lparr>a_status := s\<rparr>\<rparr>"

definition sweep_step ::
  "'e store_env_scheme \<Rightarrow> string \<Rightarrow> approval_envelope list \<times> 's approval_store_scheme
   \<Rightarrow> approval_envelope list \<times> 's approval_store_scheme" where
  "sweep_step E i acc =
     (case bt_get (records (snd acc)) i of
        None \<Rightarrow> acc
      | Some env \<Rightarrow>
          (case put E (set_status Expired env) (snd acc) of
             (Ok _, st') \<Rightarrow> (fst acc @ [set_status Expired env], st')
           | (Err _, st') \<Rightarrow> (fst acc, st')))"

definition lapsed_ids :: "'s approval_store_scheme \<Rightarrow> nat \<Rightarrow> string list" where
  "lapsed_ids st now =
     map env_id (filter (\<lambda>e. env_status e = Pending \<and> has_lapsed e now) (bt_values (records st)))"

definition sweep ::
  "'e store_env_scheme \<Rightarrow> nat \<Rightarrow> 's approval_store_scheme
   \<Rightarrow> approval_envelope list \<times> 's approval_store_scheme" where
  "sweep E now st = fold (sweep_step E) (lapsed_ids st now) ([], st)"

section \<open>Grants\<close>

definition put_grant ::
  "'e store_env_scheme \<Rightarrow> grant \<Rightarrow> 's approval_store_scheme
   \<Rightarrow> (store_error, unit) result \<times> 's approval_store_scheme" where
  "put_grant E g st =
     (case write_atomic_synced E (json_name (g_grant_id g)) (ser_grant E g) (grant_files st) st of
        (False, _) \<Rightarrow> (Err StoreIo, tick st)
      | (True, files) \<Rightarrow>
          (Ok (), tick (st\<lparr>grants := bt_insert (g_grant_id g) g (grants st), grant_files := files\<rparr>)))"

definition drop_grant ::
  "'e store_env_scheme \<Rightarrow> string \<Rightarrow> 's approval_store_scheme
   \<Rightarrow> (store_error, grant option) result \<times> 's approval_store_scheme" where
  "drop_grant E gid st =
     (case bt_get (grants st) gid of
        None \<Rightarrow> (Ok None, st)
      | Some g \<Rightarrow>
          (let st1 = st\<lparr>grants := bt_remove gid (grants st)\<rparr>
           in case remove_synced E (json_name gid) (grant_files st1) st1 of
                (False, _) \<Rightarrow> (Err StoreIo, tick st1)
              | (True, files) \<Rightarrow> (Ok (Some g), tick (st1\<lparr>grant_files := files\<rparr>))))"

definition sweep_grant_step ::
  "'e store_env_scheme \<Rightarrow> string \<Rightarrow> grant list \<times> 's approval_store_scheme
   \<Rightarrow> grant list \<times> 's approval_store_scheme" where
  "sweep_grant_step E gid acc =
     (case drop_grant E gid (snd acc) of
        (Ok (Some g), st') \<Rightarrow> (fst acc @ [g], st')
      | (Ok None, st') \<Rightarrow> (fst acc, st')
      | (Err _, st') \<Rightarrow> (fst acc, st'))"

definition sweep_grants ::
  "'e store_env_scheme \<Rightarrow> nat \<Rightarrow> 's approval_store_scheme \<Rightarrow> grant list \<times> 's approval_store_scheme" where
  "sweep_grants E now st =
     fold (sweep_grant_step E)
       (map g_grant_id (filter (\<lambda>g. \<not> is_live g now) (bt_values (grants st)))) ([], st)"

section \<open>The shell summary\<close>

definition MAX_SUMMARY_APPROVALS :: nat where
  "MAX_SUMMARY_APPROVALS = 20"

definition summary_row :: "approval_envelope \<Rightarrow> summary_approval" where
  "summary_row e =
     \<lparr>sa_approval_id = env_id e, sa_kind = e_kind e, sa_status = env_status e,
      sa_requester = a_requester (e_approval e), sa_user = a_user (e_approval e),
      sa_capability = a_capability (e_approval e), sa_resource = a_resource (e_approval e),
      sa_risk = a_risk (e_approval e), sa_reason = a_reason (e_approval e),
      sa_contract = e_contract e, sa_policy = e_policy e, sa_created_at = e_created_at e,
      sa_expires_at = a_expires_at (e_approval e), sa_execution = e_execution e\<rparr>"

definition publish_summary ::
  "'e store_env_scheme \<Rightarrow> nat \<Rightarrow> 's approval_store_scheme \<Rightarrow> bool \<times> 's approval_store_scheme" where
  "publish_summary E now st =
     (let summary =
        \<lparr>sm_updated_at = utc_now_rfc3339 E st,
         sm_approvals = map summary_row (take MAX_SUMMARY_APPROVALS (store_list st)),
         sm_grants = map (\<lambda>g. \<lparr>sg_grant_id = g_grant_id g, sg_capability = g_capability g,
                                sg_expires_at = g_expires_at g\<rparr>) (live_grants st None now)\<rparr>
      in if env_disk E (ticks st) then (True, tick (st\<lparr>summary_file := Some summary\<rparr>))
         else (False, tick st))"

section \<open>The store invariant\<close>

definition store_ok :: "'s approval_store_scheme \<Rightarrow> bool" where
  "store_ok st \<longleftrightarrow>
     bt_ok (records st) \<and> bt_ok (grants st) \<and> bt_ok (rec_files st) \<and> bt_ok (grant_files st) \<and>
     (\<forall>k e. bt_get (records st) k = Some e \<longrightarrow>
        env_id e = k \<and> validate_approval_schema (e_approval e) = Ok ()) \<and>
     (\<forall>k g. bt_get (grants st) k = Some g \<longrightarrow> g_grant_id g = k)"

text \<open>What record operations and grant operations may touch.\<close>

definition record_frame :: "'s approval_store_scheme \<Rightarrow> 's approval_store_scheme \<Rightarrow> bool" where
  "record_frame st st' \<longleftrightarrow>
     (\<exists>t r f i. st' = st\<lparr>ticks := t, records := r, rec_files := f, index_file := i\<rparr>)"

definition grant_frame :: "'s approval_store_scheme \<Rightarrow> 's approval_store_scheme \<Rightarrow> bool" where
  "grant_frame st st' \<longleftrightarrow> (\<exists>t g f. st' = st\<lparr>ticks := t, grants := g, grant_files := f\<rparr>)"

text \<open>An interface of state changes: a preorder that every operation of a group stays inside.\<close>

locale state_order =
  fixes le :: "'s \<Rightarrow> 's \<Rightarrow> bool"
  assumes le_refl: "le s s"
    and le_trans: "le a b \<Longrightarrow> le b c \<Longrightarrow> le a c"
begin

lemma fold_le: "(\<And>x acc. le (snd acc) (snd (f x acc))) \<Longrightarrow> le (snd acc) (snd (fold f xs acc))"
proof (induction xs arbitrary: acc)
  case (Cons x xs)
  then show ?case using le_trans [of "snd acc" "snd (f x acc)"] by simp
qed (simp add: le_refl)

lemma fold_le_state: "(\<And>x s. le s (f x s)) \<Longrightarrow> le s (fold f xs s)"
proof (induction xs arbitrary: s)
  case (Cons x xs)
  then show ?case using le_trans [of s "f x s"] by simp
qed (simp add: le_refl)

end

lemma record_frame_refl: "record_frame st st"
  unfolding record_frame_def
  by (rule exI [of _ "ticks st"], rule exI [of _ "records st"], rule exI [of _ "rec_files st"],
      rule exI [of _ "index_file st"]) simp

lemma grant_frame_refl: "grant_frame st st"
  unfolding grant_frame_def
  by (rule exI [of _ "ticks st"], rule exI [of _ "grants st"], rule exI [of _ "grant_files st"]) simp

interpretation recf: state_order record_frame
  by unfold_locales (simp add: record_frame_refl, force simp: record_frame_def)

interpretation grantf: state_order grant_frame
  by unfold_locales (simp add: grant_frame_refl, force simp: grant_frame_def)

lemma record_frame_fields:
  assumes "record_frame st st'"
  shows "grants st' = grants st" "grant_files st' = grant_files st" "trail_live st' = trail_live st"
    "trail_rotated st' = trail_rotated st" "audit_events st' = audit_events st"
    "event_counter st' = event_counter st" "summary_file st' = summary_file st"
    "approval_store.more st' = approval_store.more st"
  using assms by (auto simp: record_frame_def)

lemma grant_frame_fields:
  assumes "grant_frame st st'"
  shows "records st' = records st" "rec_files st' = rec_files st" "trail_live st' = trail_live st"
    "trail_rotated st' = trail_rotated st" "audit_events st' = audit_events st"
    "event_counter st' = event_counter st" "summary_file st' = summary_file st"
    "index_file st' = index_file st" "approval_store.more st' = approval_store.more st"
  using assms by (auto simp: grant_frame_def)

lemma record_frameI:
  "st' = st\<lparr>ticks := t, records := r, rec_files := f, index_file := i\<rparr> \<Longrightarrow> record_frame st st'"
  unfolding record_frame_def by blast

lemma evict_loop_cases:
  obtains "evict_loop E (Suc n) st = (True, st)"
      "length (records st) \<le> MAX_APPROVAL_RECORDS \<or> eviction_victim st = None"
  | "evict_loop E (Suc n) st = (False, tick st)"
  | v files where "length (records st) > MAX_APPROVAL_RECORDS" "eviction_victim st = Some v"
      "remove_synced E (json_name (env_id v)) (rec_files st) st = (True, files)"
      "evict_loop E (Suc n) st =
         evict_loop E n (tick (st\<lparr>rec_files := files, records := bt_remove (env_id v) (records st)\<rparr>))"
proof (cases "length (records st) > MAX_APPROVAL_RECORDS \<and> eviction_victim st \<noteq> None")
  case True
  then obtain v where v: "length (records st) > MAX_APPROVAL_RECORDS" "eviction_victim st = Some v"
    by blast
  obtain b files where rm: "remove_synced E (json_name (env_id v)) (rec_files st) st = (b, files)"
    by (cases "remove_synced E (json_name (env_id v)) (rec_files st) st")
  show thesis
  proof (cases b)
    case True
    then show thesis using v rm that(3) [OF v] by simp
  next
    case False
    then show thesis using v rm that(2) by simp
  qed
next
  case False
  then show thesis using that(1) by (cases "eviction_victim st") auto
qed

lemma record_frame_tick: "record_frame st (tick st)"
  by (rule record_frameI [where t = "Suc (ticks st)" and r = "records st" and f = "rec_files st"
        and i = "index_file st"]) (simp add: tick_def)

lemma record_frame_update: "record_frame st (tick (st\<lparr>rec_files := f, records := r\<rparr>))"
  by (rule record_frameI [where t = "Suc (ticks st)" and r = r and f = f and i = "index_file st"])
     (simp add: tick_def)

lemma evict_loop_frame: "record_frame st (snd (evict_loop E n st))"
proof (induction n arbitrary: st)
  case (Suc n)
  show ?case
    by (rule evict_loop_cases [of E n st])
       (simp_all only: snd_conv recf.le_refl record_frame_tick,
        blast intro: recf.le_trans [OF record_frame_update] Suc)
qed (simp add: recf.le_refl)

lemma write_index_frame: "record_frame st (snd (write_index E st))"
  unfolding write_index_def
  by (auto intro: record_frame_tick)
     (rule record_frameI [where t = "Suc (ticks st)" and r = "records st" and f = "rec_files st"
        and i = "(utc_now_rfc3339 E st, map index_entry_of (store_list st))"], simp add: tick_def)

section \<open>Eviction\<close>

text \<open>The only way a record disappears: it was terminal when it was evicted.\<close>

definition evicts_only ::
  "(string, approval_envelope) btree_map \<Rightarrow> (string, approval_envelope) btree_map \<Rightarrow> bool" where
  "evicts_only m m' \<longleftrightarrow>
     (\<forall>k. bt_get m' k = bt_get m k \<or>
          bt_get m' k = None \<and> (\<exists>e. bt_get m k = Some e \<and> is_terminal (env_status e)))"

lemma evicts_only_refl: "evicts_only m m"
  by (simp add: evicts_only_def)

lemma evicts_only_trans: "evicts_only a b \<Longrightarrow> evicts_only b c \<Longrightarrow> evicts_only a c"
  unfolding evicts_only_def
proof (intro allI)
  fix k
  assume "\<forall>k. bt_get b k = bt_get a k \<or>
      bt_get b k = None \<and> (\<exists>e. bt_get a k = Some e \<and> is_terminal (env_status e))"
    and "\<forall>k. bt_get c k = bt_get b k \<or>
      bt_get c k = None \<and> (\<exists>e. bt_get b k = Some e \<and> is_terminal (env_status e))"
  from this [THEN spec, of k] show "bt_get c k = bt_get a k \<or>
      bt_get c k = None \<and> (\<exists>e. bt_get a k = Some e \<and> is_terminal (env_status e))"
    by metis
qed

interpretation evo: state_order evicts_only
  by unfold_locales (rule evicts_only_refl, rule evicts_only_trans)

lemma victim_Some:
  assumes "store_ok st" "eviction_victim st = Some v"
  shows "bt_get (records st) (env_id v) = Some v" "is_terminal (env_status v)"
proof -
  have "v \<in> set (filter (\<lambda>e. is_terminal (env_status e)) (bt_values (records st)))"
    using assms(2) first_min_Some by (fastforce simp: eviction_victim_def)
  then have v: "v \<in> set (bt_values (records st))" "is_terminal (env_status v)" by auto
  then obtain k where "bt_get (records st) k = Some v"
    using assms(1) by (auto simp: store_ok_def bt_values_iff)
  with assms(1) show "bt_get (records st) (env_id v) = Some v" by (auto simp: store_ok_def)
  show "is_terminal (env_status v)" by (rule v(2))
qed

lemma store_ok_tick [simp]: "store_ok (tick st) = store_ok st"
  by (simp add: store_ok_def tick_def)

lemma records_tick [simp]: "records (tick st) = records st" "rec_files (tick st) = rec_files st"
  "grants (tick st) = grants st" "grant_files (tick st) = grant_files st"
  by (simp_all add: tick_def)

lemma remove_synced_True:
  assumes "remove_synced E n files st = (True, files')" "bt_ok files"
  shows "bt_ok files'" "bt_get files' j = (if j = n then None else bt_get files j)"
  using assms by (auto simp: remove_synced_def bt_ok_remove bt_get_remove split: if_splits)

lemma store_ok_remove:
  assumes "store_ok st" "remove_synced E n (rec_files st) st = (True, files)"
  shows "store_ok (st\<lparr>rec_files := files, records := bt_remove k (records st)\<rparr>)"
  using assms remove_synced_True(1) [OF assms(2)]
  by (auto simp: store_ok_def bt_ok_remove bt_get_remove split: if_splits)

lemma evict_loop_spec:
  assumes "store_ok st"
  shows "store_ok (snd (evict_loop E n st)) \<and>
    evicts_only (records st) (records (snd (evict_loop E n st)))"
  using assms
proof (induction n arbitrary: st)
  case (Suc n)
  show ?case
  proof (rule evict_loop_cases [of E n st])
    fix v files
    let ?s = "tick (st\<lparr>rec_files := files, records := bt_remove (env_id v) (records st)\<rparr>)"
    assume v: "eviction_victim st = Some v"
      and rm: "remove_synced E (json_name (env_id v)) (rec_files st) st = (True, files)"
      and eq: "evict_loop E (Suc n) st = evict_loop E n ?s"
    have "bt_ok (records st)" using Suc.prems by (simp add: store_ok_def)
    then have e1: "evicts_only (records st) (records ?s)"
      using victim_Some [OF Suc.prems v] by (simp add: evicts_only_def bt_get_remove)
    have "store_ok ?s" using store_ok_remove [OF Suc.prems rm] by simp
    then show ?thesis unfolding eq using Suc.IH evicts_only_trans [OF e1] by blast
  qed (use Suc.prems in \<open>simp_all add: evicts_only_refl\<close>)
qed (simp add: evicts_only_refl)

text \<open>The loop ends because the bound is met or only pending records are left, never for fuel.\<close>

lemma evict_loop_bound:
  assumes "store_ok st" "length (records st) \<le> MAX_APPROVAL_RECORDS + n"
    and "fst (evict_loop E n st)"
  shows "length (records (snd (evict_loop E n st))) \<le> MAX_APPROVAL_RECORDS \<or>
    (\<forall>e \<in> set (bt_values (records (snd (evict_loop E n st)))). env_status e = Pending)"
  using assms
proof (induction n arbitrary: st)
  case (Suc n)
  show ?case
  proof (rule evict_loop_cases [of E n st])
    assume r: "evict_loop E (Suc n) st = (True, st)"
      and c: "length (records st) \<le> MAX_APPROVAL_RECORDS \<or> eviction_victim st = None"
    have "eviction_victim st = None \<Longrightarrow> \<forall>e \<in> set (bt_values (records st)). env_status e = Pending"
      by (auto simp: eviction_victim_def filter_empty_conv is_terminal_def)
    with r c show ?thesis by auto
  next
    assume "evict_loop E (Suc n) st = (False, tick st)"
    with Suc.prems(3) show ?thesis by simp
  next
    fix v files
    let ?s = "tick (st\<lparr>rec_files := files, records := bt_remove (env_id v) (records st)\<rparr>)"
    assume v: "eviction_victim st = Some v"
      and rm: "remove_synced E (json_name (env_id v)) (rec_files st) st = (True, files)"
      and eq: "evict_loop E (Suc n) st = evict_loop E n ?s"
    have "Suc (length (records ?s)) = length (records st)"
      using victim_Some(1) [OF Suc.prems(1) v] by (simp add: length_bt_remove)
    then have "length (records ?s) \<le> MAX_APPROVAL_RECORDS + n" using Suc.prems(2) by simp
    moreover have "store_ok ?s" using store_ok_remove [OF Suc.prems(1) rm] by simp
    ultimately show ?thesis using Suc.IH [of ?s] Suc.prems(3) eq by simp
  qed
qed simp

section \<open>Writing a record\<close>

lemma store_ok_bt:
  "store_ok st \<Longrightarrow> bt_ok (records st)" "store_ok st \<Longrightarrow> bt_ok (grants st)"
  "store_ok st \<Longrightarrow> bt_ok (rec_files st)" "store_ok st \<Longrightarrow> bt_ok (grant_files st)"
  by (simp_all add: store_ok_def)

lemma store_ok_id: "store_ok st \<Longrightarrow> bt_get (records st) k = Some e \<Longrightarrow> env_id e = k"
  by (simp add: store_ok_def)

lemma store_ok_valid:
  "store_ok st \<Longrightarrow> bt_get (records st) k = Some e \<Longrightarrow> validate_approval_schema (e_approval e) = Ok ()"
  by (simp add: store_ok_def)

lemma store_ok_grant_id: "store_ok st \<Longrightarrow> bt_get (grants st) k = Some g \<Longrightarrow> g_grant_id g = k"
  by (simp add: store_ok_def)

lemma store_ok_insert:
  assumes "store_ok st" "validate_approval_schema (e_approval env) = Ok ()"
  shows "store_ok (st\<lparr>rec_files := bt_insert n b (rec_files st),
      records := bt_insert (env_id env) env (records st)\<rparr>)"
  using assms unfolding store_ok_def by (simp add: bt_ok_insert bt_get_insert)

lemma store_ok_index [simp]: "store_ok (st\<lparr>index_file := i\<rparr>) = store_ok st"
  by (simp add: store_ok_def)

lemma store_ok_write_index [simp]: "store_ok (snd (write_index E st)) = store_ok st"
  "records (snd (write_index E st)) = records st" "rec_files (snd (write_index E st)) = rec_files st"
  by (simp_all add: write_index_def)

lemma put_cases:
  assumes "store_ok st" "put E env st = (r, st')"
  obtains (refused) "r \<noteq> Ok ()" "st' = st \<or> st' = tick st"
  | (stored) st1 ok where "validate_approval_schema (e_approval env) = Ok ()"
      "length (ser_envelope E env) \<le> APPROVAL_RECORD_MAX_BYTES"
      "st1 = tick (st\<lparr>rec_files := bt_insert (json_name (env_id env)) (ser_envelope E env) (rec_files st),
                     records := bt_insert (env_id env) env (records st)\<rparr>)"
      "records st' = records (snd (evict_if_needed E st1))"
      "rec_files st' = rec_files (snd (evict_if_needed E st1))"
      "store_ok st1" "store_ok st'" "r = Ok () \<Longrightarrow> fst (evict_if_needed E st1)"
proof (cases "validate_approval_schema (e_approval env) = Ok () \<and>
    length (ser_envelope E env) \<le> APPROVAL_RECORD_MAX_BYTES \<and> env_disk E (ticks st)")
  case True
  let ?s1 = "tick (st\<lparr>rec_files := bt_insert (json_name (env_id env)) (ser_envelope E env) (rec_files st),
      records := bt_insert (env_id env) env (records st)\<rparr>)"
  have ok1: "store_ok ?s1" using store_ok_insert [OF assms(1)] True by simp
  obtain b s2 where ev: "evict_if_needed E ?s1 = (b, s2)" by (cases "evict_if_needed E ?s1")
  have ok2: "store_ok s2" using evict_loop_spec [OF ok1] ev by (metis evict_if_needed_def snd_conv)
  obtain c s3 where ix: "write_index E s2 = (c, s3)" by (cases "write_index E s2")
  have s3: "records s3 = records s2" "rec_files s3 = rec_files s2" "store_ok s3"
    using store_ok_write_index [of E s2] ix ok2 by simp_all
  have p: "put E env st = (if b then if c then (Ok (), s3) else (Err StoreIo, s3) else (Err StoreIo, s2))"
    using True ev ix by (cases b; cases c) (simp_all add: put_def write_atomic_synced_def)
  show thesis
  proof (rule stored [of ?s1])
    show "records st' = records (snd (evict_if_needed E ?s1))"
      "rec_files st' = rec_files (snd (evict_if_needed E ?s1))" "store_ok st'"
      using assms(2) p s3 ok2 ev by (auto split: if_splits)
    show "r = Ok () \<Longrightarrow> fst (evict_if_needed E ?s1)" using assms(2) p ev by (auto split: if_splits)
  qed (use True ok1 in auto)
next
  case False
  then show thesis
    using assms(2) refused
    by (auto simp: put_def write_atomic_synced_def Let_def split: sum.splits if_splits)
qed

lemma put_store_ok:
  assumes "store_ok st"
  shows "store_ok (snd (put E env st))"
proof (cases "put E env st")
  case (Pair r st')
  from assms this show ?thesis by (rule put_cases) (use assms Pair in auto)
qed

text \<open>The two ways a write can leave the records: untouched, or inserted and then trimmed.\<close>

lemma put_records:
  assumes "store_ok st"
  shows "(records (snd (put E env st)) = records st \<and> fst (put E env st) \<noteq> Ok ()) \<or>
    (validate_approval_schema (e_approval env) = Ok () \<and>
     evicts_only (bt_insert (env_id env) env (records st)) (records (snd (put E env st))))"
proof (cases "put E env st")
  case (Pair r st')
  from assms this show ?thesis
  proof (rule put_cases)
    fix st1
    assume st1: "st1 = tick (st\<lparr>rec_files := bt_insert (json_name (env_id env)) (ser_envelope E env)
        (rec_files st), records := bt_insert (env_id env) env (records st)\<rparr>)"
      and v: "validate_approval_schema (e_approval env) = Ok ()"
      and r: "records st' = records (snd (evict_if_needed E st1))" and ok: "store_ok st1"
    have "evicts_only (records st1) (records st')"
      unfolding r evict_if_needed_def using evict_loop_spec [OF ok] by blast
    then show ?thesis using v Pair st1 by simp
  qed (use Pair in auto)
qed

lemma put_frame: "record_frame st (snd (put E env st))"
proof -
  have "record_frame st (tick (st\<lparr>rec_files := f, records := r\<rparr>))" for f r
    by (rule record_frame_update)
  then have e: "record_frame st (snd (evict_if_needed E (tick (st\<lparr>rec_files := f, records := r\<rparr>))))" for f r
    unfolding evict_if_needed_def using recf.le_trans evict_loop_frame by blast
  then have "record_frame st (snd (write_index E (snd (evict_if_needed E
      (tick (st\<lparr>rec_files := f, records := r\<rparr>))))))" for f r
    using recf.le_trans write_index_frame by blast
  then show ?thesis
    using e recf.le_refl [of st] record_frame_tick [of st]
    by (auto simp: put_def write_atomic_synced_def Let_def split: sum.splits prod.splits bool.splits)
       (metis snd_conv)+
qed

section \<open>Sweeping\<close>

text \<open>
  What a sweep at \<open>now\<close> may do to a record: nothing; expire it, if it was pending and lapsed; or
  evict it, if it was terminal or has just been expired.
\<close>

definition swept_at :: "nat \<Rightarrow> approval_envelope option \<Rightarrow> approval_envelope option \<Rightarrow> bool" where
  "swept_at now x y \<longleftrightarrow>
     y = x \<or>
     (case x of
        None \<Rightarrow> False
      | Some e \<Rightarrow>
          y = None \<and> is_terminal (env_status e) \<or>
          env_status e = Pending \<and> has_lapsed e now \<and> (y = None \<or> y = Some (set_status Expired e)))"

definition swept ::
  "nat \<Rightarrow> (string, approval_envelope) btree_map \<Rightarrow> (string, approval_envelope) btree_map \<Rightarrow> bool" where
  "swept now m m' \<longleftrightarrow> (\<forall>k. swept_at now (bt_get m k) (bt_get m' k))"

lemma env_id_set_status [simp]: "env_id (set_status x e) = env_id e"
  by (simp add: env_id_def set_status_def)

lemma env_status_set_status [simp]: "env_status (set_status x e) = x"
  by (simp add: env_status_def set_status_def)

lemma swept_refl: "swept now m m"
  by (simp add: swept_def swept_at_def)

lemma swept_at_trans: "swept_at now x y \<Longrightarrow> swept_at now y z \<Longrightarrow> swept_at now x z"
  by (auto simp: swept_at_def is_terminal_def split: option.splits)

lemma swept_trans: "swept now a b \<Longrightarrow> swept now b c \<Longrightarrow> swept now a c"
  unfolding swept_def using swept_at_trans by blast

interpretation swp: state_order "swept now" for now
  by unfold_locales (rule swept_refl, rule swept_trans)

text \<open>A write under key \<open>k\<close>, key by key.\<close>

lemma put_by_key:
  assumes "store_ok st" "env_id env = k"
  shows "(records (snd (put E env st)) = records st \<and> fst (put E env st) \<noteq> Ok ()) \<or>
    validate_approval_schema (e_approval env) = Ok () \<and>
    (bt_get (records (snd (put E env st))) k = Some env \<or>
     bt_get (records (snd (put E env st))) k = None \<and> is_terminal (env_status env)) \<and>
    (\<forall>j. j \<noteq> k \<longrightarrow> bt_get (records (snd (put E env st))) j = bt_get (records st) j \<or>
       bt_get (records (snd (put E env st))) j = None \<and>
       (\<exists>f. bt_get (records st) j = Some f \<and> is_terminal (env_status f)))"
proof -
  let ?m' = "records (snd (put E env st))"
  have get: "bt_get (bt_insert k env (records st)) j = (if j = k then Some env else bt_get (records st) j)"
    for j using store_ok_bt(1) [OF assms(1)] by (rule bt_get_insert)
  show ?thesis
  proof (cases "?m' = records st \<and> fst (put E env st) \<noteq> Ok ()")
    case False
    with put_records [OF assms(1), of E env] assms(2)
    have v: "validate_approval_schema (e_approval env) = Ok ()"
      and ev: "evicts_only (bt_insert k env (records st)) ?m'" by auto
    note at = ev [unfolded evicts_only_def, THEN spec]
    have "bt_get ?m' k = Some env \<or> bt_get ?m' k = None \<and> is_terminal (env_status env)"
      using at [of k] by (simp add: get)
    moreover have "bt_get ?m' j = bt_get (records st) j \<or>
        bt_get ?m' j = None \<and> (\<exists>f. bt_get (records st) j = Some f \<and> is_terminal (env_status f))"
      if "j \<noteq> k" for j using at [of j] that by (simp add: get)
    ultimately show ?thesis using v by blast
  qed blast
qed

lemma put_at:
  assumes "store_ok st" "env_id env = k"
  obtains (same) "records (snd (put E env st)) = records st" "fst (put E env st) \<noteq> Ok ()"
  | (written) "validate_approval_schema (e_approval env) = Ok ()"
      "bt_get (records (snd (put E env st))) k = Some env \<or>
       bt_get (records (snd (put E env st))) k = None \<and> is_terminal (env_status env)"
      "\<And>j. j \<noteq> k \<Longrightarrow> bt_get (records (snd (put E env st))) j = bt_get (records st) j \<or>
       bt_get (records (snd (put E env st))) j = None \<and>
       (\<exists>f. bt_get (records st) j = Some f \<and> is_terminal (env_status f))"
  using put_by_key [OF assms, of E]
proof (elim disjE, goal_cases)
  case 1
  then show ?case using same by simp
next
  case 2
  then show ?case using written by simp
qed

lemma put_expired:
  assumes "store_ok st" "bt_get (records st) k = Some e" "env_status e = Pending" "has_lapsed e now"
  shows "swept now (records st) (records (snd (put E (set_status Expired e) st)))"
proof -
  have "env_id (set_status Expired e) = k" using store_ok_id [OF assms(1,2)] by simp
  from assms(1) this show ?thesis
  proof (rule put_at [of _ _ _ E])
    let ?m' = "records (snd (put E (set_status Expired e) st))"
    assume k: "bt_get ?m' k = Some (set_status Expired e) \<or>
        bt_get ?m' k = None \<and> is_terminal (env_status (set_status Expired e))"
      and o: "\<And>j. j \<noteq> k \<Longrightarrow> bt_get ?m' j = bt_get (records st) j \<or> bt_get ?m' j = None \<and>
        (\<exists>f. bt_get (records st) j = Some f \<and> is_terminal (env_status f))"
    have "swept_at now (bt_get (records st) j) (bt_get ?m' j)" for j
    proof (cases "j = k")
      case True
      then show ?thesis using k assms(2,3,4) by (auto simp: swept_at_def)
    next
      case False
      from o [OF this] show ?thesis by (auto simp: swept_at_def)
    qed
    then show ?thesis by (simp add: swept_def)
  qed (simp add: swept_refl)
qed

lemma put_keeps_pending:
  assumes "store_ok st" "bt_get (records st) j = Some f" "env_status f = Pending" "env_id env \<noteq> j"
  shows "bt_get (records (snd (put E env st))) j = Some f"
  using assms(1) refl
proof (rule put_at [of _ _ _ E])
  assume "\<And>j. j \<noteq> env_id env \<Longrightarrow> bt_get (records (snd (put E env st))) j = bt_get (records st) j \<or>
       bt_get (records (snd (put E env st))) j = None \<and>
       (\<exists>f. bt_get (records st) j = Some f \<and> is_terminal (env_status f))"
  from this [of j] show ?thesis using assms by (auto simp: is_terminal_def)
qed (simp add: assms)

lemma sweep_step_simp:
  "bt_get (records st) i = Some e \<Longrightarrow>
   sweep_step E i (ex, st) =
     (ex @ (if fst (put E (set_status Expired e) st) = Ok () then [set_status Expired e] else []),
      snd (put E (set_status Expired e) st))"
  by (cases "put E (set_status Expired e) st") (auto simp: sweep_step_def split: sum.splits)

lemma sweep_fold:
  assumes "store_ok st" "distinct ids"
    and "\<forall>i \<in> set ids. \<exists>e. bt_get (records st) i = Some e \<and> env_status e = Pending \<and> has_lapsed e now"
    and "fold (sweep_step E) ids (ex, st) = (ex', st')"
  shows "store_ok st' \<and> swept now (records st) (records st') \<and> length ex' \<le> length ex + length ids \<and>
    (length ex' = length ex + length ids \<longrightarrow>
       (\<forall>i \<in> set ids. \<forall>e. bt_get (records st') i = Some e \<longrightarrow> env_status e = Expired))"
  using assms
proof (induction ids arbitrary: ex st)
  case (Cons i ids)
  obtain e where e: "bt_get (records st) i = Some e" "env_status e = Pending" "has_lapsed e now"
    using Cons.prems(3) by auto
  let ?r = "put E (set_status Expired e) st"
  let ?ex = "ex @ (if fst ?r = Ok () then [set_status Expired e] else [])"
  have idi: "env_id (set_status Expired e) = i" using store_ok_id [OF Cons.prems(1) e(1)] by simp
  have ok: "store_ok (snd ?r)" using Cons.prems(1) by (rule put_store_ok)
  have sw: "swept now (records st) (records (snd ?r))" by (rule put_expired [OF Cons.prems(1) e])
  have rest: "\<forall>j \<in> set ids. \<exists>f. bt_get (records (snd ?r)) j = Some f \<and> env_status f = Pending \<and> has_lapsed f now"
  proof
    fix j
    assume "j \<in> set ids"
    then obtain f where f: "bt_get (records st) j = Some f" "env_status f = Pending" "has_lapsed f now"
      using Cons.prems(3) by auto
    have "env_id (set_status Expired e) \<noteq> j" using \<open>j \<in> set ids\<close> Cons.prems(2) idi by auto
    from put_keeps_pending [OF Cons.prems(1) f(1,2) this] f
    show "\<exists>f. bt_get (records (snd ?r)) j = Some f \<and> env_status f = Pending \<and> has_lapsed f now" by blast
  qed
  have "fold (sweep_step E) ids (?ex, snd ?r) = (ex', st')"
    using Cons.prems(4) by (simp add: sweep_step_simp [OF e(1)])
  from Cons.IH [OF ok _ rest this] Cons.prems(2)
  have ih: "store_ok st'" "swept now (records (snd ?r)) (records st')"
    "length ex' \<le> length ?ex + length ids"
    "length ex' = length ?ex + length ids \<longrightarrow>
       (\<forall>i \<in> set ids. \<forall>e. bt_get (records st') i = Some e \<longrightarrow> env_status e = Expired)" by auto
  have here: "env_status f = Expired"
    if "fst ?r = Ok ()" "bt_get (records st') i = Some f" for f
  proof -
    have "bt_get (records (snd ?r)) i \<in> {None, Some (set_status Expired e)}"
      using put_by_key [OF Cons.prems(1) idi, of E] that(1) by auto
    moreover have "swept_at now (bt_get (records (snd ?r)) i) (Some f)"
      using ih(2) that(2) by (metis swept_def)
    ultimately show ?thesis by (auto simp: swept_at_def)
  qed
  show ?case
    using ih swept_trans [OF sw ih(2)] here by (auto split: if_splits)
qed (simp add: swept_refl)

lemma lapsed_ids_props:
  assumes "store_ok st"
  shows "distinct (lapsed_ids st now)"
    and "i \<in> set (lapsed_ids st now) \<longleftrightarrow>
      (\<exists>e. bt_get (records st) i = Some e \<and> env_status e = Pending \<and> has_lapsed e now)"
proof -
  have keyed: "(k, e) \<in> set (records st) \<Longrightarrow> env_id e = k" for k e
    using store_ok_id [OF assms] bt_entries_get [OF store_ok_bt(1) [OF assms]] by blast
  have "map env_id (bt_values (records st)) = map fst (records st)"
    unfolding bt_values_def map_map by (rule map_cong) (auto simp: keyed)
  then have "distinct (map env_id (bt_values (records st)))"
    using bt_ok_distinct [OF store_ok_bt(1) [OF assms]] by (simp only:)
  then show "distinct (lapsed_ids st now)"
    unfolding lapsed_ids_def by (rule distinct_map_filter)
  show "i \<in> set (lapsed_ids st now) \<longleftrightarrow>
      (\<exists>e. bt_get (records st) i = Some e \<and> env_status e = Pending \<and> has_lapsed e now)"
    using bt_values_iff [OF store_ok_bt(1) [OF assms]] store_ok_id [OF assms]
    unfolding lapsed_ids_def by (auto simp: image_iff)
qed

lemma sweep_spec:
  assumes "store_ok st" "sweep E now st = (ex, st')"
  shows "store_ok st'" "swept now (records st) (records st')"
    "length ex = length (lapsed_ids st now) \<Longrightarrow> bt_get (records st') k = Some e \<Longrightarrow>
       env_status e = Pending \<Longrightarrow> \<not> has_lapsed e now"
proof -
  have l: "\<forall>i \<in> set (lapsed_ids st now).
      \<exists>e. bt_get (records st) i = Some e \<and> env_status e = Pending \<and> has_lapsed e now"
    using lapsed_ids_props(2) [OF assms(1)] by blast
  note sf = sweep_fold [OF assms(1) lapsed_ids_props(1) [OF assms(1)] l, of E "[]" ex st']
  show "store_ok st'" and sw: "swept now (records st) (records st')"
    using sf assms(2) by (auto simp: sweep_def)
  show "\<not> has_lapsed e now" if all: "length ex = length (lapsed_ids st now)"
    and e: "bt_get (records st') k = Some e" "env_status e = Pending"
  proof
    assume lapsed: "has_lapsed e now"
    have "swept_at now (bt_get (records st) k) (Some e)" using sw e(1) by (metis swept_def)
    then have "bt_get (records st) k = Some e" using e(2) by (auto simp: swept_at_def split: option.splits)
    then have "k \<in> set (lapsed_ids st now)"
      using lapsed_ids_props(2) [OF assms(1)] lapsed e(2) by blast
    then have "env_status e = Expired" using sf assms(2) all e(1) by (auto simp: sweep_def)
    with e(2) show False by simp
  qed
qed

lemma sweep_step_frame: "record_frame (snd acc) (snd (sweep_step E i acc))"
proof (cases "bt_get (records (snd acc)) i")
  case None
  then show ?thesis by (simp add: sweep_step_def recf.le_refl)
next
  case (Some e)
  then show ?thesis
    using sweep_step_simp [of "snd acc" i e E "fst acc"] put_frame by (cases acc) simp
qed

lemma sweep_frame: "record_frame st (snd (sweep E now st))"
  using recf.fold_le [of "sweep_step E" "([], st)", OF sweep_step_frame] by (simp add: sweep_def)

section \<open>Grants\<close>

lemma grant_frame_tick: "grant_frame st (tick st)"
  unfolding grant_frame_def
  by (rule exI [of _ "Suc (ticks st)"], rule exI [of _ "grants st"], rule exI [of _ "grant_files st"])
     (simp add: tick_def)

lemma grant_frame_update: "grant_frame st (tick (st\<lparr>grants := g, grant_files := f\<rparr>))"
  unfolding grant_frame_def
  by (rule exI [of _ "Suc (ticks st)"], rule exI [of _ g], rule exI [of _ f]) (simp add: tick_def)

lemma put_grant_frame: "grant_frame st (snd (put_grant E g st))"
proof (cases "env_disk E (ticks st)")
  case True
  have "snd (put_grant E g st) = tick (st\<lparr>grants := bt_insert (g_grant_id g) g (grants st),
      grant_files := bt_insert (json_name (g_grant_id g)) (ser_grant E g) (grant_files st)\<rparr>)"
    using True by (simp add: put_grant_def write_atomic_synced_def)
  then show ?thesis by (simp only: grant_frame_update)
next
  case False
  then have "snd (put_grant E g st) = tick st" by (simp add: put_grant_def write_atomic_synced_def)
  then show ?thesis by (simp only: grant_frame_tick)
qed

lemma drop_grant_frame: "grant_frame st (snd (drop_grant E gid st))"
proof (cases "bt_get (grants st) gid")
  case None
  then show ?thesis by (simp add: drop_grant_def grantf.le_refl)
next
  case (Some g)
  have "grant_frame st (tick (st\<lparr>grants := a\<rparr>))" for a
    unfolding grant_frame_def
    by (rule exI [of _ "Suc (ticks st)"], rule exI [of _ a], rule exI [of _ "grant_files st"])
       (simp add: tick_def)
  with Some grant_frame_update show ?thesis
    by (auto simp: drop_grant_def Let_def split: prod.splits bool.splits)
qed

lemma drop_grant_grants: "grants (snd (drop_grant E gid st)) =
    (if bt_get (grants st) gid = None then grants st else bt_remove gid (grants st))"
  by (auto simp: drop_grant_def Let_def split: option.splits prod.splits bool.splits)

lemma drop_grant_store_ok:
  assumes "store_ok st"
  shows "store_ok (snd (drop_grant E gid st))"
proof (cases "bt_get (grants st) gid")
  case None
  then show ?thesis using assms by (simp add: drop_grant_def)
next
  case (Some g)
  let ?s = "snd (drop_grant E gid st)"
  have fr: "records ?s = records st" "rec_files ?s = rec_files st"
    using grant_frame_fields [OF drop_grant_frame, of E gid st] by simp_all
  have "bt_ok (grant_files ?s)"
    using Some store_ok_bt(4) [OF assms]
    by (auto simp: drop_grant_def Let_def remove_synced_def bt_ok_remove)
  moreover have g: "grants ?s = bt_remove gid (grants st)" using Some by (simp add: drop_grant_grants)
  ultimately show ?thesis
    using assms fr unfolding store_ok_def g
    by (simp add: bt_ok_remove bt_get_remove)
qed

lemma put_grant_store_ok: "store_ok st \<Longrightarrow> store_ok (snd (put_grant E g st))"
  unfolding store_ok_def put_grant_def write_atomic_synced_def
  by (cases "env_disk E (ticks st)") (simp_all add: tick_def bt_ok_insert bt_get_insert)

lemma live_grant_Some:
  assumes "store_ok st" "live_grant st uid cap now = Some g"
  shows "bt_get (grants st) (g_grant_id g) = Some g" "g_uid g = uid" "g_capability g = cap"
    "is_live g now"
proof -
  have g: "g \<in> set (bt_values (grants st))" "g_uid g = uid" "g_capability g = cap" "is_live g now"
    using last_max_Some [OF assms(2) [unfolded live_grant_def]] by auto
  then obtain k where "bt_get (grants st) k = Some g"
    using bt_values_iff [OF store_ok_bt(2) [OF assms(1)]] by blast
  with store_ok_grant_id [OF assms(1)] show "bt_get (grants st) (g_grant_id g) = Some g" by blast
  show "g_uid g = uid" "g_capability g = cap" "is_live g now" using g by simp_all
qed

lemma live_grant_None:
  assumes "store_ok st" "live_grant st uid cap now = None"
  shows "bt_get (grants st) k = Some g \<Longrightarrow> g_uid g = uid \<Longrightarrow> g_capability g = cap \<Longrightarrow> \<not> is_live g now"
  using assms(2) bt_values_iff [OF store_ok_bt(2) [OF assms(1)], of g]
  by (auto simp: live_grant_def filter_empty_conv)

lemma bt_remove_absent: "bt_get m k = None \<Longrightarrow> bt_remove k m = m"
  by (induction k m rule: bt_remove.induct) (auto simp: bt_get_def split: if_splits)

lemma sweep_grant_step_state:
  "snd (sweep_grant_step E gid acc) = snd (drop_grant E gid (snd acc))"
  by (auto simp: sweep_grant_step_def split: prod.splits sum.splits option.splits)

lemma sweep_grant_step_grants:
  "grants (snd (sweep_grant_step E gid acc)) = bt_remove gid (grants (snd acc))"
  by (simp add: sweep_grant_step_state drop_grant_grants bt_remove_absent)

lemma sweep_grants_fold:
  "grants (snd (fold (sweep_grant_step E) ids acc)) = fold bt_remove ids (grants (snd acc))"
  by (induction ids arbitrary: acc) (simp_all add: sweep_grant_step_grants)

lemma sweep_grants_frame: "grant_frame st (snd (sweep_grants E now st))"
  using grantf.fold_le [of "sweep_grant_step E" "([], st)"]
  by (simp add: sweep_grants_def sweep_grant_step_state drop_grant_frame)

lemma sweep_grants_store_ok:
  assumes "store_ok st"
  shows "store_ok (snd (sweep_grants E now st))"
proof -
  have fold_ok: "store_ok (snd acc) \<Longrightarrow> store_ok (snd (fold (sweep_grant_step E) ids acc))" for ids acc
    by (induction ids arbitrary: acc) (simp_all add: sweep_grant_step_state drop_grant_store_ok)
  show ?thesis unfolding sweep_grants_def by (rule fold_ok) (simp add: assms)
qed

lemma sweep_grants_get:
  assumes "store_ok st"
  shows "bt_get (grants (snd (sweep_grants E now st))) k =
    (case bt_get (grants st) k of None \<Rightarrow> None | Some g \<Rightarrow> if is_live g now then Some g else None)"
proof -
  let ?ids = "map g_grant_id (filter (\<lambda>g. \<not> is_live g now) (bt_values (grants st)))"
  have ok: "bt_ok (grants st)" using assms by (rule store_ok_bt)
  have "bt_get (grants (snd (sweep_grants E now st))) k =
      (if k \<in> set ?ids then None else bt_get (grants st) k)"
    unfolding sweep_grants_def sweep_grants_fold using btm.get_removes [OF ok] by simp
  moreover have "k \<in> set ?ids \<longleftrightarrow> (\<exists>g. bt_get (grants st) k = Some g \<and> \<not> is_live g now)"
    using bt_values_iff [OF ok] store_ok_grant_id [OF assms] by auto
  ultimately show ?thesis by (auto split: option.splits)
qed

section \<open>Crash recovery\<close>

text \<open>
  Documented behaviour of \<open>serde_json\<close> on the values that are stored: reading back gives the value.
\<close>

definition envelope_codec :: "'e store_env_scheme \<Rightarrow> approval_envelope set \<Rightarrow> bool" where
  "envelope_codec E A \<longleftrightarrow> (\<forall>e \<in> A. de_envelope E (ser_envelope E e) = Some e)"

text \<open>The record directory holds the records in memory and nothing else.\<close>

definition disk_agrees :: "'e store_env_scheme \<Rightarrow> 's approval_store_scheme \<Rightarrow> bool" where
  "disk_agrees E st \<longleftrightarrow>
     (\<forall>f t. bt_get (rec_files st) f = Some t \<longleftrightarrow>
        (\<exists>k e. f = json_name k \<and> bt_get (records st) k = Some e \<and> t = ser_envelope E e))"

lemma json_name_inject [simp]: "json_name a = json_name b \<longleftrightarrow> a = b"
  by (simp add: json_name_def)

lemma disk_agrees_tick [simp]: "disk_agrees E (tick st) = disk_agrees E st"
  by (simp add: disk_agrees_def)

lemma disk_agrees_insert:
  assumes "store_ok st" "disk_agrees E st"
  shows "disk_agrees E (st\<lparr>rec_files := bt_insert (json_name k) (ser_envelope E env) (rec_files st),
      records := bt_insert k env (records st)\<rparr>)"
  using assms(2) store_ok_bt(1,3) [OF assms(1)]
  by (auto simp: disk_agrees_def bt_get_insert)

lemma disk_agrees_remove:
  assumes "store_ok st" "disk_agrees E st"
    and "remove_synced E (json_name k) (rec_files st) st = (True, files)"
  shows "disk_agrees E (st\<lparr>rec_files := files, records := bt_remove k (records st)\<rparr>)"
  using assms(2) store_ok_bt(1) [OF assms(1)] remove_synced_True(2) [OF assms(3) store_ok_bt(3) [OF assms(1)]]
  by (auto simp: disk_agrees_def bt_get_remove)

lemma disk_agrees_evict:
  assumes "store_ok st" "disk_agrees E st"
  shows "disk_agrees E (snd (evict_loop E n st))"
  using assms
proof (induction n arbitrary: st)
  case (Suc n)
  show ?case
  proof (rule evict_loop_cases [of E n st])
    fix v files
    let ?s = "tick (st\<lparr>rec_files := files, records := bt_remove (env_id v) (records st)\<rparr>)"
    assume rm: "remove_synced E (json_name (env_id v)) (rec_files st) st = (True, files)"
      and eq: "evict_loop E (Suc n) st = evict_loop E n ?s"
    have "store_ok ?s" "disk_agrees E ?s"
      using store_ok_remove [OF Suc.prems(1) rm] disk_agrees_remove [OF Suc.prems rm] by simp_all
    then show ?thesis unfolding eq by (rule Suc.IH)
  qed (use Suc.prems in simp_all)
qed simp

lemma disk_agrees_put:
  assumes "store_ok st" "disk_agrees E st"
  shows "disk_agrees E (snd (put E env st))"
proof (cases "put E env st")
  case (Pair r st')
  from assms(1) this show ?thesis
  proof (rule put_cases)
    fix st1
    assume st1: "st1 = tick (st\<lparr>rec_files := bt_insert (json_name (env_id env)) (ser_envelope E env)
        (rec_files st), records := bt_insert (env_id env) env (records st)\<rparr>)"
      and ok: "store_ok st1" and r: "records st' = records (snd (evict_if_needed E st1))"
        "rec_files st' = rec_files (snd (evict_if_needed E st1))"
    have "disk_agrees E st1" unfolding st1 using disk_agrees_insert [OF assms] by simp
    from disk_agrees_evict [OF ok this] show ?thesis
      using r Pair by (simp add: disk_agrees_def evict_if_needed_def)
  qed (use assms Pair in auto)
qed

text \<open>Reading a directory back, for any decoder whose files are named after the key they decode to.\<close>

lemma load_get:
  assumes "distinct (map fst files)"
    and "\<forall>(f, t) \<in> set files. \<exists>k v. f = json_name k \<and> dec t = Some v \<and> key v = k \<and> \<not> skip f"
  shows "bt_ok (foldl (\<lambda>m f. if skip (fst f) then m
           else (case dec (snd f) of Some v \<Rightarrow> bt_insert (key v) v m | None \<Rightarrow> m)) [] files) \<and>
    bt_get (foldl (\<lambda>m f. if skip (fst f) then m
           else (case dec (snd f) of Some v \<Rightarrow> bt_insert (key v) v m | None \<Rightarrow> m)) [] files) k =
      Option.bind (map_of files (json_name k)) dec"
  using assms
proof (induction files rule: rev_induct)
  case Nil
  show ?case by (simp add: bt_get_def)
next
  case (snoc x xs)
  obtain k0 t v where x: "x = (json_name k0, t)" "dec t = Some v" "key v = k0" "\<not> skip (json_name k0)"
    using snoc.prems(2) by (cases x) auto
  let ?M = "foldl (\<lambda>m f. if skip (fst f) then m
      else (case dec (snd f) of Some v \<Rightarrow> bt_insert (key v) v m | None \<Rightarrow> m)) [] xs"
  have ih: "bt_ok ?M" "bt_get ?M k = Option.bind (map_of xs (json_name k)) dec"
    using snoc by auto
  have "json_name k0 \<notin> fst ` set xs" using snoc.prems(1) x(1) by auto
  then have "map_of xs (json_name k0) = None" by (simp add: map_of_eq_None_iff)
  then show ?case using ih x by (auto simp: bt_ok_insert bt_get_insert map_add_def split: option.splits)
qed

lemma is_json_file_name [simp]: "is_json_file (json_name k) \<longleftrightarrow> k \<noteq> []"
proof -
  have "strip_suffix ''.json'' (json_name k) = Some k"
    by (simp add: strip_suffix_Some_iff json_name_def)
  then show ?thesis by (simp add: is_json_file_def)
qed

lemma valid_id_not_index:
  "validate_approval_schema a = Ok () \<Longrightarrow>
     json_name (approval_id a) \<noteq> ''index.json'' \<and> approval_id a \<noteq> []"
  by (auto simp: approval_valid_iff prefixed_id_iff json_name_def APPROVAL_ID_PREFIX_def)

lemma load_records_get:
  assumes "store_ok st" "disk_agrees E st" "envelope_codec E (set (bt_values (records st)))"
  shows "bt_get (load_records E (rec_files st)) k = bt_get (records st) k"
proof -
  have codec: "bt_get (records st) i = Some e \<Longrightarrow> de_envelope E (ser_envelope E e) = Some e" for i e
    using assms(3) bt_values_iff [OF store_ok_bt(1) [OF assms(1)]] unfolding envelope_codec_def by blast
  have files: "\<exists>k v. f = json_name k \<and> de_envelope E t = Some v \<and> env_id v = k \<and>
      \<not> (\<not> is_json_file f \<or> f = ''index.json'')"
    if "(f, t) \<in> set (rec_files st)" for f t
  proof -
    have "bt_get (rec_files st) f = Some t"
      using that bt_entries_get [OF store_ok_bt(3) [OF assms(1)]] by blast
    then obtain i e where ie: "f = json_name i" "bt_get (records st) i = Some e" "t = ser_envelope E e"
      using assms(2) by (auto simp: disk_agrees_def)
    have "env_id e = i" "json_name i \<noteq> ''index.json''" "i \<noteq> []"
      using store_ok_id [OF assms(1) ie(2)] valid_id_not_index [OF store_ok_valid [OF assms(1) ie(2)]]
      by (simp_all add: env_id_def)
    with ie codec [OF ie(2)] show ?thesis by simp
  qed
  have "bt_get (load_records E (rec_files st)) k = Option.bind (map_of (rec_files st) (json_name k)) (de_envelope E)"
    unfolding load_records_def
    by (rule load_get [where skip = "\<lambda>f. \<not> is_json_file f \<or> f = ''index.json''", THEN conjunct2])
       (use files bt_ok_distinct [OF store_ok_bt(3) [OF assms(1)]] in auto)
  also have "\<dots> = bt_get (records st) k"
  proof (cases "bt_get (records st) k")
    case (Some e)
    then have "bt_get (rec_files st) (json_name k) = Some (ser_envelope E e)"
      using assms(2) by (auto simp: disk_agrees_def)
    then show ?thesis using Some codec by (simp add: bt_get_def)
  next
    case None
    then have "bt_get (rec_files st) (json_name k) = None"
      using assms(2) by (cases "bt_get (rec_files st) (json_name k)") (auto simp: disk_agrees_def)
    then show ?thesis using None by (simp add: bt_get_def)
  qed
  finally show ?thesis .
qed

text \<open>A grant whose file outlives it in memory comes back when the directory is read again.\<close>

definition grant_files_named :: "'e store_env_scheme \<Rightarrow> (string, string) btree_map \<Rightarrow> bool" where
  "grant_files_named E files \<longleftrightarrow>
     (\<forall>(f, t) \<in> set files.
        \<exists>g. de_grant E t = Some g \<and> f = json_name (g_grant_id g) \<and> g_grant_id g \<noteq> [])"

lemma load_grants_get:
  assumes "bt_ok files" "grant_files_named E files"
  shows "bt_get (load_grants E files) k = Option.bind (bt_get files (json_name k)) (de_grant E)"
proof -
  have "\<forall>(f, t) \<in> set files. \<exists>k v. f = json_name k \<and> de_grant E t = Some v \<and> g_grant_id v = k \<and>
      \<not> \<not> is_json_file f"
    using assms(2) by (fastforce simp: grant_files_named_def)
  from load_get [OF bt_ok_distinct [OF assms(1)] this, THEN conjunct2]
  show ?thesis by (simp add: load_grants_def bt_get_def)
qed

section \<open>Properties\<close>

definition demo_envelope :: "string \<Rightarrow> approval_status \<Rightarrow> approval_envelope" where
  "demo_envelope aid s =
     \<lparr>e_v = 1,
      e_approval = \<lparr>approval_id = aid, a_requester = \<lparr>rq_kind = AiAgent, rq_id = ''ses_1''\<rparr>,
        a_user = ''alice'', a_capability = ''system.dns'', a_resource = ''system.dns'',
        a_reason = ''why'', a_risk = Medium, a_status = s, a_expires_at = ''2026-08-24T12:00:00Z''\<rparr>,
      e_kind = CapabilitySet, e_created_at = ''2026-08-24T11:58:00Z'',
      e_request = \<lparr>req_method = ''capabilities.set'', req_params = JNull\<rparr>, e_requester_peer = None,
      e_policy = \<lparr>pc_name = ''p'', pc_policy_id = POLICY_PERSONAL_DEFAULTS\<rparr>, e_contract = ''c'',
      e_resolved_at = None, e_resolved_by = None, e_consumed_at = None, e_execution = None\<rparr>"

definition demo_grant :: "string \<Rightarrow> grant" where
  "demo_grant gid =
     \<lparr>g_v = 1, g_grant_id = gid, g_approval_id = ''apr_1'', g_uid = 1000, g_user = ''alice'',
      g_capability = ''system.dns'', g_reason = ''why'', g_granted_at = ''2026-08-24T11:58:00Z'',
      g_expires_at = ''2026-08-24T12:28:00Z'', g_revoked_at = None\<rparr>"

text \<open>A codec of the demo values: the first letter is the status, the rest is the identifier.\<close>

definition demo_store_env :: store_env where
  "demo_store_env =
     \<lparr>env_clock = (\<lambda>_. 1767225600000), env_disk = (\<lambda>_. True),
      env_urandom = (\<lambda>t n. Some (replicate n (t mod 256))), env_cgroup = (\<lambda>_ _. None),
      env_passwd = (\<lambda>_. None), ser_event = (\<lambda>e. unwrap_or (ev_resource e) []),
      de_event = (\<lambda>s. Some (demo_event s)), env_append = (\<lambda>_. None), env_rotate = (\<lambda>_. Rotated),
      rotate_bytes = 100,
      ser_envelope = (\<lambda>e. (if env_status e = Pending then CHR ''p'' else CHR ''e'') # env_id e),
      de_envelope = (\<lambda>s. if s = [] then None
        else Some (demo_envelope (tl s) (if hd s = CHR ''p'' then Pending else Expired))),
      ser_grant = g_grant_id, de_grant = (\<lambda>s. Some (demo_grant s))\<rparr>"

definition demo_store :: "approval_envelope list \<Rightarrow> grant list \<Rightarrow> approval_store" where
  "demo_store es gs =
     \<lparr>ticks = 0, event_counter = 0, trail_live = [], trail_rotated = [], trail_detached = False, audit_events = 0,
      records = map (\<lambda>e. (env_id e, e)) es, grants = map (\<lambda>g. (g_grant_id g, g)) gs,
      rec_files = map (\<lambda>e. (json_name (env_id e), ser_envelope demo_store_env e)) es,
      grant_files = map (\<lambda>g. (json_name (g_grant_id g), ser_grant demo_store_env g)) gs,
      index_file = ([], []), summary_file = None\<rparr>"

text \<open>
  C25. Storing a record never loses an open question. Whatever \<open>put\<close> returns, the store stays
  well-formed and every other pending record is still there unchanged; when it reports success the
  record just written is there if it is pending, and the store is back inside
  \<open>MAX_APPROVAL_RECORDS\<close> unless nothing but pending records is left to evict.
\<close>

theorem put_bounded_keeps_pending:
  assumes "store_ok st" "put E env st = (r, st')"
  shows "store_ok st' \<and>
    (\<forall>k e. k \<noteq> env_id env \<and> bt_get (records st) k = Some e \<and> env_status e = Pending \<longrightarrow>
       bt_get (records st') k = Some e) \<and>
    (r = Ok () \<and> env_status env = Pending \<longrightarrow> bt_get (records st') (env_id env) = Some env) \<and>
    (r = Ok () \<longrightarrow> length (records st') \<le> MAX_APPROVAL_RECORDS \<or>
       (\<forall>e \<in> set (bt_values (records st')). env_status e = Pending))"
proof (intro conjI)
  show "store_ok st'" using put_store_ok [OF assms(1), of E env] assms(2) by simp
  show "\<forall>k e. k \<noteq> env_id env \<and> bt_get (records st) k = Some e \<and> env_status e = Pending \<longrightarrow>
      bt_get (records st') k = Some e"
    using put_keeps_pending [OF assms(1), of _ _ env E] assms(2) by auto
  show "r = Ok () \<and> env_status env = Pending \<longrightarrow> bt_get (records st') (env_id env) = Some env"
    using put_by_key [OF assms(1) refl, of E env] assms(2) by (auto simp: is_terminal_def)
  show "r = Ok () \<longrightarrow> length (records st') \<le> MAX_APPROVAL_RECORDS \<or>
      (\<forall>e \<in> set (bt_values (records st')). env_status e = Pending)"
    using assms
  proof (rule put_cases)
    fix st1
    assume "store_ok st1" "records st' = records (snd (evict_if_needed E st1))"
      "r = Ok () \<Longrightarrow> fst (evict_if_needed E st1)"
    then show ?thesis
      using evict_loop_bound [of st1 "length (records st1)" E] by (auto simp: evict_if_needed_def)
  qed simp
qed

lemma demo_values [simp]:
  "env_id (demo_envelope i s) = i" "env_status (demo_envelope i s) = s" "g_grant_id (demo_grant j) = j"
  by (simp_all add: env_id_def env_status_def demo_envelope_def demo_grant_def)

lemma demo_stamps [simp]:
  "unix_seconds_from_rfc3339 ''2026-08-24T12:00:00Z'' = Some 1787572800"
  "unix_seconds_from_rfc3339 ''2026-08-24T12:28:00Z'' = Some 1787574480"
  by (simp_all add: stamp_eval)

lemma demo_lapses [simp]:
  "has_lapsed (demo_envelope i s) now \<longleftrightarrow> 1787572800 \<le> now"
  "is_live (demo_grant j) now \<longleftrightarrow> now < 1787574480"
  by (simp_all add: has_lapsed_def is_live_def demo_envelope_def demo_grant_def)

lemma bt_get_single: "bt_get [(a, b)] k = Some v \<longleftrightarrow> k = a \<and> b = v"
  by (auto simp: bt_get_def)

lemma demo_store_ok:
  "store_ok (demo_store [demo_envelope ''apr_aaaa1111'' Pending] [demo_grant ''grt_1''])"
proof -
  have "validate_approval_schema (e_approval (demo_envelope ''apr_aaaa1111'' Pending)) = Ok ()" by code_simp
  then show ?thesis
    by (simp add: store_ok_def demo_store_def bt_get_single bt_ok_Cons)
qed

theorem put_bounded_keeps_pending_witness:
  "bt_get (records (snd (put demo_store_env (demo_envelope ''apr_bbbb2222'' Pending)
       (demo_store [demo_envelope ''apr_aaaa1111'' Pending] [demo_grant ''grt_1'']))))
     ''apr_aaaa1111'' = Some (demo_envelope ''apr_aaaa1111'' Pending)"
proof -
  let ?st = "demo_store [demo_envelope ''apr_aaaa1111'' Pending] [demo_grant ''grt_1'']"
  let ?p = "put demo_store_env (demo_envelope ''apr_bbbb2222'' Pending) ?st"
  have "bt_get (records ?st) ''apr_aaaa1111'' = Some (demo_envelope ''apr_aaaa1111'' Pending)"
    by (simp add: demo_store_def bt_get_single)
  moreover have "''apr_aaaa1111'' \<noteq> env_id (demo_envelope ''apr_bbbb2222'' Pending)" by simp
  ultimately show ?thesis
    using put_bounded_keeps_pending [OF demo_store_ok prod.collapse [symmetric], of demo_store_env] demo_values(2)
    by blast
qed

text \<open>
  A sweep expires what has lapsed and nothing else. Afterwards every record is the one that was
  there or a lapsed pending one marked expired; every request that can still be answered is
  untouched; and when every write went through, no lapsed request is still pending.
\<close>

lemma sweep_expires_only_lapsed:
  assumes "store_ok st" "sweep E now st = (expired, st')"
  shows "store_ok st' \<and>
    (\<forall>k e'. bt_get (records st') k = Some e' \<longrightarrow>
       (\<exists>e. bt_get (records st) k = Some e \<and>
          (e' = e \<or> env_status e = Pending \<and> has_lapsed e now \<and> e' = set_status Expired e))) \<and>
    (\<forall>k e. bt_get (records st) k = Some e \<and> is_answerable e now \<longrightarrow> bt_get (records st') k = Some e) \<and>
    (length expired = length (lapsed_ids st now) \<longrightarrow>
       (\<forall>k e. bt_get (records st') k = Some e \<and> env_status e = Pending \<longrightarrow> \<not> has_lapsed e now))"
proof (intro conjI)
  note sw = sweep_spec [OF assms]
  have at: "swept_at now (bt_get (records st) k) (bt_get (records st') k)" for k
    using sw(2) by (simp add: swept_def)
  show "store_ok st'" by (rule sw(1))
  show "\<forall>k e'. bt_get (records st') k = Some e' \<longrightarrow>
       (\<exists>e. bt_get (records st) k = Some e \<and>
          (e' = e \<or> env_status e = Pending \<and> has_lapsed e now \<and> e' = set_status Expired e))"
  proof (intro allI impI)
    fix k e'
    assume "bt_get (records st') k = Some e'"
    with at [of k] show "\<exists>e. bt_get (records st) k = Some e \<and>
        (e' = e \<or> env_status e = Pending \<and> has_lapsed e now \<and> e' = set_status Expired e)"
      by (cases "bt_get (records st) k") (auto simp: swept_at_def)
  qed
  show "\<forall>k e. bt_get (records st) k = Some e \<and> is_answerable e now \<longrightarrow> bt_get (records st') k = Some e"
  proof (intro allI impI)
    fix k e
    assume "bt_get (records st) k = Some e \<and> is_answerable e now"
    with at [of k] show "bt_get (records st') k = Some e"
      by (auto simp: swept_at_def is_answerable_def is_terminal_def)
  qed
  show "length expired = length (lapsed_ids st now) \<longrightarrow>
       (\<forall>k e. bt_get (records st') k = Some e \<and> env_status e = Pending \<longrightarrow> \<not> has_lapsed e now)"
    using sw(3) by blast
qed

text \<open>
  A crash after any write loses nothing and invents nothing. If the record directory held exactly
  the records in memory, then after \<open>put\<close>, whether it succeeded or failed halfway, it still does, and
  a daemon restarted from the directory has the same record under every identifier.
\<close>

theorem restart_after_put_recovers:
  assumes "store_ok st" "disk_agrees E st" "put E env st = (r, st')"
    and "envelope_codec E (set (bt_values (records st')))"
  shows "disk_agrees E st' \<and> (\<forall>k. store_get (store_load E st') k = store_get st' k)"
proof -
  have st': "store_ok st'" "disk_agrees E st'"
    using put_store_ok [OF assms(1), of E env] disk_agrees_put [OF assms(1,2), of env] assms(3) by simp_all
  from load_records_get [OF this assms(4)] st'(2) show ?thesis
    by (simp add: store_get_def store_load_def)
qed

lemma demo_disk_agrees:
  "disk_agrees demo_store_env (demo_store [demo_envelope ''apr_aaaa1111'' Pending] [demo_grant ''grt_1''])"
  by (auto simp: disk_agrees_def demo_store_def bt_get_single)

lemma demo_codec:
  "envelope_codec demo_store_env (set [demo_envelope i Pending, demo_envelope j Pending])"
  by (simp add: envelope_codec_def demo_store_env_def)

theorem restart_after_put_recovers_witness:
  "store_get (store_load demo_store_env (snd (put demo_store_env (demo_envelope ''apr_bbbb2222'' Pending)
       (demo_store [demo_envelope ''apr_aaaa1111'' Pending] [demo_grant ''grt_1''])))) ''apr_bbbb2222''
     = Some (demo_envelope ''apr_bbbb2222'' Pending)"
proof -
  let ?st = "demo_store [demo_envelope ''apr_aaaa1111'' Pending] [demo_grant ''grt_1'']"
  let ?b = "demo_envelope ''apr_bbbb2222'' Pending"
  have "validate_approval_schema (e_approval ?b) = Ok ()" by code_simp
  then have r: "records (snd (put demo_store_env ?b ?st)) =
      [(''apr_aaaa1111'', demo_envelope ''apr_aaaa1111'' Pending), (''apr_bbbb2222'', ?b)]"
    by (simp add: put_def demo_store_def demo_store_env_def write_atomic_synced_def evict_if_needed_def
        write_index_def tick_def MAX_APPROVAL_RECORDS_def APPROVAL_RECORD_MAX_BYTES_def Let_def)
  have "envelope_codec demo_store_env (set (bt_values (records (snd (put demo_store_env ?b ?st)))))"
    using demo_codec [of "''apr_aaaa1111''" "''apr_bbbb2222''"] unfolding r by (simp add: bt_values_def)
  from restart_after_put_recovers [OF demo_store_ok demo_disk_agrees prod.collapse [symmetric] this]
  have "store_get (store_load demo_store_env (snd (put demo_store_env ?b ?st))) ''apr_bbbb2222'' =
      bt_get (records (snd (put demo_store_env ?b ?st))) ''apr_bbbb2222''"
    unfolding store_get_def [of "snd (put demo_store_env ?b ?st)", symmetric] by (elim conjE) (erule spec)
  then show ?thesis unfolding r by (simp only: bt_get_def) simp
qed

text \<open>
  C31. A revocation whose unlink fails is undone by a restart. \<open>drop_grant\<close> takes the grant out of
  memory before it removes the file; when the removal fails the caller sees an error, a retry finds
  nothing to drop, and loading the directory again brings the grant back.
\<close>

theorem failed_revocation_survives_restart:
  assumes "store_ok st" "bt_get (grants st) gid = Some g" "grant_files_named E (grant_files st)"
    and "bt_get (grant_files st) (json_name gid) = Some (ser_grant E g)"
    and "de_grant E (ser_grant E g) = Some g" "\<not> env_disk E (ticks st)"
    and "drop_grant E gid st = (r, st')"
  shows "r = Err StoreIo \<and> grant_by_id st' gid = None \<and> drop_grant E gid st' = (Ok None, st') \<and>
    grant_by_id (store_load E st') gid = Some g"
proof -
  have st': "r = Err StoreIo" "st' = tick (st\<lparr>grants := bt_remove gid (grants st)\<rparr>)"
    using assms(2,4,6,7) by (auto simp: drop_grant_def remove_synced_def Let_def)
  have gone: "bt_get (grants st') gid = None"
    using st'(2) bt_get_remove [OF store_ok_bt(2) [OF assms(1)]] by simp
  have "bt_get (load_grants E (grant_files st')) gid = Some g"
    using load_grants_get [OF store_ok_bt(4) [OF assms(1)] assms(3)] st'(2) assms(4,5) by simp
  then show ?thesis using st'(1) gone by (simp add: grant_by_id_def store_load_def drop_grant_def)
qed

theorem failed_revocation_survives_restart_witness:
  "let E = demo_store_env\<lparr>env_disk := (\<lambda>_. False)\<rparr>;
       st = demo_store [demo_envelope ''apr_aaaa1111'' Pending] [demo_grant ''grt_1''];
       st' = snd (drop_grant E ''grt_1'' st)
   in grant_by_id st' ''grt_1'' = None \<and> grant_by_id (store_load E st') ''grt_1'' = Some (demo_grant ''grt_1'')"
proof -
  let ?E = "demo_store_env\<lparr>env_disk := (\<lambda>_. False)\<rparr>"
  let ?st = "demo_store [demo_envelope ''apr_aaaa1111'' Pending] [demo_grant ''grt_1'']"
  have "bt_get (grants ?st) ''grt_1'' = Some (demo_grant ''grt_1'')"
    "grant_files_named ?E (grant_files ?st)"
    "bt_get (grant_files ?st) (json_name ''grt_1'') = Some (ser_grant ?E (demo_grant ''grt_1''))"
    "de_grant ?E (ser_grant ?E (demo_grant ''grt_1'')) = Some (demo_grant ''grt_1'')"
    "\<not> env_disk ?E (ticks ?st)"
    by (simp_all add: demo_store_def demo_store_env_def bt_get_single grant_files_named_def)
  from failed_revocation_survives_restart [OF demo_store_ok this prod.collapse [symmetric]]
  show ?thesis unfolding Let_def by blast
qed

end
