(* ===== verification/Effective_Policy.thy ===== *)
theory Effective_Policy
  imports Punar_Policy
begin

text \<open>
  \<open>crates/punard/src/policy.rs\<close> over the ladder: flattening a desired-state payload into
  capability paths, the native application lifecycle decision, the local-administration opinion,
  and \<open>compute_effective\<close>, the document every other part of the daemon reads. The stores the
  daemon passes in (registry defaults, OS seeds, user preferences, administrator entries) are the
  lists of what they hold, in their iteration order.
\<close>

section \<open>Provenance of the built-in layers\<close>

definition DEVICE_ADMIN_RANK :: nat where
  "DEVICE_ADMIN_RANK = 4"

definition personal_os_default :: provenance where
  "personal_os_default =
     \<lparr>pv_kind = OsSecureDefault, pv_rank = the (fixed_rank OsSecureDefault),
      pv_policy_id = POLICY_PERSONAL_DEFAULTS, pv_source_name = ''OS default''\<rparr>"

definition personal_user_preference :: provenance where
  "personal_user_preference =
     \<lparr>pv_kind = LocalUserPreference, pv_rank = the (fixed_rank LocalUserPreference),
      pv_policy_id = POLICY_PERSONAL_DEFAULTS, pv_source_name = ''Personal preference''\<rparr>"

definition device_admin_override :: "string \<Rightarrow> provenance" where
  "device_admin_override policy_id =
     \<lparr>pv_kind = DeviceSpecificOverride, pv_rank = DEVICE_ADMIN_RANK,
      pv_policy_id = policy_id, pv_source_name = ''Device administrator''\<rparr>"

section \<open>Local administration\<close>

record local_admin_layer =
  la_provenance :: provenance
  la_allowed :: bool

definition resolve_local_admin :: "local_admin_layer list \<Rightarrow> local_admin_layer option" where
  "resolve_local_admin layers = first_min (\<lambda>l. pv_rank (la_provenance l)) layers"

datatype policy_error = PolicyEditingInvalid json

text \<open>\<open>payload.pointer("/spec/security/localAdmin")\<close>, then \<open>policyEditing\<close>.\<close>

definition extract_local_admin_policy ::
  "json \<Rightarrow> provenance \<Rightarrow> (policy_error, local_admin_layer option) result" where
  "extract_local_admin_policy payload prov =
     (case Option.bind (Option.bind (json_get payload ''spec'') (\<lambda>s. json_get s ''security''))
             (\<lambda>s. json_get s ''localAdmin'') of
        None \<Rightarrow> Ok None
      | Some section \<Rightarrow>
          (case json_get section ''policyEditing'' of
             None \<Rightarrow> Ok None
           | Some setting \<Rightarrow>
               (if json_str setting = Some ''allowed''
                then Ok (Some \<lparr>la_provenance = prov, la_allowed = True\<rparr>)
                else if json_str setting = Some ''denied''
                then Ok (Some \<lparr>la_provenance = prov, la_allowed = False\<rparr>)
                else Err (PolicyEditingInvalid setting))))"

section \<open>Application lifecycle policy\<close>

text \<open>
  The native half of an application layer; \<open>BTreeSet\<close> membership is list membership. Web
  applications (\<open>required_web_apps\<close>, \<open>denied_origins\<close>) are decided by a separate function.
\<close>

record application_policy_layer =
  ap_provenance :: provenance
  ap_required :: "string list"
  ap_denied :: "string list"
  ap_allow_user_install :: "bool option"

datatype application_policy_action = Install | Remove

datatype application_policy_reason =
    Required
  | RequiredWebApp
  | PolicyDenied
  | DeniedOrigin
  | UserInstallAllowed
  | UserInstallBlocked
  | NoManagedPolicy
  | UserRemovalAllowed

fun application_policy_reason_str :: "application_policy_reason \<Rightarrow> string" where
  "application_policy_reason_str Required = ''required''"
| "application_policy_reason_str RequiredWebApp = ''required_web_app''"
| "application_policy_reason_str PolicyDenied = ''denied''"
| "application_policy_reason_str DeniedOrigin = ''denied_origin''"
| "application_policy_reason_str UserInstallAllowed = ''user_install_allowed''"
| "application_policy_reason_str UserInstallBlocked = ''user_install_blocked''"
| "application_policy_reason_str NoManagedPolicy = ''no_managed_policy''"
| "application_policy_reason_str UserRemovalAllowed = ''user_removal_allowed''"

record application_policy_decision =
  ad_allowed :: bool
  ad_reason :: application_policy_reason
  ad_provenance :: "provenance option"

definition higher_precedence ::
  "application_policy_layer option \<Rightarrow> application_policy_layer
   \<Rightarrow> application_policy_layer option" where
  "higher_precedence current candidate =
     (case current of
        Some winner \<Rightarrow>
          (if pv_rank (ap_provenance winner) \<le> pv_rank (ap_provenance candidate)
           then Some winner else Some candidate)
      | None \<Rightarrow> Some candidate)"

text \<open>The two accumulation loops share this shape: layers with an opinion fold into the winner.\<close>

definition best_layer ::
  "(application_policy_layer \<Rightarrow> bool) \<Rightarrow> application_policy_layer list
   \<Rightarrow> application_policy_layer option" where
  "best_layer opinion layers =
     foldl (\<lambda>best l. if opinion l then higher_precedence best l else best) None layers"

definition evaluate_application_policy ::
  "application_policy_layer list \<Rightarrow> string \<Rightarrow> application_policy_action
   \<Rightarrow> application_policy_decision" where
  "evaluate_application_policy layers app_id action =
     (case best_layer (\<lambda>l. app_id \<in> set (ap_required l) \<or> app_id \<in> set (ap_denied l)) layers of
        Some layer \<Rightarrow>
          (case (action, app_id \<in> set (ap_required layer)) of
             (Install, True) \<Rightarrow>
               \<lparr>ad_allowed = True, ad_reason = Required, ad_provenance = Some (ap_provenance layer)\<rparr>
           | (Install, False) \<Rightarrow>
               \<lparr>ad_allowed = False, ad_reason = PolicyDenied, ad_provenance = Some (ap_provenance layer)\<rparr>
           | (Remove, True) \<Rightarrow>
               \<lparr>ad_allowed = False, ad_reason = Required, ad_provenance = Some (ap_provenance layer)\<rparr>
           | (Remove, False) \<Rightarrow>
               \<lparr>ad_allowed = True, ad_reason = UserRemovalAllowed,
                ad_provenance = Some (ap_provenance layer)\<rparr>)
      | None \<Rightarrow>
          (if action = Remove
           then \<lparr>ad_allowed = True, ad_reason = UserRemovalAllowed, ad_provenance = None\<rparr>
           else
             (case best_layer (\<lambda>l. ap_allow_user_install l \<noteq> None) layers of
                Some layer \<Rightarrow>
                  (if ap_allow_user_install layer = Some True
                   then \<lparr>ad_allowed = True, ad_reason = UserInstallAllowed,
                         ad_provenance = Some (ap_provenance layer)\<rparr>
                   else \<lparr>ad_allowed = False, ad_reason = UserInstallBlocked,
                         ad_provenance = Some (ap_provenance layer)\<rparr>)
              | None \<Rightarrow>
                  \<lparr>ad_allowed = False, ad_reason = NoManagedPolicy, ad_provenance = None\<rparr>)))"

section \<open>Flattening a desired state\<close>

record flattened_spec =
  fs_mapped :: "(string \<times> json) list"
  fs_unmapped :: "string list"

definition fs_map :: "string \<Rightarrow> json \<Rightarrow> flattened_spec \<Rightarrow> flattened_spec" where
  "fs_map p v f = f\<lparr>fs_mapped := fs_mapped f @ [(p, v)]\<rparr>"

definition fs_skip :: "string \<Rightarrow> flattened_spec \<Rightarrow> flattened_spec" where
  "fs_skip p f = f\<lparr>fs_unmapped := fs_unmapped f @ [p]\<rparr>"

definition flatten_security :: "flattened_spec \<Rightarrow> string \<times> json \<Rightarrow> flattened_spec" where
  "flatten_security flat kv =
     (case Option.bind (json_get (snd kv) ''enabled'') json_bool of
        Some enabled \<Rightarrow>
          (if fst kv = ''firewall''
           then fs_map ''security.firewall'' (JStr (if enabled then ''enabled'' else ''disabled'')) flat
           else if fst kv = ''localAdmin'' then flat
           else fs_skip (''spec.security.'' @ fst kv) flat)
      | None \<Rightarrow>
          (if fst kv = ''localAdmin'' then flat
           else fs_skip (''spec.security.'' @ fst kv) flat))"

definition flatten_update :: "flattened_spec \<Rightarrow> string \<times> json \<Rightarrow> flattened_spec" where
  "flatten_update flat kv =
     (case json_str (snd kv) of
        Some channel \<Rightarrow>
          (if fst kv = ''channel'' then fs_map ''system.update_channel'' (JStr channel) flat
           else fs_skip (''spec.update.'' @ fst kv) flat)
      | None \<Rightarrow> fs_skip (''spec.update.'' @ fst kv) flat)"

definition flatten_section :: "flattened_spec \<Rightarrow> string \<times> json \<Rightarrow> flattened_spec" where
  "flatten_section flat kv =
     (case json_obj (snd kv) of
        Some body \<Rightarrow>
          (if fst kv = ''security'' then foldl flatten_security flat body
           else if fst kv = ''applications'' \<or> fst kv = ''browser'' then flat
           else if fst kv = ''update'' then foldl flatten_update flat body
           else fs_skip (''spec.'' @ fst kv) flat)
      | None \<Rightarrow> fs_skip (''spec.'' @ fst kv) flat)"

definition flatten_desired_state :: "json \<Rightarrow> flattened_spec" where
  "flatten_desired_state document =
     (case Option.bind (json_get document ''spec'') json_obj of
        None \<Rightarrow> \<lparr>fs_mapped = [], fs_unmapped = [''(document without spec object)'']\<rparr>
      | Some spec \<Rightarrow> foldl flatten_section \<lparr>fs_mapped = [], fs_unmapped = []\<rparr> spec)"

section \<open>The effective document\<close>

type_synonym layer = "string \<times> json layer_value"

record admin_entry =
  ae_value :: json
  ae_set_at :: string
  ae_set_by :: string
  ae_reason :: string

record effective_document =
  ed_computed_at :: string
  ed_entries :: "(string, json effective_entry) btree_map"

definition effective_get :: "effective_document \<Rightarrow> string \<Rightarrow> json effective_entry option" where
  "effective_get doc path = bt_get (ed_entries doc) path"

definition auto_layer :: "string \<Rightarrow> json \<Rightarrow> provenance \<Rightarrow> layer" where
  "auto_layer path v prov =
     (path, \<lparr>lv_value = v, lv_provenance = prov, lv_classification = AutoRemediate\<rparr>)"

definition os_default_layer ::
  "(string \<Rightarrow> json option) \<Rightarrow> string \<times> json option \<Rightarrow> layer" where
  "os_default_layer os_defaults cap =
     auto_layer (fst cap)
       (case snd cap of
          Some v \<Rightarrow> v
        | None \<Rightarrow> unwrap_or (os_defaults (fst cap)) (JStr ''unknown''))
       personal_os_default"

definition admin_layer :: "string \<times> admin_entry \<Rightarrow> layer" where
  "admin_layer e =
     auto_layer (fst e) (ae_value (snd e))
       (device_admin_override (''device-admin/'' @ ae_set_by (snd e)))"

definition compute_effective ::
  "(string \<times> json option) list \<Rightarrow> (string \<Rightarrow> json option) \<Rightarrow> (string, json) btree_map
   \<Rightarrow> (string, admin_entry) btree_map \<Rightarrow> layer list \<Rightarrow> string \<Rightarrow> effective_document" where
  "compute_effective registry os_defaults preferences admin_policy org_layers computed_at =
     \<lparr>ed_computed_at = computed_at,
      ed_entries = merge
        (map (os_default_layer os_defaults) registry
          @ map (\<lambda>e. auto_layer (fst e) (snd e) personal_user_preference) preferences
          @ org_layers
          @ map admin_layer admin_policy)\<rparr>"

section \<open>Lemmas\<close>

lemma best_layer_first_min:
  "best_layer opinion layers =
     first_min (\<lambda>l. pv_rank (ap_provenance l)) (filter opinion layers)"
  by (induction layers rule: rev_induct)
     (simp_all add: best_layer_def first_min_snoc higher_precedence_def split: option.splits)

lemma best_layer_Some:
  "best_layer opinion layers = Some l \<Longrightarrow>
   l \<in> set layers \<and> opinion l \<and>
   (\<forall>m \<in> set layers. opinion m \<longrightarrow> pv_rank (ap_provenance l) \<le> pv_rank (ap_provenance m))"
  using first_min_Some [of "\<lambda>l. pv_rank (ap_provenance l)" "filter opinion layers" l]
  by (simp add: best_layer_first_min)

lemma best_layer_None: "best_layer opinion layers = None \<longleftrightarrow> (\<forall>l \<in> set layers. \<not> opinion l)"
  by (simp add: best_layer_first_min filter_empty_conv)

lemmas layer_defs = auto_layer_def os_default_layer_def admin_layer_def personal_os_default_def
  personal_user_preference_def device_admin_override_def DEVICE_ADMIN_RANK_def

lemma fst_auto_layer [simp]: "fst (auto_layer p v prov) = p"
  by (simp add: auto_layer_def)

lemma fst_os_default_layer [simp]: "fst (os_default_layer d cap) = fst cap"
  by (simp add: os_default_layer_def)

lemma fst_admin_layer [simp]: "fst (admin_layer e) = fst e"
  by (simp add: admin_layer_def)

lemma bt_filter_key:
  "bt_ok m \<Longrightarrow> filter (\<lambda>e. fst e = p) m = (case bt_get m p of None \<Rightarrow> [] | Some v \<Rightarrow> [(p, v)])"
proof (induction m)
  case (Cons kv m)
  obtain k v where kv: "kv = (k, v)" by (cases kv)
  have "k \<notin> fst ` set m" using Cons.prems kv by (auto simp: bt_ok_Cons)
  then have "k = p \<Longrightarrow> filter (\<lambda>e. fst e = p) m = []" by (auto simp: filter_empty_conv)
  then show ?case using Cons kv by (auto simp: bt_get_def bt_ok_Cons)
qed (simp add: bt_get_def)

text \<open>
  The cascade the ladder amounts to once the daemon's own layers are pushed in order: an
  organization entry of rank at most 4 decides; else the administrator; else the user; else an
  organization entry of rank at most 5; else the OS default of a registered capability; else whatever
  organization entry is left.
\<close>

definition org_at :: "(nat \<Rightarrow> bool) \<Rightarrow> layer list \<Rightarrow> string \<Rightarrow> (policy_source \<times> json layer_value) list" where
  "org_at P org p = candidates_at (filter (\<lambda>l. P (pv_rank (lv_provenance (snd l)))) org) p"

definition effective_cascade ::
  "(string \<times> json option) list \<Rightarrow> (string \<Rightarrow> json option) \<Rightarrow> (string, json) btree_map
   \<Rightarrow> (string, admin_entry) btree_map \<Rightarrow> layer list \<Rightarrow> string \<Rightarrow> json layer_value option" where
  "effective_cascade registry os_defaults preferences admin_policy org p =
     (case resolve (org_at (\<lambda>k. k \<le> 4) org p) of
        Some r \<Rightarrow> Some (r_value r)
      | None \<Rightarrow> (case bt_get admin_policy p of
          Some e \<Rightarrow> Some (snd (admin_layer (p, e)))
        | None \<Rightarrow> (case bt_get preferences p of
            Some v \<Rightarrow> Some (snd (auto_layer p v personal_user_preference))
          | None \<Rightarrow> (case resolve (org_at (\<lambda>k. k \<le> 5) org p) of
              Some r \<Rightarrow> Some (r_value r)
            | None \<Rightarrow> (case find (\<lambda>c. fst c = p) registry of
                Some cap \<Rightarrow> Some (snd (os_default_layer os_defaults cap))
              | None \<Rightarrow> map_option r_value (resolve (candidates_at org p)))))))"

lemma resolve_restrict:
  assumes "resolve xs = Some r" "P (r_source r)" "\<And>a b. P a \<Longrightarrow> a \<le> b \<Longrightarrow> P b"
  shows "resolve (filter (\<lambda>x. P (fst x)) xs) = Some r"
proof -
  obtain ys zs where w: "xs = ys @ (r_source r, r_value r) # zs"
    "\<forall>y \<in> set ys. fst y < r_source r" "\<forall>z \<in> set zs. fst z \<le> r_source r"
    using resolve_winner [OF assms(1)] by blast
  have "resolve (filter (\<lambda>x. P (fst x)) xs) = Some \<lparr>r_value = r_value r, r_source = r_source r\<rparr>"
    by (rule winner_unique [of _ "filter (\<lambda>x. P (fst x)) ys" _ _ "filter (\<lambda>x. P (fst x)) zs"])
       (use w assms(2) in auto)
  then show ?thesis by simp
qed

lemma org_at_filter:
  assumes "\<And>k. P k \<longleftrightarrow> Q (policy_source_for_rank k)"
  shows "org_at P org p = filter (\<lambda>x. Q (fst x)) (candidates_at org p)"
  by (induction org) (auto simp: org_at_def candidates_at_def provenance_policy_source_def assms)

lemma rank_le_4_iff: "k \<le> 4 \<longleftrightarrow> TemporaryApprovedExceptionSource \<le> policy_source_for_rank k"
  by (auto simp: policy_source_for_rank_def source_order)

lemma rank_le_5_iff: "k \<le> 5 \<longleftrightarrow> UserPreference \<le> policy_source_for_rank k"
  by (auto simp: policy_source_for_rank_def source_order)

lemma resolve_const:
  "xs \<noteq> [] \<Longrightarrow> (\<forall>x \<in> set xs. fst x = s) \<Longrightarrow>
     resolve xs = Some \<lparr>r_value = snd (hd xs), r_source = s\<rparr>"
  by (rule winner_unique [of xs "[]" _ _ "tl xs"]) (cases xs; auto)+

lemma resolve_org_above:
  assumes "\<And>k. P k \<longleftrightarrow> s \<le> policy_source_for_rank k"
  shows "resolve (org_at P org p) =
    (case resolve (candidates_at org p) of
       Some r \<Rightarrow> if s \<le> r_source r then Some r else None | None \<Rightarrow> None)"
proof (cases "resolve (candidates_at org p)")
  case None
  then show ?thesis by (simp add: org_at_filter [of P "\<lambda>a. s \<le> a", OF assms])
next
  case (Some r)
  show ?thesis
  proof (cases "s \<le> r_source r")
    case True
    then show ?thesis
      using resolve_restrict [OF Some, of "\<lambda>a. s \<le> a"] Some by (auto simp: org_at_filter [of P "\<lambda>a. s \<le> a", OF assms])
  next
    case False
    then have "filter (\<lambda>x. s \<le> fst x) (candidates_at org p) = []"
      using resolve_is_max [OF Some] by (fastforce simp: filter_empty_conv)
    then show ?thesis using Some False by (simp add: org_at_filter [of P "\<lambda>a. s \<le> a", OF assms])
  qed
qed

lemma candidates_defaults:
  "resolve (candidates_at (map (os_default_layer d) registry) p) =
     map_option (\<lambda>c. \<lparr>r_value = snd (os_default_layer d c), r_source = OsDefault\<rparr>)
       (find (\<lambda>c. fst c = p) registry)"
proof -
  let ?xs = "candidates_at (map (os_default_layer d) registry) p"
  have xs: "?xs = map (\<lambda>c. (OsDefault, snd (os_default_layer d c))) (filter (\<lambda>c. fst c = p) registry)"
    by (induction registry)
       (simp_all add: candidates_at_def layer_defs provenance_policy_source_def policy_source_for_rank_def)
  have hd: "find (\<lambda>c. fst c = p) registry =
      (case filter (\<lambda>c. fst c = p) registry of [] \<Rightarrow> None | c # _ \<Rightarrow> Some c)"
    by (induction registry) auto
  show ?thesis
  proof (cases "filter (\<lambda>c. fst c = p) registry")
    case Nil
    then show ?thesis using xs hd by simp
  next
    case (Cons c cs)
    then show ?thesis using xs hd by (subst resolve_const [of _ OsDefault]) auto
  qed
qed

lemma resolve_singleton: "resolve [(s, v)] = Some \<lparr>r_value = v, r_source = s\<rparr>"
  by (simp add: resolve_def resolve_step_def)

lemma candidates_preferences:
  "bt_ok preferences \<Longrightarrow>
   resolve (candidates_at
     (map (\<lambda>e. auto_layer (fst e) (snd e) personal_user_preference) preferences) p) =
     map_option (\<lambda>v. \<lparr>r_value = snd (auto_layer p v personal_user_preference),
                        r_source = UserPreference\<rparr>) (bt_get preferences p)"
  using bt_filter_key [of preferences p]
  by (simp add: candidates_at_def filter_map comp_def provenance_policy_source_def policy_source_for_rank_def
      layer_defs resolve_singleton split: option.splits)

lemma candidates_admin:
  "bt_ok admin_policy \<Longrightarrow>
   resolve (candidates_at (map admin_layer admin_policy) p) =
     map_option (\<lambda>e. \<lparr>r_value = snd (admin_layer (p, e)),
                        r_source = TemporaryApprovedExceptionSource\<rparr>) (bt_get admin_policy p)"
  using bt_filter_key [of admin_policy p]
  by (simp add: candidates_at_def filter_map comp_def provenance_policy_source_def policy_source_for_rank_def
      layer_defs resolve_singleton split: option.splits)

section \<open>Properties\<close>

lemma effective_get_cascade:
  assumes "bt_ok preferences" "bt_ok admin_policy"
  shows "effective_get
      (compute_effective registry os_defaults preferences admin_policy org computed_at) p =
    map_option effective_of (effective_cascade registry os_defaults preferences admin_policy org p)"
proof -
  let ?D = "candidates_at (map (os_default_layer os_defaults) registry) p"
  let ?O = "candidates_at org p"
  have A: "resolve (org_at (\<lambda>k. k \<le> 4) org p) = (case resolve ?O of
      Some r \<Rightarrow> if TemporaryApprovedExceptionSource \<le> r_source r then Some r else None | None \<Rightarrow> None)"
    by (rule resolve_org_above [OF rank_le_4_iff])
  have U: "resolve (org_at (\<lambda>k. k \<le> 5) org p) = (case resolve ?O of
      Some r \<Rightarrow> if UserPreference \<le> r_source r then Some r else None | None \<Rightarrow> None)"
    by (rule resolve_org_above [OF rank_le_5_iff])
  show ?thesis
    unfolding effective_get_def compute_effective_def effective_cascade_def A U
    using assms
    by (cases "resolve ?O"; cases "bt_get admin_policy p"; cases "bt_get preferences p";
        cases "find (\<lambda>c. fst c = p) registry")
       (auto simp: merge_get candidates_at_append resolve_append candidates_defaults
         candidates_preferences candidates_admin source_order)
qed

text \<open>
  C11. The effective document is the decision cascade: an organization layer of rank at most 4 always
  decides, even against the administrator's equal rank 4 entry; the device administrator decides
  next and so displaces a user preference; then the preference decides, then an organization layer of
  rank 5, then the OS default, and an organization layer of rank 6 or more only where there is no
  default.
\<close>

theorem compute_effective_cascade:
  assumes "bt_ok preferences" "bt_ok admin_policy"
  shows "effective_get
      (compute_effective registry os_defaults preferences admin_policy org computed_at) p =
    map_option effective_of (effective_cascade registry os_defaults preferences admin_policy org p)"
  using assms by (rule effective_get_cascade)

text \<open>
  An administrator pins the host name against a user preference, and an organization exception of
  the administrator's own rank keeps the firewall.
\<close>

theorem compute_effective_cascade_witness:
  "let prov = \<lparr>pv_kind = TemporaryApprovedException, pv_rank = 4, pv_policy_id = ''exc'',
                pv_source_name = ''exc''\<rparr>;
       doc = compute_effective [(''security.firewall'', Some (JStr ''enabled''))] (\<lambda>_. None)
         [(''system.hostname'', JStr ''mine'')]
         [(''security.firewall'',
           \<lparr>ae_value = JStr ''disabled'', ae_set_at = ''t0'', ae_set_by = ''root'', ae_reason = ''lab''\<rparr>),
          (''system.hostname'',
           \<lparr>ae_value = JStr ''lab-7'', ae_set_at = ''t0'', ae_set_by = ''root'', ae_reason = ''lab''\<rparr>)]
         [auto_layer ''security.firewall'' (JStr ''enabled'') prov] ''t''
   in map_option ee_value (effective_get doc ''security.firewall'') = Some (JStr ''enabled'') \<and>
      map_option ee_value (effective_get doc ''system.hostname'') = Some (JStr ''lab-7'')"
  unfolding Let_def
  by (subst (1 2) compute_effective_cascade)
     (simp_all add: effective_cascade_def org_at_def candidates_at_def resolve_def resolve_step_def
        layer_defs effective_of_def bt_get_def bt_ok_def provenance_policy_source_def
        policy_source_for_rank_def)

text \<open>
  Native application policy: when the layers that require an application outrank every layer
  that only denies it, installing is allowed and removing refused; when the layers that deny it
  outrank every layer that requires it, installing is refused and removing allowed.
\<close>

lemma application_membership_precedence:
  assumes "l \<in> set layers"
    and "app \<in> set (ap_required l) \<or> app \<in> set (ap_denied l)"
    and "\<forall>m \<in> set layers. (app \<in> set (ap_required m) \<or> app \<in> set (ap_denied m)) \<and>
           (app \<in> set (ap_required m)) \<noteq> (app \<in> set (ap_required l)) \<longrightarrow>
           pv_rank (ap_provenance l) < pv_rank (ap_provenance m)"
  shows "ad_allowed (evaluate_application_policy layers app Install) = (app \<in> set (ap_required l)) \<and>
    ad_allowed (evaluate_application_policy layers app Remove) = (app \<notin> set (ap_required l))"
proof -
  let ?op = "\<lambda>l. app \<in> set (ap_required l) \<or> app \<in> set (ap_denied l)"
  have "best_layer ?op layers \<noteq> None" using assms(1,2) by (auto simp: best_layer_None)
  then obtain w where w: "best_layer ?op layers = Some w" by blast
  have "(app \<in> set (ap_required w)) = (app \<in> set (ap_required l))"
    using best_layer_Some [OF w] assms by (meson leD)
  with w show ?thesis
    by (auto simp: evaluate_application_policy_def split: bool.splits)
qed

end
