(* ===== verification/Punar_Daemon.thy ===== *)
theory Punar_Daemon
  imports Approval_Store Ai_Policy Effective_Policy
begin

text \<open>
  \<open>crates/punard/src/server.rs\<close>, the part every mutation goes through, with the error type of
  \<open>punar-common/src/ipc.rs\<close> and the contract of \<open>punard/src/capability.rs\<close>: the daemon state, audit
  attribution, and the settle path (recompute the merge, observe, apply, verify, audit). A backend is a record of functions indexed by the tick at which it is called, so it
  may answer differently each time. Error prose is not modelled; codes and details are. Every
  \<open>apply\<close> is also recorded in the history field \<open>applied\<close>, which no operation reads.
\<close>

section \<open>IPC errors\<close>

datatype error_code = EcMalformedRequest | EcUnsupportedVersion | EcUnknownMethod | EcInvalidParams
  | EcDenied | EcNotFound | EcApplyFailed | EcVerifyFailed | EcInternal | EcConflict
  | EcUpstreamUnreachable | EcUntrustedArtifact | EcInsufficientSpace | EcApprovalRequired | EcExpired

fun error_code_str :: "error_code \<Rightarrow> string" where
  "error_code_str EcMalformedRequest = ''malformed_request''"
| "error_code_str EcUnsupportedVersion = ''unsupported_version''"
| "error_code_str EcUnknownMethod = ''unknown_method''"
| "error_code_str EcInvalidParams = ''invalid_params''"
| "error_code_str EcDenied = ''denied''"
| "error_code_str EcNotFound = ''not_found''"
| "error_code_str EcApplyFailed = ''apply_failed''"
| "error_code_str EcVerifyFailed = ''verify_failed''"
| "error_code_str EcInternal = ''internal''"
| "error_code_str EcConflict = ''conflict''"
| "error_code_str EcUpstreamUnreachable = ''upstream_unreachable''"
| "error_code_str EcUntrustedArtifact = ''untrusted_artifact''"
| "error_code_str EcInsufficientSpace = ''insufficient_space''"
| "error_code_str EcApprovalRequired = ''approval_required''"
| "error_code_str EcExpired = ''expired''"

definition closes_connection :: "error_code \<Rightarrow> bool" where
  "closes_connection c = (c = EcMalformedRequest)"

fun suggested_exit_code :: "error_code \<Rightarrow> nat" where
  "suggested_exit_code EcDenied = 3"
| "suggested_exit_code EcApprovalRequired = 4"
| "suggested_exit_code _ = 1"

record ipc_error =
  ie_code :: error_code
  ie_details :: "json option"

text \<open>The \<open>json!\<close> object literal: a map, so written in key order.\<close>

definition json_object :: "(string \<times> json) list \<Rightarrow> json" where
  "json_object kvs = JObj (fold (\<lambda>(k, v) m. bt_insert k v m) kvs [])"

definition with_details :: "error_code \<Rightarrow> (string \<times> json) list \<Rightarrow> ipc_error" where
  "with_details c kvs = \<lparr>ie_code = c, ie_details = Some (json_object kvs)\<rparr>"

definition internal :: ipc_error where
  "internal = \<lparr>ie_code = EcInternal, ie_details = None\<rparr>"

definition denied_needs_root :: "string option \<Rightarrow> ipc_error" where
  "denied_needs_root capability =
     with_details EcDenied
       ([(''decision'', JStr ''deny''), (''policy_ids'', JArr [JStr POLICY_PERSONAL_DEFAULTS])]
        @ (case capability of Some c \<Rightarrow> [(''capability'', JStr c)] | None \<Rightarrow> []))"

definition approval_required_error ::
  "string \<Rightarrow> string \<Rightarrow> string \<Rightarrow> string \<Rightarrow> string \<Rightarrow> ipc_error" where
  "approval_required_error aid capability resource expires_at policy_id =
     with_details EcApprovalRequired
       [(''approval_id'', JStr aid), (''expires_at'', JStr expires_at),
        (''capability'', JStr capability), (''resource'', JStr resource),
        (''decision'', JStr ''approval_required''), (''policy_ids'', JArr [JStr policy_id])]"

definition expired_error :: "string \<Rightarrow> string \<Rightarrow> ipc_error" where
  "expired_error aid expires_at =
     with_details EcExpired [(''approval_id'', JStr aid), (''expires_at'', JStr expires_at)]"

definition denied_org_pinned :: "string \<Rightarrow> string \<Rightarrow> ipc_error" where
  "denied_org_pinned capability policy_id =
     with_details EcDenied
       [(''decision'', JStr ''deny''), (''policy_ids'', JArr [JStr policy_id]),
        (''capability'', JStr capability)]"

text \<open>The \<open>reason\<close> detail is the backend's own prose and is left out.\<close>

definition invalid_state :: ipc_error where
  "invalid_state = with_details EcInvalidParams [(''param'', JStr ''desired_state'')]"

section \<open>State\<close>

record capability =
  cap_id :: string
  cap_risk :: risk
  cap_default_desired :: "json option"
  cap_validate :: "json \<Rightarrow> bool"
  cap_observe :: "nat \<Rightarrow> json option"
  cap_apply :: "nat \<Rightarrow> json \<Rightarrow> bool"
  cap_verify :: "nat \<Rightarrow> json \<Rightarrow> bool option"

record daemon_env = store_env +
  device_id :: string
  console_uid :: nat
  registry :: "capability list"
  json_text :: "json \<Rightarrow> string"

definition registry_get :: "daemon_env \<Rightarrow> string \<Rightarrow> capability option" where
  "registry_get E i = find (\<lambda>c. cap_id c = i) (registry E)"

datatype compliance_state = Compliant | Remediating | NonCompliant | Unknown | Unsupported | Exception

record compliance_tracker =
  states :: "(string, compliance_state) btree_map"
  fail_counts :: "(string, nat) btree_map"
  drift_remediated_total :: nat
  last_remediation_at :: "string option"

record preference_entry =
  pe_value :: json
  pe_set_at :: string
  pe_set_by :: string

text \<open>The status file, without the device class, which is fixed when the daemon starts.\<close>

record status_summary =
  ss_enrolled :: bool
  ss_org_name :: "string option"
  ss_compliance_overall :: compliance_state
  ss_ts :: string

record daemon = approval_store +
  preferences :: "(string, preference_entry) btree_map"
  preferences_file :: "(string, preference_entry) btree_map"
  admin_policy :: "(string, admin_entry) btree_map"
  admin_file :: "(string, admin_entry) btree_map"
  local_admin :: "local_admin_layer list"
  os_defaults :: "(string, json) btree_map"
  org_layers :: "layer list"
  effective :: effective_document
  effective_file :: "effective_document option"
  ai :: ai_authority
  tracker :: compliance_tracker
  last_reconcile :: "string option"
  status_written :: "status_summary option"
  tickets :: "((nat \<times> string) \<times> nat) list"
  applied :: "(string \<times> json) list"

section \<open>Compliance\<close>

fun severity :: "compliance_state \<Rightarrow> nat" where
  "severity NonCompliant = 4"
| "severity Unknown = 3"
| "severity Remediating = 2"
| "severity Exception = 1"
| "severity Compliant = 0"
| "severity Unsupported = 0"

definition overall :: "compliance_state list \<Rightarrow> compliance_state" where
  "overall ss =
     foldl (\<lambda>worst s. if severity s > severity worst then s else worst) Compliant
       (filter (\<lambda>s. s \<noteq> Unsupported) ss)"

definition state_of :: "compliance_tracker \<Rightarrow> string \<Rightarrow> compliance_state" where
  "state_of t capability = unwrap_or (bt_get (states t) capability) Unknown"

record compliance_block =
  cb_overall :: compliance_state
  cb_capabilities :: "(string \<times> compliance_state) list"
  cb_drift_remediated_total :: nat
  cb_last_remediation_at :: "string option"

definition tracker_block :: "compliance_tracker \<Rightarrow> capability list \<Rightarrow> compliance_block" where
  "tracker_block t caps =
     (let rows = map (\<lambda>c. (cap_id c, state_of t (cap_id c))) caps
      in \<lparr>cb_overall = overall (map snd rows), cb_capabilities = rows,
          cb_drift_remediated_total = drift_remediated_total t,
          cb_last_remediation_at = last_remediation_at t\<rparr>)"

section \<open>Attribution\<close>

definition actor_of :: "daemon_env \<Rightarrow> daemon \<Rightarrow> peer \<Rightarrow> audit_actor" where
  "actor_of E st p =
     (let actor = (case lookup_username E (peer_uid p) st of
                     Some name \<Rightarrow> cli_peer name
                   | None \<Rightarrow> cli_peer_uid (peer_uid p))
      in case agent_session_of_peer E st p of
           Some session_id \<Rightarrow> with_agent_session actor session_id
         | None \<Rightarrow> actor)"

text \<open>\<open>self.log_audit(AuditEvent::denial(..))\<close>, with the policy ids some callers put in.\<close>

definition log_denial ::
  "daemon_env \<Rightarrow> audit_actor \<Rightarrow> string \<Rightarrow> string \<Rightarrow> string list option \<Rightarrow> daemon \<Rightarrow> daemon" where
  "log_denial E actor action resource policy_ids st =
     (case event_denial E (device_id E) actor action resource st of
        (ev, st1) \<Rightarrow>
          log_audit E (case policy_ids of Some ps \<Rightarrow> ev\<lparr>ev_policy_ids := ps\<rparr> | None \<Rightarrow> ev) st1)"

definition lookup :: "daemon_env \<Rightarrow> string \<Rightarrow> (ipc_error, capability) result" where
  "lookup E i =
     (case registry_get E i of
        Some cap \<Rightarrow> Ok cap
      | None \<Rightarrow> Err (with_details EcNotFound [(''capability'', JStr i)]))"

section \<open>Backends\<close>

definition observe :: "capability \<Rightarrow> daemon \<Rightarrow> json option \<times> daemon" where
  "observe cap st = (cap_observe cap (ticks st), tick st)"

definition apply_state :: "capability \<Rightarrow> json \<Rightarrow> daemon \<Rightarrow> bool \<times> daemon" where
  "apply_state cap v st =
     (cap_apply cap (ticks st) v, tick (st\<lparr>applied := applied st @ [(cap_id cap, v)]\<rparr>))"

definition verify :: "capability \<Rightarrow> json \<Rightarrow> daemon \<Rightarrow> bool option \<times> daemon" where
  "verify cap v st = (cap_verify cap (ticks st) v, tick st)"

text \<open>The descriptor without the constant fields every shipped capability has.\<close>

record capability_descriptor =
  cd_capability :: string
  cd_current_state :: json
  cd_desired_state :: json
  cd_risk :: risk

definition effective_value_of :: "daemon \<Rightarrow> string \<Rightarrow> json option" where
  "effective_value_of st path = map_option ee_value (effective_get (effective st) path)"

definition describe :: "capability \<Rightarrow> daemon \<Rightarrow> capability_descriptor \<times> daemon" where
  "describe cap st =
     (case observe cap st of (cur, st1) \<Rightarrow>
        let current = unwrap_or cur (JStr ''unknown'')
        in (\<lparr>cd_capability = cap_id cap, cd_current_state = current,
             cd_desired_state = unwrap_or (effective_value_of st1 (cap_id cap)) current,
             cd_risk = cap_risk cap\<rparr>, st1))"

definition recompute_effective :: "daemon_env \<Rightarrow> daemon \<Rightarrow> daemon" where
  "recompute_effective E st =
     (let doc = compute_effective (map (\<lambda>c. (cap_id c, cap_default_desired c)) (registry E))
                  (bt_get (os_defaults st)) (map (\<lambda>(k, e). (k, pe_value e)) (preferences st))
                  (admin_policy st) (org_layers st) (utc_now_rfc3339 E st)
      in tick (st\<lparr>effective_file := (if env_disk E (ticks st) then Some doc else effective_file st),
                  effective := doc\<rparr>))"

section \<open>The settle path\<close>

record set_result =
  sr_descriptor :: capability_descriptor
  sr_changed :: bool
  sr_overridden :: "json option"

definition execution_default :: execution where
  "execution_default =
     \<lparr>x_result = [], x_changed = None, x_audit_event_id = None, x_grant_id = None, x_error = False\<rparr>"

definition mark_settled :: "string \<Rightarrow> daemon \<Rightarrow> daemon" where
  "mark_settled capability st =
     st\<lparr>tracker := (tracker st)\<lparr>states := bt_insert capability Compliant (states (tracker st)),
                              fail_counts := bt_remove capability (fail_counts (tracker st))\<rparr>\<rparr>"

text \<open>The closure \<open>audited\<close> and the append that returns the event id.\<close>

definition log_settled ::
  "daemon_env \<Rightarrow> audit_actor \<Rightarrow> string \<Rightarrow> string \<Rightarrow> string list \<Rightarrow> audit_outcome \<Rightarrow> daemon
   \<Rightarrow> string option \<times> daemon" where
  "log_settled E actor action i policy_ids outcome st =
     (case event_action E (device_id E) actor action i Allow outcome st of
        (ev, st1) \<Rightarrow> log_audit_id E (ev\<lparr>ev_policy_ids := policy_ids\<rparr>) st1)"

text \<open>The merge always has an entry for a registered capability: \<open>recompute_effective_entry\<close> below.\<close>

definition settle_layer_change ::
  "daemon_env \<Rightarrow> audit_actor \<Rightarrow> capability \<Rightarrow> string \<Rightarrow> json option \<Rightarrow> string \<Rightarrow> string list \<Rightarrow> daemon
   \<Rightarrow> ((ipc_error, set_result) result \<times> execution) \<times> daemon" where
  "settle_layer_change E actor cap i requested action extra_policy_ids st0 =
     (let st = recompute_effective E st0;
          entry = the (effective_get (effective st) i);
          value = ee_value entry;
          policy_ids = pv_policy_id (ee_provenance entry) # extra_policy_ids;
          overridden = (case requested of
                          Some want \<Rightarrow> if value \<noteq> want then Some value else None
                        | None \<Rightarrow> None)
      in case observe cap st of (cur, st1) \<Rightarrow>
           if cur = Some value
           then (case log_settled E actor action i policy_ids Noop st1 of (event_id, st2) \<Rightarrow>
                   case describe cap (mark_settled i st2) of (d, st3) \<Rightarrow>
                     ((Ok \<lparr>sr_descriptor = d, sr_changed = False, sr_overridden = overridden\<rparr>,
                       execution_default\<lparr>x_result := audit_outcome_str Noop, x_changed := Some False,
                                         x_audit_event_id := event_id\<rparr>), st3))
           else (case apply_state cap value st1 of
                   (False, st2) \<Rightarrow>
                     (case log_settled E actor action i policy_ids Failure st2 of (event_id, st3) \<Rightarrow>
                        ((Err (with_details EcApplyFailed
                                 [(''capability'', JStr i), (''stage'', JStr ''apply'')]),
                          execution_default\<lparr>x_result := audit_outcome_str Failure,
                            x_changed := Some False, x_audit_event_id := event_id, x_error := True\<rparr>), st3))
                 | (True, st2) \<Rightarrow>
                     (case verify cap value st2 of
                        (Some True, st3) \<Rightarrow>
                          (case log_settled E actor action i policy_ids Success st3 of (event_id, st4) \<Rightarrow>
                             case describe cap (mark_settled i st4) of (d, st5) \<Rightarrow>
                               ((Ok \<lparr>sr_descriptor = d, sr_changed = True, sr_overridden = overridden\<rparr>,
                                 execution_default\<lparr>x_result := audit_outcome_str Success,
                                   x_changed := Some True, x_audit_event_id := event_id\<rparr>), st5))
                      | (_, st3) \<Rightarrow>
                          (case observe cap st3 of (obs, st4) \<Rightarrow>
                             case log_settled E actor action i policy_ids VerifyFailed st4 of
                               (event_id, st5) \<Rightarrow>
                                 ((Err (with_details EcVerifyFailed
                                          [(''capability'', JStr i), (''expected'', value),
                                           (''observed'', unwrap_or obs (JStr ''unknown''))]),
                                   execution_default\<lparr>x_result := audit_outcome_str VerifyFailed,
                                     x_changed := Some True, x_audit_event_id := event_id,
                                     x_error := True\<rparr>), st5)))))"

text \<open>\<open>PreferencesStore::set\<close>: the map in memory changes before the file is written.\<close>

definition set_preference :: "daemon_env \<Rightarrow> string \<Rightarrow> preference_entry \<Rightarrow> daemon \<Rightarrow> bool \<times> daemon" where
  "set_preference E i e st =
     (let prefs = bt_insert i e (preferences st)
      in if env_disk E (ticks st)
         then (True, tick (st\<lparr>preferences := prefs, preferences_file := prefs\<rparr>))
         else (False, tick (st\<lparr>preferences := prefs\<rparr>)))"

record capabilities_set_params =
  cs_capability :: string
  cs_desired_state :: json

definition execute_capability_set ::
  "daemon_env \<Rightarrow> audit_actor \<Rightarrow> capability \<Rightarrow> capabilities_set_params \<Rightarrow> string list \<Rightarrow> daemon
   \<Rightarrow> ((ipc_error, set_result) result \<times> execution) \<times> daemon" where
  "execute_capability_set E actor cap ps extra_policy_ids st =
     (case set_preference E (cs_capability ps)
             \<lparr>pe_value = cs_desired_state ps, pe_set_at = utc_now_rfc3339 E st,
              pe_set_by = aa_user_id actor\<rparr> st of
        (False, st1) \<Rightarrow>
          ((Err internal, execution_default\<lparr>x_result := ''internal'', x_error := True\<rparr>), st1)
      | (True, st1) \<Rightarrow>
          settle_layer_change E actor cap (cs_capability ps) (Some (cs_desired_state ps))
            ''capabilities.set'' extra_policy_ids st1)"

section \<open>What each step leaves alone\<close>

text \<open>Everything of the daemon but the audit trail.\<close>

definition audit_frame :: "daemon \<Rightarrow> daemon \<Rightarrow> bool" where
  "audit_frame st st' \<longleftrightarrow>
     (\<exists>t c l r d n. st' = st\<lparr>ticks := t, event_counter := c, trail_live := l, trail_rotated := r,
                         trail_detached := d, audit_events := n\<rparr>)"

lemma audit_frame_refl: "audit_frame st st"
  unfolding audit_frame_def
  by (rule exI [of _ "ticks st"], rule exI [of _ "event_counter st"], rule exI [of _ "trail_live st"],
      rule exI [of _ "trail_rotated st"], rule exI [of _ "trail_detached st"], rule exI [of _ "audit_events st"]) simp

interpretation audf: state_order audit_frame
  by unfold_locales (simp add: audit_frame_refl, force simp: audit_frame_def)

lemma audit_frame_fields:
  assumes "audit_frame st st'"
  shows "records st' = records st" "grants st' = grants st" "rec_files st' = rec_files st"
    "grant_files st' = grant_files st" "index_file st' = index_file st"
    "summary_file st' = summary_file st" "preferences st' = preferences st"
    "preferences_file st' = preferences_file st" "admin_policy st' = admin_policy st"
    "admin_file st' = admin_file st" "local_admin st' = local_admin st"
    "os_defaults st' = os_defaults st" "org_layers st' = org_layers st"
    "effective st' = effective st" "effective_file st' = effective_file st" "ai st' = ai st"
    "tracker st' = tracker st" "last_reconcile st' = last_reconcile st" "tickets st' = tickets st"
    "applied st' = applied st"
  using assms by (auto simp: audit_frame_def)

lemma audit_frame_tick: "audit_frame st (tick st)"
  unfolding audit_frame_def
  by (rule exI [of _ "Suc (ticks st)"], rule exI [of _ "event_counter st"], rule exI [of _ "trail_live st"],
      rule exI [of _ "trail_rotated st"], rule exI [of _ "trail_detached st"], rule exI [of _ "audit_events st"]) (simp add: tick_def)

lemma m3_event_frame: "audit_frame st (snd (m3_event E d actor action resource dec res st))"
  unfolding audit_frame_def
  by (rule exI [of _ "ticks st"], rule exI [of _ "(event_counter st + 1) mod 2 ^ 64"],
      rule exI [of _ "trail_live st"], rule exI [of _ "trail_rotated st"], rule exI [of _ "trail_detached st"],
      rule exI [of _ "audit_events st"]) (simp add: m3_event_def next_event_id_def)

lemma rotate_frame: "audit_frame st (snd (rotate_if_needed E st))"
proof -
  have f: "audit_frame st (st\<lparr>trail_rotated := r, trail_live := l, trail_detached := d\<rparr>)" for l r d
    unfolding audit_frame_def
    by (rule exI [of _ "ticks st"], rule exI [of _ "event_counter st"], rule exI [of _ l],
        rule exI [of _ r], rule exI [of _ d], rule exI [of _ "audit_events st"]) simp
  have "audit_frame st (st\<lparr>trail_detached := False\<rparr>)" using f [where r = "trail_rotated st" and l = "trail_live st" and d = False] by simp
  with f show ?thesis
    by (auto simp: rotate_if_needed_def audit_frame_refl split: rotation.splits)
qed

lemma append_event_frame: "audit_frame st (snd (append_event E e st))"
proof -
  have "audit_frame s (tick (s\<lparr>trail_live := l\<rparr>))" for s :: daemon and l
    unfolding audit_frame_def
    by (rule exI [of _ "Suc (ticks s)"], rule exI [of _ "event_counter s"], rule exI [of _ l],
        rule exI [of _ "trail_rotated s"], rule exI [of _ "trail_detached s"], rule exI [of _ "audit_events s"])
      (simp add: tick_def)
  then show ?thesis
    using audf.le_trans [OF rotate_frame [of st E]] audit_frame_tick audit_frame_refl
    by (auto simp: append_event_def Let_def case_prod_beta split: sum.splits option.splits bool.splits)
qed

lemma log_audit_frame: "audit_frame st (log_audit E e st)"
proof -
  have "audit_frame st' (st'\<lparr>audit_events := n\<rparr>)" for st' :: daemon and n
    unfolding audit_frame_def
    by (rule exI [of _ "ticks st'"], rule exI [of _ "event_counter st'"], rule exI [of _ "trail_live st'"],
        rule exI [of _ "trail_rotated st'"], rule exI [of _ "trail_detached st'"], rule exI [of _ n]) simp
  then show ?thesis
    using append_event_frame [of st E e] audf.le_trans
    by (auto simp: log_audit_def case_prod_beta split: sum.splits)
qed

lemma log_denial_frame: "audit_frame st (log_denial E actor action resource ps st)"
  unfolding log_denial_def event_denial_def case_prod_beta
  by (rule audf.le_trans [OF m3_event_frame log_audit_frame])

lemma log_settled_frame: "audit_frame st (snd (log_settled E actor action i ps outcome st))"
  unfolding log_settled_def event_action_def log_audit_id_def Let_def case_prod_beta snd_conv
  by (rule audf.le_trans [OF m3_event_frame log_audit_frame])

lemma observe_frame: "audit_frame st (snd (observe cap st))"
  "audit_frame st (snd (verify cap v st))" "audit_frame st (snd (describe cap st))"
  by (simp_all add: observe_def verify_def describe_def audit_frame_tick Let_def)

lemmas daemon_frames = audit_frame_tick log_audit_frame log_denial_frame log_settled_frame observe_frame
  m3_event_frame

lemmas daemon_frame_fields [simp] = daemon_frames [THEN audit_frame_fields(1)]
  daemon_frames [THEN audit_frame_fields(2)] daemon_frames [THEN audit_frame_fields(3)]
  daemon_frames [THEN audit_frame_fields(4)] daemon_frames [THEN audit_frame_fields(5)]
  daemon_frames [THEN audit_frame_fields(6)] daemon_frames [THEN audit_frame_fields(7)]
  daemon_frames [THEN audit_frame_fields(8)] daemon_frames [THEN audit_frame_fields(9)]
  daemon_frames [THEN audit_frame_fields(10)] daemon_frames [THEN audit_frame_fields(11)]
  daemon_frames [THEN audit_frame_fields(12)] daemon_frames [THEN audit_frame_fields(13)]
  daemon_frames [THEN audit_frame_fields(14)] daemon_frames [THEN audit_frame_fields(15)]
  daemon_frames [THEN audit_frame_fields(16)] daemon_frames [THEN audit_frame_fields(17)]
  daemon_frames [THEN audit_frame_fields(18)] daemon_frames [THEN audit_frame_fields(19)]
  daemon_frames [THEN audit_frame_fields(20)]

section \<open>The settle path\<close>

lemma registry_get_id: "registry_get E i = Some cap \<Longrightarrow> cap_id cap = i"
  by (auto simp: registry_get_def find_Some_iff)

lemma recompute_keeps [simp]:
  "records (recompute_effective E st) = records st" "grants (recompute_effective E st) = grants st"
  "rec_files (recompute_effective E st) = rec_files st"
  "grant_files (recompute_effective E st) = grant_files st"
  "index_file (recompute_effective E st) = index_file st"
  "summary_file (recompute_effective E st) = summary_file st"
  "preferences (recompute_effective E st) = preferences st"
  "preferences_file (recompute_effective E st) = preferences_file st"
  "admin_policy (recompute_effective E st) = admin_policy st"
  "admin_file (recompute_effective E st) = admin_file st"
  "local_admin (recompute_effective E st) = local_admin st"
  "os_defaults (recompute_effective E st) = os_defaults st"
  "org_layers (recompute_effective E st) = org_layers st" "ai (recompute_effective E st) = ai st"
  "tracker (recompute_effective E st) = tracker st" "tickets (recompute_effective E st) = tickets st"
  "applied (recompute_effective E st) = applied st"
  by (simp_all add: recompute_effective_def Let_def tick_def)

text \<open>The cascade over the daemon's own layers.\<close>

definition daemon_cascade :: "daemon_env \<Rightarrow> daemon \<Rightarrow> string \<Rightarrow> json layer_value option" where
  "daemon_cascade E st =
     effective_cascade (map (\<lambda>c. (cap_id c, cap_default_desired c)) (registry E))
       (bt_get (os_defaults st)) (map (\<lambda>(k, e). (k, pe_value e)) (preferences st))
       (admin_policy st) (org_layers st)"

definition daemon_ok :: "daemon \<Rightarrow> bool" where
  "daemon_ok st \<longleftrightarrow> store_ok st \<and> bt_ok (preferences st) \<and> bt_ok (admin_policy st) \<and>
     bt_ok (states (tracker st)) \<and> bt_ok (fail_counts (tracker st))"

lemma bt_ok_map_values: "bt_ok m \<Longrightarrow> bt_ok (map (\<lambda>(k, e). (k, f e)) m)"
  by (simp add: bt_ok_def comp_def case_prod_beta)

lemma recompute_effective_entry:
  assumes "daemon_ok st"
  shows "effective_get (effective (recompute_effective E st)) p = map_option effective_of (daemon_cascade E st p)"
proof -
  have "bt_ok (map (\<lambda>(k, e). (k, pe_value e)) (preferences st))" "bt_ok (admin_policy st)"
    using assms by (simp_all add: daemon_ok_def bt_ok_map_values)
  from effective_get_cascade [OF this] show ?thesis
    by (simp add: recompute_effective_def Let_def daemon_cascade_def tick_def)
qed

lemma cascade_registered:
  assumes "registry_get E i = Some cap"
  shows "daemon_cascade E st i \<noteq> None"
proof -
  have "find (\<lambda>c. fst c = i) (map (\<lambda>c. (cap_id c, cap_default_desired c)) (registry E)) \<noteq> None"
    using assms by (auto simp: registry_get_def find_None_iff find_Some_iff)
  then show ?thesis
    by (auto simp: daemon_cascade_def effective_cascade_def split: option.splits)
qed

lemma apply_state_fields [simp]:
  "applied (snd (apply_state cap v st)) = applied st @ [(cap_id cap, v)]"
  "records (snd (apply_state cap v st)) = records st" "grants (snd (apply_state cap v st)) = grants st"
  "rec_files (snd (apply_state cap v st)) = rec_files st"
  "grant_files (snd (apply_state cap v st)) = grant_files st"
  "index_file (snd (apply_state cap v st)) = index_file st"
  "summary_file (snd (apply_state cap v st)) = summary_file st"
  "preferences (snd (apply_state cap v st)) = preferences st"
  "preferences_file (snd (apply_state cap v st)) = preferences_file st"
  "admin_policy (snd (apply_state cap v st)) = admin_policy st"
  "admin_file (snd (apply_state cap v st)) = admin_file st"
  "local_admin (snd (apply_state cap v st)) = local_admin st"
  "os_defaults (snd (apply_state cap v st)) = os_defaults st"
  "org_layers (snd (apply_state cap v st)) = org_layers st" "ai (snd (apply_state cap v st)) = ai st"
  "effective (snd (apply_state cap v st)) = effective st"
  "tracker (snd (apply_state cap v st)) = tracker st" "tickets (snd (apply_state cap v st)) = tickets st"
  by (simp_all add: apply_state_def tick_def)

lemma mark_settled_fields [simp]:
  "applied (mark_settled i st) = applied st" "records (mark_settled i st) = records st"
  "grants (mark_settled i st) = grants st" "rec_files (mark_settled i st) = rec_files st"
  "grant_files (mark_settled i st) = grant_files st" "index_file (mark_settled i st) = index_file st"
  "summary_file (mark_settled i st) = summary_file st" "preferences (mark_settled i st) = preferences st"
  "preferences_file (mark_settled i st) = preferences_file st"
  "admin_policy (mark_settled i st) = admin_policy st" "admin_file (mark_settled i st) = admin_file st"
  "local_admin (mark_settled i st) = local_admin st" "os_defaults (mark_settled i st) = os_defaults st"
  "org_layers (mark_settled i st) = org_layers st" "ai (mark_settled i st) = ai st"
  "effective (mark_settled i st) = effective st" "tickets (mark_settled i st) = tickets st"
  by (simp_all add: mark_settled_def)

text \<open>The five ways through the settle path, from the state after the merge.\<close>

lemma settle_cases:
  fixes E actor cap i requested action extra st0
  defines "st \<equiv> recompute_effective E st0"
  defines "v \<equiv> ee_value (the (effective_get (effective st) i))"
  obtains (noop) d n st' where "settle_layer_change E actor cap i requested action extra st0 =
      ((Ok \<lparr>sr_descriptor = d, sr_changed = False,
            sr_overridden = (case requested of Some w \<Rightarrow> if v \<noteq> w then Some v else None | None \<Rightarrow> None)\<rparr>,
        execution_default\<lparr>x_result := ''noop'', x_changed := Some False, x_audit_event_id := n\<rparr>),
       snd (describe cap (mark_settled i st')))" "audit_frame st st'"
  | (failed) er x st' where "settle_layer_change E actor cap i requested action extra st0 = ((Err er, x), st')"
      "x_error x" "x_result x \<noteq> ''noop''"
      "audit_frame (snd (apply_state cap v (snd (observe cap st)))) st'"
  | (success) d n st' where "settle_layer_change E actor cap i requested action extra st0 =
      ((Ok \<lparr>sr_descriptor = d, sr_changed = True,
            sr_overridden = (case requested of Some w \<Rightarrow> if v \<noteq> w then Some v else None | None \<Rightarrow> None)\<rparr>,
        execution_default\<lparr>x_result := ''success'', x_changed := Some True, x_audit_event_id := n\<rparr>),
       snd (describe cap (mark_settled i st')))"
      "audit_frame (snd (apply_state cap v (snd (observe cap st)))) st'"
proof -
  let ?o = "observe cap st"
  let ?a = "apply_state cap v (snd ?o)"
  let ?v = "verify cap v (snd ?a)"
  note def = settle_layer_change_def [of E actor cap i requested action extra st0, folded st_def,
      unfolded Let_def, folded v_def, unfolded case_prod_beta]
  note fr = audf.le_trans [OF observe_frame(1) log_settled_frame]
    audf.le_trans [OF observe_frame(2) log_settled_frame]
    audf.le_trans [OF observe_frame(2) audf.le_trans [OF observe_frame(1) log_settled_frame]]
  show thesis
  proof (cases "fst ?o = Some v")
    case True
    then show thesis using fr(1) by (intro noop) (simp_all add: def, rule fr(1))
  next
    case F: False
    show thesis
    proof (cases "fst ?a")
      case False
      then show thesis using F 
        by (intro failed [OF _ _ _ log_settled_frame], simp add: def) simp_all
    next
      case T: True
      show thesis
      proof (cases "fst ?v = Some True")
        case True
        then show thesis using F T by (intro success [OF _ fr(2)]) (simp add: def)
      next
        case False
        then consider "fst ?v = None" | "fst ?v = Some False" by (cases "fst ?v") auto
        then show thesis using F T
          by cases (intro failed [OF _ _ _ fr(3)], simp add: def, simp_all)+
      qed
    qed
  qed
qed

lemma settle_keeps:
  fixes E actor cap i requested action extra st
  defines "st' \<equiv> snd (settle_layer_change E actor cap i requested action extra st)"
  shows "records st' = records st" "grants st' = grants st" "rec_files st' = rec_files st"
    "grant_files st' = grant_files st" "index_file st' = index_file st"
    "summary_file st' = summary_file st" "preferences st' = preferences st"
    "preferences_file st' = preferences_file st" "admin_policy st' = admin_policy st"
    "admin_file st' = admin_file st" "org_layers st' = org_layers st" "ai st' = ai st"
    "effective st' = effective (recompute_effective E st)"
proof -
  note c = settle_cases [of E actor cap i requested action extra st]
  note f = audit_frame_fields
  show "records st' = records st" unfolding st'_def by (rule c) (auto dest: f(1))
  show "grants st' = grants st" unfolding st'_def by (rule c) (auto dest: f(2))
  show "rec_files st' = rec_files st" unfolding st'_def by (rule c) (auto dest: f(3))
  show "grant_files st' = grant_files st" unfolding st'_def by (rule c) (auto dest: f(4))
  show "index_file st' = index_file st" unfolding st'_def by (rule c) (auto dest: f(5))
  show "summary_file st' = summary_file st" unfolding st'_def by (rule c) (auto dest: f(6))
  show "preferences st' = preferences st" unfolding st'_def by (rule c) (auto dest: f(7))
  show "preferences_file st' = preferences_file st" unfolding st'_def by (rule c) (auto dest: f(8))
  show "admin_policy st' = admin_policy st" unfolding st'_def by (rule c) (auto dest: f(9))
  show "admin_file st' = admin_file st" unfolding st'_def by (rule c) (auto dest: f(10))
  show "org_layers st' = org_layers st" unfolding st'_def by (rule c) (auto dest: f(13))
  show "ai st' = ai st" unfolding st'_def by (rule c) (auto dest: f(16))
  show "effective st' = effective (recompute_effective E st)"
    unfolding st'_def by (rule c) (auto dest: f(14))
qed

lemma settle_tracker:
  "tracker (snd (settle_layer_change E actor cap i requested action extra st)) =
   (case fst (fst (settle_layer_change E actor cap i requested action extra st)) of
      Ok _ \<Rightarrow> tracker (mark_settled i st) | Err _ \<Rightarrow> tracker st)"
proof -
  have m: "tracker a = tracker b \<Longrightarrow> tracker (mark_settled i a) = tracker (mark_settled i b)" for a b
    by (simp add: mark_settled_def)
  show ?thesis
    by (rule settle_cases [of E actor cap i requested action extra st])
       (auto dest: audit_frame_fields(17) intro!: m)
qed

lemma settle_daemon_ok:
  assumes "daemon_ok st"
  shows "daemon_ok (snd (settle_layer_change E actor cap i requested action extra st))"
  using assms
  by (auto simp: daemon_ok_def store_ok_def settle_keeps settle_tracker mark_settled_def bt_ok_insert
      bt_ok_remove split: sum.splits)

section \<open>Properties\<close>

text \<open>
  C24. A layer change settles on what the merge decides, not on what the caller asked for. After
  \<open>settle_layer_change\<close> the backend has been called at most once, with the value the cascade over
  the daemon's own layers gives and never with another; it has not been called at all exactly when
  the outcome is the no-op. A success marks the capability compliant, clears its failure count and
  reports the effective value when a higher layer overrode the request; an error leaves the
  compliance bookkeeping alone.
\<close>

theorem settle_applies_the_merge:
  assumes "daemon_ok st" "registry_get E i = Some cap"
    and "settle_layer_change E actor cap i requested action extra st = ((r, x), st')"
  shows "\<exists>w. daemon_cascade E st i = Some w \<and>
    effective_value_of st' i = Some (lv_value w) \<and>
    applied st' = applied st @ (if x_result x = ''noop'' then [] else [(i, lv_value w)]) \<and>
    (case r of
       Ok res \<Rightarrow> state_of (tracker st') i = Compliant \<and> bt_get (fail_counts (tracker st')) i = None \<and>
         sr_changed res = (x_result x \<noteq> ''noop'') \<and>
         sr_overridden res = (if requested \<in> {None, Some (lv_value w)} then None else Some (lv_value w))
     | Err _ \<Rightarrow> tracker st' = tracker st)"
proof -
  obtain w where w: "daemon_cascade E st i = Some w" using cascade_registered [OF assms(2)] by blast
  let ?v = "ee_value (the (effective_get (effective (recompute_effective E st)) i))"
  have entry: "effective_get (effective (recompute_effective E st)) i = Some (effective_of w)"
    using recompute_effective_entry [OF assms(1)] w by simp
  then have v: "?v = lv_value w" by (simp add: effective_of_def)
  have eff: "effective_value_of st' i = Some (lv_value w)"
    using settle_keeps(13) [of E actor cap i requested action extra st] assms(3) entry
    by (simp add: effective_value_of_def effective_of_def)
  have tr: "tracker st' = (case r of Ok _ \<Rightarrow> tracker (mark_settled i st) | Err _ \<Rightarrow> tracker st)"
    using settle_tracker [of E actor cap i requested action extra st] assms(3) by simp
  have settled: "state_of (tracker (mark_settled i st)) i = Compliant"
    "bt_get (fail_counts (tracker (mark_settled i st))) i = None"
    using assms(1) by (simp_all add: daemon_ok_def mark_settled_def state_of_def bt_get_insert
        bt_get_remove unwrap_or_def)
  have "applied st' = applied st @ (if x_result x = ''noop'' then [] else [(i, lv_value w)]) \<and>
    (case r of
       Ok res \<Rightarrow> sr_changed res = (x_result x \<noteq> ''noop'') \<and>
         sr_overridden res = (if requested \<in> {None, Some (lv_value w)} then None else Some (lv_value w))
     | Err _ \<Rightarrow> True)"
    by (rule settle_cases [of E actor cap i requested action extra st])
       (use assms(3) registry_get_id [OF assms(2)] in
         \<open>auto simp: v dest: audit_frame_fields(20) split: option.splits\<close>)
  then show ?thesis using w eff tr settled by (auto split: sum.splits)
qed

text \<open>A device with one capability whose backend reports \<open>disabled\<close> and accepts every change.\<close>

definition demo_cap :: capability where
  "demo_cap = \<lparr>cap_id = ''security.firewall'', cap_risk = High, cap_default_desired = Some (JStr ''enabled''),
     cap_validate = (\<lambda>_. True), cap_observe = (\<lambda>_. Some (JStr ''disabled'')),
     cap_apply = (\<lambda>_ _. True), cap_verify = (\<lambda>_ _. Some True)\<rparr>"

definition demo_denv :: daemon_env where
  "demo_denv = store_env.extend demo_store_env (daemon_env.fields ''dev_1'' 1000 [demo_cap] (\<lambda>_. ''null''))"

definition demo_daemon :: "approval_envelope list \<Rightarrow> grant list \<Rightarrow> daemon" where
  "demo_daemon es gs = approval_store.extend (demo_store es gs)
     (daemon.fields [] [] [] [] [] [] [] \<lparr>ed_computed_at = [], ed_entries = []\<rparr> None
        [personal_layer \<lparr>parse_document = (\<lambda>_. None), parse_envelope = (\<lambda>_. None)\<rparr> None]
        \<lparr>states = [], fail_counts = [], drift_remediated_total = 0, last_remediation_at = None\<rparr> None None [] [])"

lemma demo_daemon_simps [simp]:
  "records (demo_daemon es gs) = records (demo_store es gs)"
  "grants (demo_daemon es gs) = grants (demo_store es gs)"
  "rec_files (demo_daemon es gs) = rec_files (demo_store es gs)"
  "grant_files (demo_daemon es gs) = grant_files (demo_store es gs)"
  "ticks (demo_daemon es gs) = 0" "preferences (demo_daemon es gs) = []"
  "admin_policy (demo_daemon es gs) = []" "org_layers (demo_daemon es gs) = []"
  "fail_counts (tracker (demo_daemon es gs)) = []" "states (tracker (demo_daemon es gs)) = []"
  "applied (demo_daemon es gs) = []" "tickets (demo_daemon es gs) = []"
  "local_admin (demo_daemon es gs) = []"
  by (simp_all add: demo_daemon_def demo_store_def approval_store.defs daemon.defs)

lemma demo_daemon_ok:
  "daemon_ok (demo_daemon [demo_envelope ''apr_aaaa1111'' Pending] [demo_grant ''grt_1''])"
  using demo_store_ok by (simp add: daemon_ok_def store_ok_def)

lemma demo_registry: "registry_get demo_denv ''security.firewall'' = Some demo_cap"
  by (simp add: registry_get_def demo_denv_def demo_cap_def store_env.defs daemon_env.defs)

theorem settle_applies_the_merge_witness:
  "let st = demo_daemon [demo_envelope ''apr_aaaa1111'' Pending] [demo_grant ''grt_1''];
       st' = snd (settle_layer_change demo_denv daemon_actor demo_cap ''security.firewall''
                    (Some (JStr ''disabled'')) ''capabilities.set'' [] st)
   in applied st' \<in> {[], [(''security.firewall'', JStr ''enabled'')]}"
proof -
  let ?st = "demo_daemon [demo_envelope ''apr_aaaa1111'' Pending] [demo_grant ''grt_1'']"
  let ?s = "settle_layer_change demo_denv daemon_actor demo_cap ''security.firewall''
      (Some (JStr ''disabled'')) ''capabilities.set'' [] ?st"
  have c: "daemon_cascade demo_denv ?st ''security.firewall'' =
      Some \<lparr>lv_value = JStr ''enabled'', lv_provenance = personal_os_default, lv_classification = AutoRemediate\<rparr>"
    by (simp add: daemon_cascade_def effective_cascade_def org_at_def candidates_at_def bt_get_def
        demo_denv_def demo_cap_def store_env.defs daemon_env.defs os_default_layer_def auto_layer_def)
  have "?s = ((fst (fst ?s), snd (fst ?s)), snd ?s)" by simp
  from settle_applies_the_merge [OF demo_daemon_ok demo_registry this]
  show ?thesis unfolding c Let_def by (auto split: if_splits)
qed

end
