(* ===== verification/Approval_Gate.thy ===== *)
theory Approval_Gate
  imports Punar_Daemon
begin

text \<open>
  \<open>crates/punard/src/server/m9.rs\<close> and \<open>capabilities.set\<close> of \<open>server.rs\<close>: the approval gate. One
  definition per handler, each running to completion on the daemon state as it does under the
  store lock. \<open>Gate_Rules\<close> and \<open>Gate_Machine\<close> prove what the gate promises.
\<close>

section \<open>Events and identity\<close>

definition m9_event ::
  "daemon_env \<Rightarrow> audit_actor \<Rightarrow> string \<Rightarrow> string \<Rightarrow> decision \<Rightarrow> string \<Rightarrow> string list \<Rightarrow> daemon
   \<Rightarrow> audit_event \<times> daemon" where
  "m9_event E actor action resource dec res policy_ids st =
     (case next_event_id E st of (event_id, st') \<Rightarrow>
        (\<lparr>ev_event_id = event_id, ev_timestamp = utc_now_rfc3339 E st, ev_device_id = device_id E,
          ev_user_id = Some (aa_user_id actor),
          ev_agent_session_id = Some (unwrap_or (aa_agent_session_id actor) AGENT_SESSION_NONE),
          ev_project_id = Some PROJECT_ID_SYSTEM, ev_source = aa_source actor,
          ev_action = action, ev_resource = Some resource, ev_decision = dec,
          ev_policy_ids = (if policy_ids = [] then [POLICY_PERSONAL_DEFAULTS] else policy_ids),
          ev_result = res\<rparr>, st'))"

definition log_m9 ::
  "daemon_env \<Rightarrow> audit_actor \<Rightarrow> string \<Rightarrow> string \<Rightarrow> decision \<Rightarrow> string \<Rightarrow> string list \<Rightarrow> daemon \<Rightarrow> daemon" where
  "log_m9 E actor action resource dec res policy_ids st =
     (case m9_event E actor action resource dec res policy_ids st of (ev, st') \<Rightarrow> log_audit E ev st')"

definition peer_user :: "daemon_env \<Rightarrow> daemon \<Rightarrow> peer \<Rightarrow> string" where
  "peer_user E st p = unwrap_or (lookup_username E (peer_uid p) st) (''uid:'' @ show_nat (peer_uid p))"

definition console_user :: "daemon_env \<Rightarrow> daemon \<Rightarrow> string" where
  "console_user E st =
     unwrap_or (lookup_username E (console_uid E) st) (''uid:'' @ show_nat (console_uid E))"

text \<open>The wide agent test; \<open>who\<close> is only prose, so the model keeps whether there is one.\<close>

definition agent_shaped_peer :: "daemon_env \<Rightarrow> daemon \<Rightarrow> peer \<Rightarrow> audit_actor \<Rightarrow> bool" where
  "agent_shaped_peer E st p actor =
     (aa_agent_session_id actor \<noteq> None \<or> peer_smells_of_agent_scope E st (peer_pid p))"

definition citation_of :: "ai_ruling \<Rightarrow> policy_citation" where
  "citation_of ruling = \<lparr>pc_name = ar_source_name ruling, pc_policy_id = ar_policy_id ruling\<rparr>"

definition personal_citation :: policy_citation where
  "personal_citation = \<lparr>pc_name = PERSONAL_DEFAULTS_NAME, pc_policy_id = POLICY_PERSONAL_DEFAULTS\<rparr>"

section \<open>The contract line\<close>

text \<open>Every identifier that can be stored is ASCII, so the upper-casing is the ASCII one.\<close>

definition to_upper :: "char \<Rightarrow> char" where
  "to_upper c = (if is_ascii_lowercase c then char_of (byte c - 32) else c)"

fun camel :: "bool \<Rightarrow> string \<Rightarrow> string" where
  "camel upper [] = []"
| "camel upper (c # cs) =
     (if c = CHR ''_'' then camel True cs
      else if upper then to_upper c # camel False cs
      else c # camel False cs)"

fun contract_line :: "approval_kind \<Rightarrow> string \<Rightarrow> string \<Rightarrow> string" where
  "contract_line CapabilitySet capability resource =
     ''Set'' @ camel True (last (split_on CHR ''.'' capability)) @ ''('' @ resource @ '')''"
| "contract_line CredentialRequest capability resource = ''RequestCredential('' @ resource @ '')''"
| "contract_line PrivilegeRequest capability resource =
     ''RequestPrivilege('' @ capability @ '', '' @ resource @ '')''"

section \<open>Expiry\<close>

definition publish_approvals_summary :: "daemon_env \<Rightarrow> daemon \<Rightarrow> daemon" where
  "publish_approvals_summary E st = snd (publish_summary E (now_secs E st) st)"

definition log_expired_approval :: "daemon_env \<Rightarrow> approval_envelope \<Rightarrow> daemon \<Rightarrow> daemon" where
  "log_expired_approval E env =
     log_m9 E daemon_actor ''approval.expire'' (env_id env) Deny ''expired''
       [pc_policy_id (e_policy env)]"

definition log_expired_grant :: "daemon_env \<Rightarrow> grant \<Rightarrow> daemon \<Rightarrow> daemon" where
  "log_expired_grant E g =
     log_m9 E daemon_actor ''privilege.expire'' (g_grant_id g) Deny ''expired'' []"

definition sweep_approvals :: "daemon_env \<Rightarrow> daemon \<Rightarrow> daemon" where
  "sweep_approvals E st =
     (let now = now_secs E st
      in case sweep E now st of (expired, st1) \<Rightarrow>
           let st2 = fold (log_expired_approval E) expired st1
           in case sweep_grants E now st2 of (gone, st3) \<Rightarrow>
                let st4 = fold (log_expired_grant E) gone st3
                in if expired = [] \<and> gone = [] then st4 else publish_approvals_summary E st4)"

section \<open>Raising an approval\<close>

record new_approval =
  na_kind :: approval_kind
  na_capability :: string
  na_resource :: string
  na_reason :: string
  na_risk :: risk
  na_user :: string
  na_requester :: requester
  na_ttl :: "nat option"
  na_contract :: "string option"
  na_policy :: policy_citation
  na_request :: approval_request
  na_requester_peer :: "requester_peer option"

definition envelope_of :: "daemon_env \<Rightarrow> daemon \<Rightarrow> new_approval \<Rightarrow> string \<Rightarrow> approval_envelope" where
  "envelope_of E st spec aid =
     \<lparr>e_v = 1,
      e_approval = \<lparr>approval_id = aid, a_requester = na_requester spec, a_user = na_user spec,
        a_capability = na_capability spec, a_resource = na_resource spec, a_reason = na_reason spec,
        a_risk = na_risk spec, a_status = Pending,
        a_expires_at = rfc3339_in E st (clamp_ttl (na_ttl spec))\<rparr>,
      e_kind = na_kind spec, e_created_at = utc_now_rfc3339 E st, e_request = na_request spec,
      e_requester_peer = na_requester_peer spec, e_policy = na_policy spec,
      e_contract = unwrap_or (na_contract spec)
        (contract_line (na_kind spec) (na_capability spec) (na_resource spec)),
      e_resolved_at = None, e_resolved_by = None, e_consumed_at = None, e_execution = None\<rparr>"

definition create_approval ::
  "daemon_env \<Rightarrow> audit_actor \<Rightarrow> new_approval \<Rightarrow> daemon
   \<Rightarrow> (ipc_error, approval_envelope) result \<times> daemon" where
  "create_approval E actor spec st =
     (case validate_reason (na_reason spec) of
        Err _ \<Rightarrow> (Err (with_details EcInvalidParams [(''param'', JStr ''reason'')]), st)
      | Ok _ \<Rightarrow>
          (let now = now_secs E st;
               device_pending = pending_count st now;
               mine = pending_for_requester st (rq_id (na_requester spec)) now
           in if device_pending \<ge> MAX_PENDING_APPROVALS \<or> mine \<ge> MAX_PENDING_PER_REQUESTER
              then (Err (with_details EcDenied
                      [(''decision'', JStr ''deny''), (''reason'', JStr RESULT_APPROVAL_FLOOD),
                       (''pending'', JNum (int device_pending)),
                       (''pending_for_requester'', JNum (int mine))]),
                    log_m9 E actor ''approval.create'' (na_capability spec) Deny RESULT_APPROVAL_FLOOD
                      [pc_policy_id (na_policy spec)] st)
              else (case random_hex E 4 st of
                      None \<Rightarrow> (Err internal, st)
                    | Some h \<Rightarrow>
                        (let aid = APPROVAL_ID_PREFIX @ h;
                             envelope = envelope_of E st spec aid
                         in case put E envelope st of
                              (Err _, st1) \<Rightarrow> (Err internal, st1)
                            | (Ok _, st1) \<Rightarrow>
                                (Ok envelope,
                                 publish_approvals_summary E
                                   (log_m9 E actor ''approval.create'' aid ApprovalRequired ''pending''
                                      [pc_policy_id (e_policy envelope)] st1))))))"

section \<open>The authorization ladder of \<open>capabilities.set\<close>\<close>

datatype mutation_authority = Root | Grant string | AiAllowed string

definition state_hint_of :: "daemon_env \<Rightarrow> json \<Rightarrow> string" where
  "state_hint_of E v = (case v of JStr s \<Rightarrow> s | _ \<Rightarrow> json_text E v)"

definition agent_approval ::
  "daemon_env \<Rightarrow> daemon \<Rightarrow> string \<Rightarrow> string \<Rightarrow> json \<Rightarrow> ai_ruling \<Rightarrow> new_approval" where
  "agent_approval E st session i desired ruling =
     \<lparr>na_kind = CapabilitySet, na_capability = i, na_resource = state_hint_of E desired,
      na_reason = session @ '' requested '' @ i @ '' = '' @ state_hint_of E desired
        @ '' through the typed capability API'',
      na_risk = (case registry_get E i of Some cap \<Rightarrow> cap_risk cap | None \<Rightarrow> High),
      na_user = console_user E st, na_requester = \<lparr>rq_kind = AiAgent, rq_id = session\<rparr>,
      na_ttl = None, na_contract = None, na_policy = citation_of ruling,
      na_request = \<lparr>req_method = ''capabilities.set'',
        req_params = json_object [(''capability'', JStr i), (''desired_state'', desired)]\<rparr>,
      na_requester_peer = None\<rparr>"

definition authorize_agent_capability_set ::
  "daemon_env \<Rightarrow> audit_actor \<Rightarrow> string \<Rightarrow> string \<Rightarrow> json \<Rightarrow> daemon
   \<Rightarrow> (ipc_error, mutation_authority) result \<times> daemon" where
  "authorize_agent_capability_set E actor session i desired st =
     (case Option.bind (host_token_for_capability i) (host_ruling (ai st)) of
        None \<Rightarrow>
          (Err (with_details EcDenied
             [(''decision'', JStr ''deny''), (''capability'', JStr i),
              (''agent_session_id'', JStr session), (''reason'', JStr ''no_ai_rule'')]),
           log_denial E actor ''capabilities.set'' i None st)
      | Some ruling \<Rightarrow>
          (case ar_decision ruling of
             Allow \<Rightarrow> (Ok (AiAllowed (ar_policy_id ruling)), st)
           | Deny \<Rightarrow>
               (Err (with_details EcDenied
                  [(''decision'', JStr ''deny''), (''capability'', JStr i),
                   (''agent_session_id'', JStr session),
                   (''policy_ids'', JArr [JStr (ar_policy_id ruling)])]),
                log_denial E actor ''capabilities.set'' i (Some [ar_policy_id ruling]) st)
           | ApprovalRequired \<Rightarrow>
               (case create_approval E actor (agent_approval E st session i desired ruling)
                       (sweep_approvals E st) of
                  (Err e, st1) \<Rightarrow> (Err e, st1)
                | (Ok env, st1) \<Rightarrow>
                    (Err (approval_required_error (env_id env) i (state_hint_of E desired)
                            (a_expires_at (e_approval env)) (ar_policy_id ruling)),
                     log_m9 E actor ''capabilities.set'' i ApprovalRequired ''pending''
                       [ar_policy_id ruling] st1))))"

text \<open>The pinning organization, when the path is one the user may not override.\<close>

definition pinning_of :: "daemon \<Rightarrow> string \<Rightarrow> provenance option" where
  "pinning_of st i =
     (case effective_get (effective st) i of
        Some entry \<Rightarrow> if ee_user_override_permitted entry then None else Some (ee_provenance entry)
      | None \<Rightarrow> None)"

definition authorize_capability_set ::
  "daemon_env \<Rightarrow> peer \<Rightarrow> audit_actor \<Rightarrow> string \<Rightarrow> json \<Rightarrow> daemon
   \<Rightarrow> (ipc_error, mutation_authority) result \<times> daemon" where
  "authorize_capability_set E p actor i desired st =
     (case aa_agent_session_id actor of
        Some session \<Rightarrow> authorize_agent_capability_set E actor session i desired st
      | None \<Rightarrow>
          if peer_uid p = 0 then (Ok Root, st)
          else (let st1 = sweep_approvals E st
                in case live_grant st1 (peer_uid p) i (now_secs E st1) of
                     Some g \<Rightarrow> (Ok (Grant (g_grant_id g)), st1)
                   | None \<Rightarrow>
                       (case pinning_of st1 i of
                          Some prov \<Rightarrow>
                            (Err (denied_org_pinned i (pv_policy_id prov)),
                             log_denial E actor ''capabilities.set'' i (Some [pv_policy_id prov]) st1)
                        | None \<Rightarrow>
                            (Err (denied_needs_root (Some i)),
                             log_denial E actor ''capabilities.set'' i None st1))))"

definition handle_capabilities_set ::
  "daemon_env \<Rightarrow> peer \<Rightarrow> capabilities_set_params \<Rightarrow> daemon
   \<Rightarrow> (ipc_error, set_result) result \<times> daemon" where
  "handle_capabilities_set E p ps st =
     (case lookup E (cs_capability ps) of
        Err e \<Rightarrow> (Err e, st)
      | Ok cap \<Rightarrow>
          if \<not> cap_validate cap (cs_desired_state ps) then (Err invalid_state, st)
          else (let actor = actor_of E st p
                in case authorize_capability_set E p actor (cs_capability ps) (cs_desired_state ps) st of
                     (Err e, st1) \<Rightarrow> (Err e, st1)
                   | (Ok authority, st1) \<Rightarrow>
                       (case execute_capability_set E actor cap ps
                               (case authority of Grant gid \<Rightarrow> [gid] | _ \<Rightarrow> []) st1 of
                          ((r, _), st2) \<Rightarrow> (r, st2))))"

section \<open>\<open>approvals.*\<close>\<close>

definition handle_approvals_list ::
  "daemon_env \<Rightarrow> daemon \<Rightarrow> (approval_envelope list \<times> string) \<times> daemon" where
  "handle_approvals_list E st =
     (let st1 = sweep_approvals E st in ((store_list st1, utc_now_rfc3339 E st1), st1))"

definition no_such_approval :: "string \<Rightarrow> ipc_error" where
  "no_such_approval aid = with_details EcNotFound [(''approval_id'', JStr aid)]"

definition handle_approvals_get ::
  "daemon_env \<Rightarrow> string \<Rightarrow> daemon \<Rightarrow> (ipc_error, approval_envelope) result \<times> daemon" where
  "handle_approvals_get E aid st =
     (let st1 = sweep_approvals E st
      in (case store_get st1 aid of Some env \<Rightarrow> Ok env | None \<Rightarrow> Err (no_such_approval aid), st1))"

record approvals_create_params =
  ac_kind :: approval_kind
  ac_capability :: string
  ac_resource :: string
  ac_reason :: string
  ac_risk :: risk
  ac_user :: string
  ac_requester :: requester
  ac_ttl :: "nat option"
  ac_contract :: "string option"
  ac_requester_peer :: "requester_peer option"
  ac_policy :: "policy_citation option"
  ac_request :: "approval_request option"

fun default_method :: "approval_kind \<Rightarrow> string" where
  "default_method CredentialRequest = ''credential.request''"
| "default_method PrivilegeRequest = ''privilege.request''"
| "default_method CapabilitySet = ''capabilities.set''"

definition created_approval :: "approvals_create_params \<Rightarrow> new_approval" where
  "created_approval ps =
     \<lparr>na_kind = ac_kind ps, na_capability = ac_capability ps, na_resource = ac_resource ps,
      na_reason = ac_reason ps, na_risk = ac_risk ps, na_user = ac_user ps,
      na_requester = ac_requester ps, na_ttl = ac_ttl ps, na_contract = ac_contract ps,
      na_policy = unwrap_or (ac_policy ps) personal_citation,
      na_request = unwrap_or (ac_request ps)
        \<lparr>req_method = default_method (ac_kind ps),
         req_params = json_object [(''capability'', JStr (ac_capability ps)),
                                   (''resource'', JStr (ac_resource ps))]\<rparr>,
      na_requester_peer = ac_requester_peer ps\<rparr>"

definition handle_approvals_create ::
  "daemon_env \<Rightarrow> peer \<Rightarrow> approvals_create_params \<Rightarrow> daemon
   \<Rightarrow> (ipc_error, approval_envelope) result \<times> daemon" where
  "handle_approvals_create E p ps st =
     (let actor = actor_of E st p
      in if agent_shaped_peer E st p actor
         then (Err (with_details EcDenied
                 [(''decision'', JStr ''deny''), (''capability'', JStr (ac_capability ps)),
                  (''result'', JStr RESULT_AGENT_CREATE_REFUSED)]),
               log_m9 E actor ''approval.create'' (ac_capability ps) Deny RESULT_AGENT_CREATE_REFUSED [] st)
         else if peer_uid p \<noteq> 0
         then (Err (denied_needs_root None),
               log_denial E actor ''approval.create'' (ac_capability ps) None st)
         else create_approval E actor (created_approval ps) (sweep_approvals E st))"

section \<open>Executing what was approved\<close>

text \<open>
  \<open>serde_json::from_value::<CapabilitiesSetParams>\<close>: a struct is read from an object with exactly
  its fields, or from an array of them in order.
\<close>

definition set_params :: "string \<Rightarrow> json \<Rightarrow> capabilities_set_params option" where
  "set_params c v =
     (if is_ok (capability_id_new c) then Some \<lparr>cs_capability = c, cs_desired_state = v\<rparr> else None)"

definition set_params_of_json :: "json \<Rightarrow> capabilities_set_params option" where
  "set_params_of_json j =
     (case j of
        JObj m \<Rightarrow>
          (case (bt_get m ''capability'', bt_get m ''desired_state'') of
             (Some (JStr c), Some v) \<Rightarrow>
               if list_all (\<lambda>e. fst e \<in> {''capability'', ''desired_state''}) m then set_params c v else None
           | _ \<Rightarrow> None)
      | JArr [JStr c, v] \<Rightarrow> set_params c v
      | _ \<Rightarrow> None)"

definition requester_actor :: "approval_envelope \<Rightarrow> audit_actor" where
  "requester_actor env =
     (let actor = cli_peer (a_user (e_approval env))
      in if rq_kind (a_requester (e_approval env)) = AiAgent
         then with_agent_session actor (rq_id (a_requester (e_approval env))) else actor)"

definition execute_approved_capability ::
  "daemon_env \<Rightarrow> approval_envelope \<Rightarrow> daemon \<Rightarrow> execution \<times> daemon" where
  "execute_approved_capability E env st =
     (case set_params_of_json (req_params (e_request env)) of
        None \<Rightarrow> (execution_default\<lparr>x_result := ''invalid_record'', x_error := True\<rparr>, st)
      | Some ps \<Rightarrow>
          (case registry_get E (cs_capability ps) of
             None \<Rightarrow> (execution_default\<lparr>x_result := ''not_found'', x_error := True\<rparr>, st)
           | Some cap \<Rightarrow>
               (case execute_capability_set E (requester_actor env) cap ps [env_id env] st of
                  ((_, x), st1) \<Rightarrow> (x, st1))))"

definition trim_end_m :: "string \<Rightarrow> string" where
  "trim_end_m s = rev (dropWhile (\<lambda>c. c = CHR ''m'') (rev s))"

definition granted_minutes :: "string \<Rightarrow> nat" where
  "granted_minutes resource = unwrap_or (parse_u64 (trim_end_m resource)) GRANT_DEFAULT_MINUTES"

definition grant_of :: "daemon_env \<Rightarrow> daemon \<Rightarrow> approval_envelope \<Rightarrow> string \<Rightarrow> grant" where
  "grant_of E st env gid =
     \<lparr>g_v = 1, g_grant_id = gid, g_approval_id = env_id env,
      g_uid = (case e_requester_peer env of Some rp \<Rightarrow> rp_uid rp | None \<Rightarrow> console_uid E),
      g_user = a_user (e_approval env), g_capability = a_capability (e_approval env),
      g_reason = a_reason (e_approval env), g_granted_at = utc_now_rfc3339 E st,
      g_expires_at = rfc3339_in E st (sat_mul (granted_minutes (a_resource (e_approval env))) 60),
      g_revoked_at = None\<rparr>"

definition execute_approved_privilege ::
  "daemon_env \<Rightarrow> approval_envelope \<Rightarrow> daemon \<Rightarrow> execution \<times> daemon" where
  "execute_approved_privilege E env st =
     (case random_hex E 4 st of
        None \<Rightarrow> (execution_default\<lparr>x_result := ''internal'', x_error := True\<rparr>, st)
      | Some h \<Rightarrow>
          (let gid = GRANT_ID_PREFIX @ h
           in case put_grant E (grant_of E st env gid) st of
                (Err _, st1) \<Rightarrow> (execution_default\<lparr>x_result := ''internal'', x_error := True\<rparr>, st1)
              | (Ok _, st1) \<Rightarrow>
                  (case m9_event E (cli_peer (a_user (e_approval env))) ''privilege.grant'' gid Allow
                          ''granted'' [POLICY_PERSONAL_DEFAULTS, env_id env] st1 of
                     (ev, st2) \<Rightarrow>
                       (case log_audit_id E ev st2 of (event_id, st3) \<Rightarrow>
                          (\<lparr>x_result = ''granted'', x_changed = Some True, x_audit_event_id = event_id,
                            x_grant_id = Some gid, x_error = False\<rparr>, st3)))))"

definition execute_approved ::
  "daemon_env \<Rightarrow> approval_envelope \<Rightarrow> daemon \<Rightarrow> execution option \<times> daemon" where
  "execute_approved E env st =
     (case e_kind env of
        CredentialRequest \<Rightarrow> (None, st)
      | CapabilitySet \<Rightarrow>
          (case execute_approved_capability E env st of (x, st1) \<Rightarrow> (Some x, st1))
      | PrivilegeRequest \<Rightarrow>
          (case execute_approved_privilege E env st of (x, st1) \<Rightarrow> (Some x, st1)))"

section \<open>\<open>approvals.resolve\<close> and \<open>approvals.consume\<close>\<close>

datatype resolve_decision = RdApproved | RdDenied

fun rd_status :: "resolve_decision \<Rightarrow> approval_status" where
  "rd_status RdApproved = Approved"
| "rd_status RdDenied = Denied"

definition resolved_envelope ::
  "daemon_env \<Rightarrow> daemon \<Rightarrow> peer \<Rightarrow> resolve_decision \<Rightarrow> approval_envelope \<Rightarrow> approval_envelope" where
  "resolved_envelope E st p d env =
     (set_status (rd_status d) env)
       \<lparr>e_resolved_at := Some (utc_now_rfc3339 E st),
        e_resolved_by := Some \<lparr>rb_uid = peer_uid p, rb_user = peer_user E st p, rb_pid = peer_pid p,
                               rb_cgroup = peer_cgroup E st (peer_pid p)\<rparr>\<rparr>"

definition answer ::
  "daemon_env \<Rightarrow> peer \<Rightarrow> resolve_decision \<Rightarrow> approval_envelope \<Rightarrow> daemon
   \<Rightarrow> approval_envelope \<times> daemon" where
  "answer E p d env st =
     (let resolved = resolved_envelope E st p d env
      in case d of
           RdApproved \<Rightarrow>
             (case execute_approved E resolved st of (x, st1) \<Rightarrow> (resolved\<lparr>e_execution := x\<rparr>, st1))
         | RdDenied \<Rightarrow> (resolved, st))"

definition handle_approvals_resolve ::
  "daemon_env \<Rightarrow> peer \<Rightarrow> string \<Rightarrow> resolve_decision \<Rightarrow> daemon
   \<Rightarrow> (ipc_error, approval_envelope) result \<times> daemon" where
  "handle_approvals_resolve E p i d st0 =
     (let actor = actor_of E st0 p
      in if agent_shaped_peer E st0 p actor
         then (Err (with_details EcDenied
                 [(''decision'', JStr ''deny''), (''approval_id'', JStr i),
                  (''result'', JStr RESULT_SELF_APPROVAL_REFUSED)]),
               log_m9 E actor ''approval.resolve'' i Deny RESULT_SELF_APPROVAL_REFUSED [] st0)
         else (let st = sweep_approvals E st0
               in case store_get st i of
                    None \<Rightarrow> (Err (no_such_approval i), st)
                  | Some env \<Rightarrow>
                      if peer_uid p \<noteq> 0 \<and> peer_user E st p \<noteq> a_user (e_approval env)
                      then (Err (with_details EcDenied
                              [(''decision'', JStr ''deny''), (''approval_id'', JStr i),
                               (''user'', JStr (a_user (e_approval env)))]),
                            log_m9 E actor ''approval.resolve'' i Deny ''not_routed_to_this_user''
                              [pc_policy_id (e_policy env)] st)
                      else if env_status env = Pending \<and> has_lapsed env (now_secs E st)
                      then (Err (expired_error i (a_expires_at (e_approval env))), sweep_approvals E st)
                      else if env_status env = Expired
                      then (Err (expired_error i (a_expires_at (e_approval env))), st)
                      else if is_terminal (env_status env)
                      then (Err (with_details EcConflict
                              [(''approval_id'', JStr i),
                               (''state'', JStr (approval_status_str (env_status env)))]), st)
                      else (case answer E p d env st of (resolved, st1) \<Rightarrow>
                              case put E resolved st1 of
                                (Err _, st2) \<Rightarrow> (Err internal, st2)
                              | (Ok _, st2) \<Rightarrow>
                                  (Ok resolved,
                                   publish_approvals_summary E
                                     (log_m9 E actor ''approval.resolve'' i
                                        (case d of RdApproved \<Rightarrow> Allow | RdDenied \<Rightarrow> Deny)
                                        (approval_status_str (env_status resolved))
                                        [pc_policy_id (e_policy resolved)] st2)))))"

definition handle_approvals_consume ::
  "daemon_env \<Rightarrow> peer \<Rightarrow> string \<Rightarrow> daemon
   \<Rightarrow> (ipc_error, approval_envelope \<times> string) result \<times> daemon" where
  "handle_approvals_consume E p i st0 =
     (let actor = actor_of E st0 p
      in if peer_uid p \<noteq> 0
         then (Err (denied_needs_root None), log_denial E actor ''approval.consume'' i None st0)
         else (let st = sweep_approvals E st0
               in case store_get st i of
                    None \<Rightarrow> (Err (no_such_approval i), st)
                  | Some env \<Rightarrow>
                      if e_kind env \<noteq> CredentialRequest
                      then (Err (with_details EcInvalidParams
                              [(''approval_id'', JStr i),
                               (''kind'', JStr (approval_kind_str (e_kind env)))]), st)
                      else if has_lapsed env (now_secs E st)
                      then (Err (expired_error i (a_expires_at (e_approval env))), st)
                      else if env_status env \<noteq> Approved
                      then (Err (with_details EcConflict
                              [(''approval_id'', JStr i),
                               (''state'', JStr (approval_status_str (env_status env)))]), st)
                      else (case e_consumed_at env of
                              Some t \<Rightarrow>
                                (Err (with_details EcConflict
                                   [(''approval_id'', JStr i), (''state'', JStr ''consumed''),
                                    (''consumed_at'', JStr t)]), st)
                            | None \<Rightarrow>
                                (let consumed_at = utc_now_rfc3339 E st;
                                     consumed = env\<lparr>e_consumed_at := Some consumed_at\<rparr>
                                 in case put E consumed st of
                                      (Err _, st1) \<Rightarrow> (Err internal, st1)
                                    | (Ok _, st1) \<Rightarrow>
                                        (Ok (consumed, consumed_at),
                                         publish_approvals_summary E
                                           (log_m9 E actor ''approval.consume'' i Allow ''consumed''
                                              [pc_policy_id (e_policy consumed)] st1))))))"

section \<open>\<open>privilege.*\<close>\<close>

record privilege_request_params =
  pr_capability :: string
  pr_reason :: string
  pr_duration_minutes :: "nat option"

definition privilege_approval ::
  "daemon_env \<Rightarrow> daemon \<Rightarrow> peer \<Rightarrow> privilege_request_params \<Rightarrow> capability \<Rightarrow> new_approval" where
  "privilege_approval E st p ps cap =
     (let minutes = clamp_grant_minutes (pr_duration_minutes ps);
          user = peer_user E st p
      in \<lparr>na_kind = PrivilegeRequest, na_capability = pr_capability ps,
          na_resource = show_nat minutes @ ''m'', na_reason = pr_reason ps, na_risk = cap_risk cap,
          na_user = user, na_requester = \<lparr>rq_kind = Human, rq_id = user\<rparr>, na_ttl = None,
          na_contract = None, na_policy = personal_citation,
          na_request = \<lparr>req_method = ''privilege.request'',
            req_params = json_object [(''capability'', JStr (pr_capability ps)),
                                      (''duration_minutes'', JNum (int minutes))]\<rparr>,
          na_requester_peer = Some \<lparr>rp_uid = peer_uid p, rp_agent_session_id = None\<rparr>\<rparr>)"

definition handle_privilege_request ::
  "daemon_env \<Rightarrow> peer \<Rightarrow> privilege_request_params \<Rightarrow> daemon \<Rightarrow> ipc_error \<times> daemon" where
  "handle_privilege_request E p ps st =
     (let actor = actor_of E st p;
          i = pr_capability ps
      in if agent_shaped_peer E st p actor
         then (with_details EcDenied
                 ([(''decision'', JStr ''deny''), (''capability'', JStr i),
                   (''result'', JStr RESULT_AGENT_PRIVILEGE_REFUSED)]
                  @ (case aa_agent_session_id actor of
                       Some session \<Rightarrow> [(''agent_session_id'', JStr session)] | None \<Rightarrow> [])),
               log_m9 E actor ''privilege.request'' i Deny RESULT_AGENT_PRIVILEGE_REFUSED [] st)
         else (case lookup E i of
                 Err e \<Rightarrow> (e, st)
               | Ok cap \<Rightarrow>
                   (case create_approval E actor (privilege_approval E st p ps cap)
                           (sweep_approvals E st) of
                      (Err e, st1) \<Rightarrow> (e, st1)
                    | (Ok env, st1) \<Rightarrow>
                        (approval_required_error (env_id env) i (a_resource (e_approval env))
                           (a_expires_at (e_approval env)) (pc_policy_id (e_policy env)),
                         log_m9 E actor ''privilege.request'' (env_id env) ApprovalRequired ''pending''
                           [pc_policy_id (e_policy env)] st1))))"

definition grant_scope :: "peer \<Rightarrow> nat option" where
  "grant_scope p = (if peer_uid p \<noteq> 0 then Some (peer_uid p) else None)"

definition handle_privilege_status ::
  "daemon_env \<Rightarrow> peer \<Rightarrow> daemon \<Rightarrow> (grant list \<times> string) \<times> daemon" where
  "handle_privilege_status E p st =
     (let st1 = sweep_approvals E st
      in ((live_grants st1 (grant_scope p) (now_secs E st1), utc_now_rfc3339 E st1), st1))"

record privilege_revoke_params =
  pv_grant_id :: "string option"
  pv_all :: "bool option"

definition revoke_target :: "privilege_revoke_params \<Rightarrow> (ipc_error, string option) result" where
  "revoke_target ps =
     (case (pv_grant_id ps, unwrap_or (pv_all ps) False) of
        (Some gid, False) \<Rightarrow> Ok (Some gid)
      | (None, True) \<Rightarrow> Ok None
      | _ \<Rightarrow> Err \<lparr>ie_code = EcInvalidParams, ie_details = Some (JObj [])\<rparr>)"

fun revoke_loop ::
  "daemon_env \<Rightarrow> audit_actor \<Rightarrow> string list \<Rightarrow> string list \<Rightarrow> daemon
   \<Rightarrow> (ipc_error, string list) result \<times> daemon" where
  "revoke_loop E actor [] revoked st = (Ok revoked, st)"
| "revoke_loop E actor (i # ids) revoked st =
     (case drop_grant E i st of
        (Ok (Some _), st1) \<Rightarrow>
          revoke_loop E actor ids (revoked @ [i])
            (log_m9 E actor ''privilege.revoke'' i Allow ''revoked'' [] st1)
      | (Ok None, st1) \<Rightarrow> revoke_loop E actor ids revoked st1
      | (Err _, st1) \<Rightarrow> (Err internal, st1))"

definition handle_privilege_revoke ::
  "daemon_env \<Rightarrow> peer \<Rightarrow> privilege_revoke_params \<Rightarrow> daemon
   \<Rightarrow> (ipc_error, string list \<times> string) result \<times> daemon" where
  "handle_privilege_revoke E p ps st0 =
     (let actor = actor_of E st0 p
      in case revoke_target ps of
           Err e \<Rightarrow> (Err e, st0)
         | Ok target \<Rightarrow>
             (let st = sweep_approvals E st0;
                  now = now_secs E st;
                  finish = (\<lambda>ids. case revoke_loop E actor ids [] st of
                              (Err e, st1) \<Rightarrow> (Err e, st1)
                            | (Ok revoked, st1) \<Rightarrow>
                                (let st2 = publish_approvals_summary E st1
                                 in (Ok (revoked, utc_now_rfc3339 E st2), st2)))
              in case target of
                   None \<Rightarrow> finish (map g_grant_id (live_grants st (grant_scope p) now))
                 | Some gid \<Rightarrow>
                     (case grant_by_id st gid of
                        None \<Rightarrow> (Err (with_details EcNotFound [(''grant_id'', JStr gid)]), st)
                      | Some g \<Rightarrow>
                          if peer_uid p \<noteq> 0 \<and> g_uid g \<noteq> peer_uid p
                          then (Err (with_details EcDenied
                                  [(''decision'', JStr ''deny''), (''grant_id'', JStr gid)]),
                                log_denial E actor ''privilege.revoke'' gid None st)
                          else finish [gid])))"

end
