(* ===== verification/Gate_Rules.thy ===== *)
theory Gate_Rules
  imports Approval_Gate
begin

text \<open>
  What the approval gate promises, handler by handler: who may author, answer and spend a human's
  consent, that an answer is given in time and once, what an approval executes, how many questions
  may be open, and what the authorization ladder of a capability change lets through.
\<close>

section \<open>What each step leaves alone\<close>

text \<open>The half of the daemon that is not the approval store.\<close>

definition policy_same :: "daemon \<Rightarrow> daemon \<Rightarrow> bool" where
  "policy_same st st' \<longleftrightarrow> approval_store.more st' = approval_store.more st"

interpretation pols: state_order policy_same
  by unfold_locales (simp_all add: policy_same_def)

lemma policy_same_fields:
  assumes "policy_same st st'"
  shows "preferences st' = preferences st" "preferences_file st' = preferences_file st"
    "admin_policy st' = admin_policy st" "admin_file st' = admin_file st"
    "local_admin st' = local_admin st" "os_defaults st' = os_defaults st"
    "org_layers st' = org_layers st" "effective st' = effective st"
    "effective_file st' = effective_file st" "ai st' = ai st" "tracker st' = tracker st"
    "last_reconcile st' = last_reconcile st" "tickets st' = tickets st" "applied st' = applied st"
  using assms by (cases st; cases st'; simp add: policy_same_def)+

lemma audit_frame_policy: "audit_frame st st' \<Longrightarrow> policy_same st st'"
  by (auto simp: audit_frame_def policy_same_def)

lemma record_frame_policy: "record_frame st st' \<Longrightarrow> policy_same st st'"
  by (simp add: policy_same_def record_frame_fields(8))

lemma grant_frame_policy: "grant_frame st st' \<Longrightarrow> policy_same st st'"
  by (simp add: policy_same_def grant_frame_fields(9))

lemma store_ok_cong:
  "records st' = records st \<Longrightarrow> grants st' = grants st \<Longrightarrow> rec_files st' = rec_files st \<Longrightarrow>
   grant_files st' = grant_files st \<Longrightarrow> store_ok st' = store_ok st"
  by (simp add: store_ok_def)

lemma audit_frame_store_ok: "audit_frame st st' \<Longrightarrow> store_ok st' = store_ok st"
  by (rule store_ok_cong) (simp_all add: audit_frame_fields)

lemma m9_event_frame: "audit_frame st (snd (m9_event E actor action resource dec res ps st))"
  unfolding audit_frame_def
  by (rule exI [of _ "ticks st"], rule exI [of _ "(event_counter st + 1) mod 2 ^ 64"],
      rule exI [of _ "trail_live st"], rule exI [of _ "trail_rotated st"], rule exI [of _ "trail_detached st"],
      rule exI [of _ "audit_events st"]) (simp add: m9_event_def next_event_id_def)

lemma log_m9_frame: "audit_frame st (log_m9 E actor action resource dec res ps st)"
  unfolding log_m9_def case_prod_beta by (rule audf.le_trans [OF m9_event_frame log_audit_frame])

lemma log_audit_id_frame: "audit_frame st (snd (log_audit_id E ev st))"
  by (simp add: log_audit_id_def Let_def log_audit_frame)

lemma fold_log_frame:
  "audit_frame st (fold (log_expired_approval E) es st)" "audit_frame st (fold (log_expired_grant E) gs st)"
  by (rule audf.fold_le_state, simp add: log_expired_approval_def log_expired_grant_def log_m9_frame)+

text \<open>The summary file is the one thing publishing writes.\<close>

lemma publish_fields [simp]:
  "records (publish_approvals_summary E st) = records st" "grants (publish_approvals_summary E st) = grants st"
  "rec_files (publish_approvals_summary E st) = rec_files st"
  "grant_files (publish_approvals_summary E st) = grant_files st"
  "store_ok (publish_approvals_summary E st) = store_ok st"
  by (simp_all add: publish_approvals_summary_def publish_summary_def Let_def tick_def store_ok_def)

lemma publish_policy: "policy_same st (publish_approvals_summary E st)"
  by (simp add: policy_same_def publish_approvals_summary_def publish_summary_def Let_def tick_def)

lemmas gate_frames = log_m9_frame log_denial_frame m9_event_frame log_audit_id_frame fold_log_frame

lemmas gate_frame_fields [simp] = log_m9_frame [THEN audit_frame_fields(1)]
  log_m9_frame [THEN audit_frame_fields(2)] log_m9_frame [THEN audit_frame_fields(3)]
  log_m9_frame [THEN audit_frame_fields(4)] log_audit_id_frame [THEN audit_frame_fields(1)]
  log_audit_id_frame [THEN audit_frame_fields(2)] m9_event_frame [THEN audit_frame_fields(1)]
  m9_event_frame [THEN audit_frame_fields(2)] gate_frames [THEN audit_frame_store_ok]

section \<open>The sweep\<close>

text \<open>
  Between the two halves of a sweep only audit events are written, so its effect on the store is that
  of the two store operations at the same instant.
\<close>

lemma sweep_approvals_spec:
  fixes E st
  defines "st' \<equiv> sweep_approvals E st" and "now \<equiv> now_secs E st"
  assumes ok: "store_ok st"
  shows "store_ok st'" "swept now (records st) (records st')" "policy_same st st'"
    "bt_get (grants st') k = (case bt_get (grants st) k of
       None \<Rightarrow> None | Some g \<Rightarrow> if is_live g now then Some g else None)"
proof -
  obtain ex st1 where sw: "sweep E now st = (ex, st1)" by (cases "sweep E now st")
  define st2 where "st2 = fold (log_expired_approval E) ex st1"
  obtain gone st3 where sg: "sweep_grants E now st2 = (gone, st3)" by (cases "sweep_grants E now st2")
  define st4 where "st4 = fold (log_expired_grant E) gone st3"
  have st': "st' = st4 \<or> st' = publish_approvals_summary E st4"
    by (simp add: st'_def sweep_approvals_def Let_def now_def [symmetric] sw sg st2_def [symmetric] st4_def)
  have f1: "record_frame st st1" using sweep_frame [of st E now] sw by simp
  have f2: "audit_frame st1 st2" unfolding st2_def by (rule fold_log_frame)
  have f3: "grant_frame st2 st3" using sweep_grants_frame [of st2 E now] sg by simp
  have f4: "audit_frame st3 st4" unfolding st4_def by (rule fold_log_frame)
  have ok2: "store_ok st2" using sweep_spec(1) [OF ok sw] audit_frame_store_ok [OF f2] by simp
  have ok4: "store_ok st4"
    using sweep_grants_store_ok [OF ok2, of E now] sg audit_frame_store_ok [OF f4] by simp
  have r: "records st4 = records st1"
    using audit_frame_fields(1) [OF f2] grant_frame_fields(1) [OF f3] audit_frame_fields(1) [OF f4] by simp
  have g: "grants st2 = grants st" "grants st4 = grants st3"
    using record_frame_fields(1) [OF f1] audit_frame_fields(2) [OF f2] audit_frame_fields(2) [OF f4] by simp_all
  show "store_ok st'" using st' ok4 by auto
  show "swept now (records st) (records st')" using st' sweep_spec(2) [OF ok sw] r by auto
  have "policy_same st st4"
    using record_frame_policy [OF f1] audit_frame_policy [OF f2] grant_frame_policy [OF f3]
      audit_frame_policy [OF f4] by (simp add: policy_same_def)
  then show "policy_same st st'" using st' pols.le_trans [OF _ publish_policy] by auto
  show "bt_get (grants st') k = (case bt_get (grants st) k of
       None \<Rightarrow> None | Some g \<Rightarrow> if is_live g now then Some g else None)"
    using st' sweep_grants_get [OF ok2, of E now k] sg g by auto
qed

section \<open>Who may author and answer\<close>

text \<open>
  C5. An agent cannot author or answer a human's consent. For a peer that is attributed to an agent
  session, or whose cgroup merely mentions an agent scope, resolving an approval, creating one and
  asking for privilege are all refused as denied whatever its uid is, and nothing of the daemon
  changes but the audit trail.
\<close>

theorem agent_never_authors_or_answers:
  assumes "agent_shaped_peer E st p (actor_of E st p)"
  shows "(case handle_approvals_resolve E p i d st of (r, st') \<Rightarrow>
       (\<exists>e. r = Err e \<and> ie_code e = EcDenied) \<and> audit_frame st st') \<and>
    (case handle_approvals_create E p cps st of (r, st') \<Rightarrow>
       (\<exists>e. r = Err e \<and> ie_code e = EcDenied) \<and> audit_frame st st') \<and>
    (case handle_privilege_request E p pps st of (e, st') \<Rightarrow> ie_code e = EcDenied \<and> audit_frame st st')"
  using assms
  by (simp add: handle_approvals_resolve_def handle_approvals_create_def handle_privilege_request_def
      with_details_def log_m9_frame Let_def)

text \<open>A root process inside a well-formed and one inside a malformed agent scope.\<close>

definition demo_scope_env :: "string \<Rightarrow> daemon_env" where
  "demo_scope_env scope = demo_denv\<lparr>env_cgroup := (\<lambda>_ _. Some (''0::/user.slice/'' @ scope))\<rparr>"

definition demo_root :: peer where
  "demo_root = \<lparr>peer_uid = 0, peer_gid = 0, peer_pid = Some 42\<rparr>"

lemma demo_root_fields [simp]: "peer_uid demo_root = 0" "peer_pid demo_root = Some 42"
  by (simp_all add: demo_root_def)

abbreviation demo_state :: daemon where
  "demo_state \<equiv> demo_daemon [demo_envelope ''apr_aaaa1111'' Pending] [demo_grant ''grt_1'']"

lemma demo_scope_smells:
  "peer_smells_of_agent_scope (demo_scope_env ''punar-agent-agt_1.scope'') demo_state (Some 42)"
  "peer_smells_of_agent_scope (demo_scope_env ''punar-agent-.scope'') demo_state (Some 42)"
  "agent_session_of_pid (demo_scope_env ''punar-agent-.scope'') demo_state (Some 42) = None"
  by (simp_all add: peer_smells_of_agent_scope_def agent_session_of_pid_def peer_cgroup_def demo_scope_env_def,
      code_simp+)

theorem agent_never_authors_or_answers_witness:
  "ie_code (fst (handle_privilege_request (demo_scope_env ''punar-agent-agt_1.scope'') demo_root
      \<lparr>pr_capability = ''security.firewall'', pr_reason = ''why'', pr_duration_minutes = None\<rparr>
      demo_state)) = EcDenied"
proof -
  let ?E = "demo_scope_env ''punar-agent-agt_1.scope''"
  have "agent_shaped_peer ?E demo_state demo_root (actor_of ?E demo_state demo_root)"
    using demo_scope_smells(1) by (simp add: agent_shaped_peer_def demo_root_def)
  from agent_never_authors_or_answers [OF this] show ?thesis by (simp add: case_prod_beta)
qed

text \<open>
  C34. The wide agent test does not guard capability changes. A root peer whose cgroup names an agent
  scope without a well-formed session is refused as an agent by \<open>approvals.resolve\<close>, and the same
  peer is authorized as root by the ladder of \<open>capabilities.set\<close>, without any AI ruling.
\<close>

theorem malformed_scope_is_root_for_set:
  assumes "peer_uid p = 0" "agent_session_of_peer E st p = None"
    and "peer_smells_of_agent_scope E st (peer_pid p)"
  shows "(\<exists>e. fst (handle_approvals_resolve E p i d st) = Err e \<and> ie_code e = EcDenied) \<and>
    authorize_capability_set E p (actor_of E st p) c v st = (Ok Root, st)"
proof -
  have "aa_agent_session_id (actor_of E st p) = None"
    using assms(2) by (simp add: actor_of_def cli_peer_def cli_peer_uid_def Let_def split: option.splits)
  then show ?thesis
    using assms(1,3)
    by (simp add: handle_approvals_resolve_def agent_shaped_peer_def authorize_capability_set_def
        with_details_def Let_def)
qed

theorem malformed_scope_is_root_for_set_witness:
  "authorize_capability_set (demo_scope_env ''punar-agent-.scope'') demo_root
     (actor_of (demo_scope_env ''punar-agent-.scope'') demo_state demo_root) ''security.firewall''
     (JStr ''disabled'') demo_state = (Ok Root, demo_state)"
proof -
  have "peer_uid demo_root = 0"
    "agent_session_of_peer (demo_scope_env ''punar-agent-.scope'') demo_state demo_root = None"
    "peer_smells_of_agent_scope (demo_scope_env ''punar-agent-.scope'') demo_state (peer_pid demo_root)"
    using demo_scope_smells(2,3) by (simp_all add: demo_root_def agent_session_of_peer_def)
  from malformed_scope_is_root_for_set [OF this] show ?thesis by blast
qed

section \<open>Executing an approval\<close>

lemma set_preference_fields [simp]:
  "records (snd (set_preference E i e st)) = records st" "grants (snd (set_preference E i e st)) = grants st"
  "rec_files (snd (set_preference E i e st)) = rec_files st"
  "grant_files (snd (set_preference E i e st)) = grant_files st"
  "applied (snd (set_preference E i e st)) = applied st"
  "preferences (snd (set_preference E i e st)) = bt_insert i e (preferences st)"
  "admin_policy (snd (set_preference E i e st)) = admin_policy st"
  "tracker (snd (set_preference E i e st)) = tracker st"
  by (simp_all add: set_preference_def Let_def tick_def)

lemma execute_set_keeps [simp]:
  "records (snd (execute_capability_set E actor cap ps extra st)) = records st"
  "grants (snd (execute_capability_set E actor cap ps extra st)) = grants st"
  "rec_files (snd (execute_capability_set E actor cap ps extra st)) = rec_files st"
  "grant_files (snd (execute_capability_set E actor cap ps extra st)) = grant_files st"
proof -
  let ?p = "set_preference E (cs_capability ps) \<lparr>pe_value = cs_desired_state ps,
      pe_set_at = utc_now_rfc3339 E st, pe_set_by = aa_user_id actor\<rparr> st"
  have "snd (execute_capability_set E actor cap ps extra st) = snd ?p \<or>
      snd (execute_capability_set E actor cap ps extra st) =
        snd (settle_layer_change E actor cap (cs_capability ps) (Some (cs_desired_state ps))
          ''capabilities.set'' extra (snd ?p))"
    by (cases ?p; cases "fst ?p") (simp_all add: execute_capability_set_def)
  then show "records (snd (execute_capability_set E actor cap ps extra st)) = records st"
    "grants (snd (execute_capability_set E actor cap ps extra st)) = grants st"
    "rec_files (snd (execute_capability_set E actor cap ps extra st)) = rec_files st"
    "grant_files (snd (execute_capability_set E actor cap ps extra st)) = grant_files st"
    by (auto simp: settle_keeps)
qed

lemma execute_set_store_ok [simp]:
  "store_ok (snd (execute_capability_set E actor cap ps extra st)) = store_ok st"
  by (rule store_ok_cong) simp_all

lemma execute_approved_capability_keeps [simp]:
  "records (snd (execute_approved_capability E env st)) = records st"
  "grants (snd (execute_approved_capability E env st)) = grants st"
  "store_ok (snd (execute_approved_capability E env st)) = store_ok st"
  by (simp_all add: execute_approved_capability_def case_prod_beta split: option.splits)

lemma put_grant_records [simp]: "records (snd (put_grant E g st)) = records st"
  using grant_frame_fields(1) [OF put_grant_frame] .

lemma execute_approved_privilege_keeps:
  "records (snd (execute_approved_privilege E env st)) = records st"
  "store_ok st \<Longrightarrow> store_ok (snd (execute_approved_privilege E env st))"
  using put_grant_store_ok [of st]
  by (auto simp: execute_approved_privilege_def case_prod_beta Let_def split: option.splits sum.splits)

lemma answer_keeps:
  "records (snd (answer E p d env st)) = records st"
  "store_ok st \<Longrightarrow> store_ok (snd (answer E p d env st))"
  by (auto simp: answer_def execute_approved_def Let_def case_prod_beta execute_approved_privilege_keeps
      split: resolve_decision.splits approval_kind.splits)

text \<open>The answer changes the status, says who and when, and records what was executed.\<close>

lemma fst_answer:
  "fst (answer E p d env st) = (resolved_envelope E st p d env)
     \<lparr>e_execution := (case d of RdApproved \<Rightarrow> fst (execute_approved E (resolved_envelope E st p d env) st)
                    | RdDenied \<Rightarrow> e_execution env)\<rparr>"
  by (auto simp: answer_def resolved_envelope_def set_status_def Let_def case_prod_beta
      split: resolve_decision.splits)

lemma resolved_fields [simp]:
  "env_id (resolved_envelope E st p d env) = env_id env"
  "env_status (resolved_envelope E st p d env) = rd_status d"
  "e_kind (resolved_envelope E st p d env) = e_kind env"
  "e_policy (resolved_envelope E st p d env) = e_policy env"
  by (simp_all add: resolved_envelope_def set_status_def env_id_def env_status_def)

lemma envelope_update_fields [simp]:
  "env_id (env\<lparr>e_execution := x\<rparr>) = env_id env" "env_status (env\<lparr>e_execution := x\<rparr>) = env_status env"
  "env_id (env\<lparr>e_consumed_at := t\<rparr>) = env_id env" "env_status (env\<lparr>e_consumed_at := t\<rparr>) = env_status env"
  "has_lapsed (env\<lparr>e_consumed_at := t\<rparr>) n = has_lapsed env n"
  by (simp_all add: env_id_def env_status_def has_lapsed_def)

lemma swept_pending:
  assumes "swept now m m'" "bt_get m' k = Some e" "env_status e \<noteq> Expired"
  shows "bt_get m k = Some e"
  using assms unfolding swept_def by (auto simp: swept_at_def split: option.splits dest!: spec [of _ k])

section \<open>An answer is given once, in time, by the person asked\<close>

lemma resolve_Ok:
  assumes "handle_approvals_resolve E p i d st = (Ok resolved, st')"
  obtains env st2 where "\<not> agent_shaped_peer E st p (actor_of E st p)"
    "bt_get (records (sweep_approvals E st)) i = Some env"
    "is_answerable env (now_secs E (sweep_approvals E st))"
    "peer_uid p = 0 \<or> peer_user E (sweep_approvals E st) p = a_user (e_approval env)"
    "resolved = fst (answer E p d env (sweep_approvals E st))"
    "put E resolved (snd (answer E p d env (sweep_approvals E st))) = (Ok (), st2)"
    "records st' = records st2" "grants st' = grants st2" "policy_same st2 st'"
proof -
  let ?s = "sweep_approvals E st"
  obtain env where env: "bt_get (records ?s) i = Some env"
    using assms by (auto simp: handle_approvals_resolve_def store_get_def Let_def split: if_splits option.splits)
  let ?a = "answer E p d env ?s"
  have pol: "policy_same s (publish_approvals_summary E (log_m9 E actor a i dec r ps s))" for actor a dec r ps s
    using pols.le_trans [OF audit_frame_policy [OF log_m9_frame] publish_policy] .
  show thesis
  proof (rule that [OF _ env])
    show "\<not> agent_shaped_peer E st p (actor_of E st p)"
      using assms by (auto simp: handle_approvals_resolve_def Let_def)
    have rest: "\<not> (peer_uid p \<noteq> 0 \<and> peer_user E ?s p \<noteq> a_user (e_approval env))"
      "\<not> (env_status env = Pending \<and> has_lapsed env (now_secs E ?s))" "\<not> is_terminal (env_status env)"
      using assms env
      by (auto simp: handle_approvals_resolve_def store_get_def Let_def is_terminal_def split: if_splits)
    then show "is_answerable env (now_secs E ?s)"
      by (cases "env_status env") (auto simp: is_answerable_def is_terminal_def)
    show "peer_uid p = 0 \<or> peer_user E ?s p = a_user (e_approval env)" using rest(1) by blast
    have *: "(case ?a of (resolved, st1) \<Rightarrow> case put E resolved st1 of
        (Err _, st2) \<Rightarrow> (Err internal, st2)
      | (Ok _, st2) \<Rightarrow> (Ok resolved, publish_approvals_summary E
           (log_m9 E (actor_of E st p) ''approval.resolve'' i (case d of RdApproved \<Rightarrow> Allow | RdDenied \<Rightarrow> Deny)
              (approval_status_str (env_status resolved)) [pc_policy_id (e_policy resolved)] st2)))
      = (Ok resolved, st')"
      using assms env rest
      by (auto simp: handle_approvals_resolve_def store_get_def Let_def is_terminal_def split: if_splits)
    then show "resolved = fst ?a" by (auto simp: case_prod_beta split: sum.splits prod.splits)
    with * show "put E resolved (snd ?a) = (Ok (), snd (put E resolved (snd ?a)))"
      by (cases "put E resolved (snd ?a)") (auto simp: case_prod_beta split: sum.splits)
    with * \<open>resolved = fst ?a\<close>
    show "records st' = records (snd (put E resolved (snd ?a)))" "grants st' = grants (snd (put E resolved (snd ?a)))"
      "policy_same (snd (put E resolved (snd ?a))) st'"
      using pol by (auto simp: case_prod_beta split: sum.splits)
  qed
qed

lemma resolve_Ok_pending:
  assumes "store_ok st" "handle_approvals_resolve E p i d st = (Ok resolved, st')"
  obtains env st2 where "bt_get (records st) i = Some env"
    "is_answerable env (now_secs E (sweep_approvals E st))"
    "\<not> agent_shaped_peer E st p (actor_of E st p)"
    "peer_uid p = 0 \<or> peer_user E (sweep_approvals E st) p = a_user (e_approval env)"
    "resolved = fst (answer E p d env (sweep_approvals E st))"
    "put E resolved (snd (answer E p d env (sweep_approvals E st))) = (Ok (), st2)"
    "records st' = records st2" "grants st' = grants st2" "policy_same st2 st'" "env_id env = i"
  using assms(2)
proof (rule resolve_Ok)
  fix env st2
  assume e: "bt_get (records (sweep_approvals E st)) i = Some env"
    "is_answerable env (now_secs E (sweep_approvals E st))"
    and rest: "\<not> agent_shaped_peer E st p (actor_of E st p)"
    "peer_uid p = 0 \<or> peer_user E (sweep_approvals E st) p = a_user (e_approval env)"
    "resolved = fst (answer E p d env (sweep_approvals E st))"
    "put E resolved (snd (answer E p d env (sweep_approvals E st))) = (Ok (), st2)"
    "records st' = records st2" "grants st' = grants st2" "policy_same st2 st'"
  have "bt_get (records st) i = Some env"
    using swept_pending [OF sweep_approvals_spec(2) [OF assms(1)] e(1)] e(2)
    by (simp add: is_answerable_def)
  then show thesis using that e(2) rest store_ok_id [OF assms(1)] by blast
qed

lemma terminal_not_resolvable:
  assumes "store_ok st" "bt_get (records st) i = Some env" "is_terminal (env_status env)"
  shows "\<exists>e. fst (handle_approvals_resolve E p i d st) = Err e"
proof (rule ccontr)
  assume "\<not> ?thesis"
  then obtain r where "handle_approvals_resolve E p i d st = (Ok r, snd (handle_approvals_resolve E p i d st))"
    by (cases "handle_approvals_resolve E p i d st"; cases "fst (handle_approvals_resolve E p i d st)") auto
  with assms(1) show False
    by (rule resolve_Ok_pending) (use assms(2,3) in \<open>auto simp: is_answerable_def is_terminal_def\<close>)
qed

lemma put_other_fields:
  "grants (snd (put E env st)) = grants st" "policy_same st (snd (put E env st))"
  by (rule record_frame_fields(1) [OF put_frame], rule record_frame_policy [OF put_frame])

text \<open>
  C13. An approval is answered at most once, in time, and by the person it names. When
  \<open>approvals.resolve\<close> succeeds, the store held a pending record under that id whose window was still
  open, the peer is not agent-shaped and is root or the user the record is routed to, and the record
  returned is that one with the decision, the resolver and the execution filled in; it is what the
  store then holds unless it has been evicted already. A denial executes nothing. Whoever asks
  again, in any state that still has the answered record, gets an error.
\<close>

theorem resolve_once_in_time:
  assumes "store_ok st" "handle_approvals_resolve E p i d st = (Ok resolved, st')"
  shows "(\<exists>env. bt_get (records st) i = Some env \<and>
      is_answerable env (now_secs E (sweep_approvals E st)) \<and>
      \<not> agent_shaped_peer E st p (actor_of E st p) \<and>
      (peer_uid p = 0 \<or> peer_user E (sweep_approvals E st) p = a_user (e_approval env)) \<and>
      resolved = (resolved_envelope E (sweep_approvals E st) p d env)\<lparr>e_execution := e_execution resolved\<rparr>) \<and>
    bt_get (records st') i \<in> {Some resolved, None} \<and>
    (d = RdDenied \<longrightarrow> policy_same st st' \<and>
       (\<forall>k g. bt_get (grants st') k = Some g \<longrightarrow> bt_get (grants st) k = Some g)) \<and>
    (\<forall>E' p' d' s. store_ok s \<and> bt_get (records s) i = Some resolved \<longrightarrow>
       (\<exists>e. fst (handle_approvals_resolve E' p' i d' s) = Err e))"
  using assms
proof (rule resolve_Ok_pending)
  fix env st2
  let ?s = "sweep_approvals E st" and ?a = "answer E p d env (sweep_approvals E st)"
  assume env: "bt_get (records st) i = Some env" "is_answerable env (now_secs E ?s)"
    "\<not> agent_shaped_peer E st p (actor_of E st p)"
    "peer_uid p = 0 \<or> peer_user E ?s p = a_user (e_approval env)"
    and r: "resolved = fst ?a" and pt: "put E resolved (snd ?a) = (Ok (), st2)"
    and st': "records st' = records st2" "grants st' = grants st2" "policy_same st2 st'" and i: "env_id env = i"
  have res: "resolved = (resolved_envelope E ?s p d env)\<lparr>e_execution := e_execution resolved\<rparr>"
    unfolding r fst_answer by simp
  have rid: "env_id resolved = i" and closed: "is_terminal (env_status resolved)"
    unfolding r fst_answer using i by (cases d; simp add: is_terminal_def)+
  have ok: "store_ok ?s" by (rule sweep_approvals_spec(1) [OF assms(1)])
  have "bt_get (records st') i \<in> {Some resolved, None}"
    using put_by_key [OF answer_keeps(2) [OF ok, of E p d env] rid, of E] pt st'(1) by auto
  moreover have "policy_same st st' \<and> (\<forall>k g. bt_get (grants st') k = Some g \<longrightarrow> bt_get (grants st) k = Some g)"
    if "d = RdDenied"
  proof -
    have a: "snd ?a = ?s" using that by (simp add: answer_def Let_def)
    have "policy_same ?s st2" "grants st2 = grants ?s" using put_other_fields [where E = E and env = resolved and st = ?s] pt a by simp_all
    then show ?thesis
      using sweep_approvals_spec(3) [OF assms(1), of E] sweep_approvals_spec(4) [OF assms(1), of E] st'
      by (auto simp: policy_same_def split: option.splits if_splits)
  qed
  ultimately show ?thesis using env res terminal_not_resolvable [OF _ _ closed] by blast
qed

text \<open>A sweep that finds nothing to retire changes nothing.\<close>

lemma sweep_approvals_idle:
  assumes "lapsed_ids st (now_secs E st) = []" "\<forall>g \<in> set (bt_values (grants st)). is_live g (now_secs E st)"
  shows "sweep_approvals E st = st"
proof -
  have "filter (\<lambda>g. \<not> is_live g (now_secs E st)) (bt_values (grants st)) = []"
    using assms(2) by (simp add: filter_empty_conv)
  then show ?thesis using assms(1) by (simp add: sweep_approvals_def sweep_def sweep_grants_def Let_def)
qed

lemma demo_clock:
  "env_clock demo_denv t = 1767225600000" "env_disk demo_denv t" "env_passwd demo_denv t = None"
  "env_cgroup demo_denv t q = None"
  by (simp_all add: demo_denv_def demo_store_env_def store_env.defs daemon_env.defs)

lemma demo_in_range: "clock_in_range demo_denv"
  by (simp add: clock_in_range_def demo_clock)

lemma demo_now [simp]: "now_secs demo_denv st = 1767225600"
  by (simp add: now_secs_exact [OF demo_in_range] demo_clock)

lemma demo_idle: "sweep_approvals demo_denv demo_state = demo_state"
proof (rule sweep_approvals_idle)
  show "lapsed_ids demo_state (now_secs demo_denv demo_state) = []"
    by (simp add: lapsed_ids_def demo_store_def bt_values_def)
  show "\<forall>g \<in> set (bt_values (grants demo_state)). is_live g (now_secs demo_denv demo_state)"
    by (simp add: demo_store_def bt_values_def)
qed

lemma demo_not_agent: "\<not> agent_shaped_peer demo_denv st demo_root (actor_of demo_denv st demo_root)"
  by (simp add: agent_shaped_peer_def actor_of_def agent_session_of_peer_def agent_session_of_pid_def
      peer_smells_of_agent_scope_def peer_cgroup_def demo_clock cli_peer_def cli_peer_uid_def Let_def
      split: option.splits)

lemma demo_put:
  assumes "validate_approval_schema (e_approval env) = Ok ()" "length (env_id env) < 100"
    and "length (records st) < 100"
  shows "fst (put demo_denv env st) = Ok ()"
proof -
  have l: "length (bt_insert k v m) \<le> Suc (length m)" for k v and m :: "(string \<times> approval_envelope) list"
    by (induction k v m rule: bt_insert.induct) auto
  have "length (bt_insert (env_id env) env (records st)) \<le> MAX_APPROVAL_RECORDS"
    using l [of "env_id env" env "records st"] assms(3) by (simp add: MAX_APPROVAL_RECORDS_def)
  then have e: "evict_loop demo_denv n (tick (st\<lparr>rec_files := f,
      records := bt_insert (env_id env) env (records st)\<rparr>)) =
      (True, tick (st\<lparr>rec_files := f, records := bt_insert (env_id env) env (records st)\<rparr>))" for n f
    by (cases n) simp_all
  have "length (ser_envelope demo_denv env) \<le> APPROVAL_RECORD_MAX_BYTES"
    using assms(2) by (simp add: demo_denv_def demo_store_env_def store_env.defs daemon_env.defs
        APPROVAL_RECORD_MAX_BYTES_def)
  then show ?thesis
    using assms(1)
    by (simp add: put_def write_atomic_synced_def evict_if_needed_def e write_index_def demo_clock Let_def)
qed

theorem resolve_once_in_time_witness:
  "case handle_approvals_resolve demo_denv demo_root ''apr_aaaa1111'' RdDenied demo_state of (r, st') \<Rightarrow>
     \<exists>resolved. r = Ok resolved \<and> env_status resolved = Denied \<and>
       bt_get (records st') ''apr_aaaa1111'' \<in> {Some resolved, None}"
proof -
  let ?h = "handle_approvals_resolve demo_denv demo_root ''apr_aaaa1111'' RdDenied demo_state"
  let ?e = "demo_envelope ''apr_aaaa1111'' Pending"
  let ?r = "resolved_envelope demo_denv demo_state demo_root RdDenied ?e"
  have "validate_approval_schema (e_approval (demo_envelope ''apr_aaaa1111'' Denied)) = Ok ()" by code_simp
  moreover have "e_approval ?r = e_approval (demo_envelope ''apr_aaaa1111'' Denied)"
    by (simp add: resolved_envelope_def set_status_def demo_envelope_def)
  ultimately have "fst (put demo_denv ?r demo_state) = Ok ()"
    by (intro demo_put) (simp_all add: demo_store_def)
  moreover have "store_get demo_state ''apr_aaaa1111'' = Some ?e"
    by (simp add: store_get_def demo_store_def bt_get_single)
  ultimately have h: "?h = (Ok ?r, snd ?h)"
    by (simp add: handle_approvals_resolve_def Let_def demo_not_agent demo_idle answer_def
        is_terminal_def case_prod_beta split: sum.splits)
  have "store_ok demo_state" using demo_daemon_ok by (simp add: daemon_ok_def)
  from resolve_once_in_time [OF this h]
  have "bt_get (records (snd ?h)) ''apr_aaaa1111'' \<in> {Some ?r, None}" by (elim conjE)
  moreover have "env_status ?r = Denied" by simp
  ultimately show ?thesis by (subst h) blast
qed

section \<open>An approved credential is spent once\<close>

lemma consume_Ok:
  assumes "handle_approvals_consume E p i st = (Ok (c, t), st')"
  obtains env st2 where "peer_uid p = 0" "bt_get (records (sweep_approvals E st)) i = Some env"
    "e_kind env = CredentialRequest" "\<not> has_lapsed env (now_secs E (sweep_approvals E st))"
    "env_status env = Approved" "e_consumed_at env = None" "c = env\<lparr>e_consumed_at := Some t\<rparr>"
    "put E c (sweep_approvals E st) = (Ok (), st2)" "records st' = records st2" "grants st' = grants st2"
    "policy_same st2 st'"
proof -
  let ?s = "sweep_approvals E st"
  have pol: "policy_same s (publish_approvals_summary E (log_m9 E actor a i dec r ps s))" for actor a dec r ps s
    using pols.le_trans [OF audit_frame_policy [OF log_m9_frame] publish_policy] .
  obtain env where env: "peer_uid p = 0" "bt_get (records ?s) i = Some env"
    "e_kind env = CredentialRequest" "\<not> has_lapsed env (now_secs E ?s)"
    "env_status env = Approved" "e_consumed_at env = None"
    using assms by (auto simp: handle_approvals_consume_def store_get_def Let_def split: if_splits option.splits)
  let ?c = "env\<lparr>e_consumed_at := Some (utc_now_rfc3339 E ?s)\<rparr>"
  have h: "handle_approvals_consume E p i st = (case put E ?c ?s of
      (Err _, st1) \<Rightarrow> (Err internal, st1)
    | (Ok _, st1) \<Rightarrow> (Ok (?c, utc_now_rfc3339 E ?s), publish_approvals_summary E
        (log_m9 E (actor_of E st p) ''approval.consume'' i Allow ''consumed'' [pc_policy_id (e_policy ?c)] st1)))"
    using env by (simp add: handle_approvals_consume_def store_get_def Let_def)
  obtain r st1 where pt: "put E ?c ?s = (r, st1)" by (cases "put E ?c ?s")
  with h assms have "r = Ok ()" "c = ?c" "t = utc_now_rfc3339 E ?s"
    "st' = publish_approvals_summary E (log_m9 E (actor_of E st p) ''approval.consume'' i Allow
        ''consumed'' [pc_policy_id (e_policy ?c)] st1)"
    by (auto split: sum.splits)
  with env pt pol show thesis by (intro that [OF env]) simp_all
qed

text \<open>
  C22. A yes is spent once. When \<open>approvals.consume\<close> succeeds, the caller is root and the store held
  an approved, unlapsed, unspent credential request under that id; the result is that record marked
  as spent, and nothing but the approval records has changed. In any state that still has the spent
  record every further attempt, by anyone and at any time, is an error.
\<close>

theorem consume_is_single_use:
  assumes "store_ok st" "handle_approvals_consume E p i st = (Ok (c, t), st')"
  shows "peer_uid p = 0 \<and>
    (\<exists>env. bt_get (records st) i = Some env \<and> e_kind env = CredentialRequest \<and> env_status env = Approved \<and>
       e_consumed_at env = None \<and> \<not> has_lapsed env (now_secs E (sweep_approvals E st)) \<and>
       c = env\<lparr>e_consumed_at := Some t\<rparr>) \<and>
    bt_get (records st') i \<in> {Some c, None} \<and> policy_same st st' \<and>
    (\<forall>E' p' s. store_ok s \<and> bt_get (records s) i = Some c \<longrightarrow>
       (\<exists>e. fst (handle_approvals_consume E' p' i s) = Err e))"
  using assms(2)
proof (rule consume_Ok)
  fix env st2
  let ?s = "sweep_approvals E st"
  assume env: "peer_uid p = 0" "bt_get (records ?s) i = Some env" "e_kind env = CredentialRequest"
    "\<not> has_lapsed env (now_secs E ?s)" "env_status env = Approved" "e_consumed_at env = None"
    and c: "c = env\<lparr>e_consumed_at := Some t\<rparr>" and pt: "put E c ?s = (Ok (), st2)"
    and st': "records st' = records st2" "policy_same st2 st'"
  have get: "bt_get (records st) i = Some env"
    using swept_pending [OF sweep_approvals_spec(2) [OF assms(1)] env(2)] env(5) by simp
  have "env_id c = i" using store_ok_id [OF assms(1) get] c by simp
  then have here: "bt_get (records st') i \<in> {Some c, None}"
    using put_by_key [OF sweep_approvals_spec(1) [OF assms(1)], of c i E E] pt st'(1) by auto
  have same: "policy_same st st'"
    using put_other_fields(2) [of ?s E c] pt st'(2) sweep_approvals_spec(3) [OF assms(1), of E]
    by (simp add: policy_same_def)
  have again: "\<exists>e. fst (handle_approvals_consume E' p' i s) = Err e"
    if s: "store_ok s" "bt_get (records s) i = Some c" for E' p' s
  proof (rule ccontr)
    assume "\<not> ?thesis"
    then obtain x where "handle_approvals_consume E' p' i s = (Ok x, snd (handle_approvals_consume E' p' i s))"
      by (cases "handle_approvals_consume E' p' i s"; cases "fst (handle_approvals_consume E' p' i s)") auto
    then show False
    proof (cases x, simp only:, elim consume_Ok)
      fix env' assume "bt_get (records (sweep_approvals E' s)) i = Some env'" "env_status env' = Approved"
        "e_consumed_at env' = None"
      then show False using swept_pending [OF sweep_approvals_spec(2) [OF s(1)], of E' i env'] s(2) c by auto
    qed
  qed
  from env get c here same again show ?thesis by blast
qed

lemma demo_single:
  assumes "validate_approval_schema (e_approval e) = Ok ()" "\<not> (env_status e = Pending \<and> has_lapsed e 1767225600)"
  shows "daemon_ok (demo_daemon [e] [])" "sweep_approvals demo_denv (demo_daemon [e] []) = demo_daemon [e] []"
    "bt_get (records (demo_daemon [e] [])) k = (if k = env_id e then Some e else None)"
proof -
  show "daemon_ok (demo_daemon [e] [])"
    using assms(1) by (simp add: daemon_ok_def store_ok_def demo_store_def bt_get_single bt_ok_Cons) (simp add: bt_get_def)
  show "sweep_approvals demo_denv (demo_daemon [e] []) = demo_daemon [e] []"
    using assms(2) by (intro sweep_approvals_idle) (simp_all add: lapsed_ids_def demo_store_def bt_values_def)
  show "bt_get (records (demo_daemon [e] [])) k = (if k = env_id e then Some e else None)"
    by (simp add: demo_store_def bt_get_def)
qed

definition demo_credential :: approval_envelope where
  "demo_credential = (demo_envelope ''apr_cccc3333'' Approved)\<lparr>e_kind := CredentialRequest\<rparr>"

theorem consume_is_single_use_witness:
  "case handle_approvals_consume demo_denv demo_root ''apr_cccc3333'' (demo_daemon [demo_credential] []) of (r, st') \<Rightarrow>
     \<exists>c t. r = Ok (c, t) \<and> bt_get (records st') ''apr_cccc3333'' \<in> {Some c, None}"
proof -
  let ?st = "demo_daemon [demo_credential] []"
  let ?h = "handle_approvals_consume demo_denv demo_root ''apr_cccc3333'' ?st"
  have f: "env_id demo_credential = ''apr_cccc3333''" "env_status demo_credential = Approved"
    "e_consumed_at demo_credential = None" "e_kind demo_credential = CredentialRequest"
    "\<not> has_lapsed demo_credential 1767225600"
    by (simp_all add: demo_credential_def demo_envelope_def env_id_def env_status_def has_lapsed_def)
  have v: "validate_approval_schema (e_approval demo_credential) = Ok ()" by code_simp
  note d = demo_single [OF v, unfolded f(2), simplified]
  let ?c = "demo_credential\<lparr>e_consumed_at := Some (utc_now_rfc3339 demo_denv ?st)\<rparr>"
  have "fst (put demo_denv ?c ?st) = Ok ()" by (rule demo_put) (simp_all add: v f demo_store_def)
  then have h: "?h = (Ok (?c, utc_now_rfc3339 demo_denv ?st), snd ?h)"
    using f d
    by (simp add: handle_approvals_consume_def Let_def store_get_def case_prod_beta split: sum.splits)
  have "store_ok ?st" using d(1) by (simp add: daemon_ok_def)
  from consume_is_single_use [OF this h] have "bt_get (records (snd ?h)) ''apr_cccc3333'' \<in> {Some ?c, None}"
    by (elim conjE)
  then show ?thesis by (subst h) blast
qed

section \<open>How many questions may be open\<close>

definition holds_at :: "('v \<Rightarrow> bool) \<Rightarrow> ('k, 'v) btree_map \<Rightarrow> 'k set" where
  "holds_at P m = {k. \<exists>v. bt_get m k = Some v \<and> P v}"

lemma filter_values_card:
  assumes "bt_ok m"
  shows "length (filter P (bt_values m)) = card (holds_at P m)" "finite (holds_at P m)"
proof -
  have "holds_at P m = fst ` set (filter (\<lambda>e. P (snd e)) m)"
    using bt_entries_get [OF assms] by (force simp: holds_at_def)
  moreover have "distinct (map fst (filter (\<lambda>e. P (snd e)) m))"
    using bt_ok_distinct [OF assms] by (rule distinct_map_filter)
  ultimately have "card (holds_at P m) = length (filter (\<lambda>e. P (snd e)) m)"
    by (metis distinct_card length_map set_map)
  then show "length (filter P (bt_values m)) = card (holds_at P m)"
    by (simp add: bt_values_def filter_map comp_def)
  show "finite (holds_at P m)" unfolding \<open>holds_at P m = _\<close> by simp
qed

lemma put_holds_at:
  assumes "store_ok st" "\<And>e. is_terminal (env_status e) \<Longrightarrow> \<not> P e"
  shows "holds_at P (records (snd (put E env st))) \<subseteq> insert (env_id env) (holds_at P (records st))"
  using put_by_key [OF assms(1) refl, of E env] unfolding holds_at_def by auto

lemma put_count:
  assumes "store_ok st" "\<And>e. is_terminal (env_status e) \<Longrightarrow> \<not> P e"
  shows "length (filter P (bt_values (records (snd (put E env st))))) \<le> Suc (length (filter P (bt_values (records st))))"
proof -
  have fin: "finite (holds_at P (records st))" by (rule filter_values_card(2) [OF store_ok_bt(1) [OF assms(1)]])
  have "card (holds_at P (records (snd (put E env st)))) \<le> card (insert (env_id env) (holds_at P (records st)))"
    by (rule card_mono [OF _ put_holds_at [OF assms]]) (simp add: fin)
  also have "\<dots> \<le> Suc (card (holds_at P (records st)))" by (simp add: card_insert_if fin)
  finally show ?thesis
    using filter_values_card(1) [OF store_ok_bt(1) [OF assms(1)]]
      filter_values_card(1) [OF store_ok_bt(1) [OF put_store_ok [OF assms(1), of E env]]] by simp
qed

lemma create_Ok:
  assumes "create_approval E actor spec st = (Ok env, st')"
  obtains h st2 where "random_hex E 4 st = Some h" "env = envelope_of E st spec (APPROVAL_ID_PREFIX @ h)"
    "pending_count st (now_secs E st) < MAX_PENDING_APPROVALS"
    "pending_for_requester st (rq_id (na_requester spec)) (now_secs E st) < MAX_PENDING_PER_REQUESTER"
    "put E env st = (Ok (), st2)" "records st' = records st2" "grants st' = grants st2"
    "policy_same st2 st'" "store_ok st' = store_ok st2" "validate_reason (na_reason spec) = Ok ()"
proof -
  have pol: "policy_same s (publish_approvals_summary E (log_m9 E actor a i dec r ps s))" for a i dec r ps s
    using pols.le_trans [OF audit_frame_policy [OF log_m9_frame] publish_policy] .
  obtain h where h: "random_hex E 4 st = Some h" "validate_reason (na_reason spec) = Ok ()"
    "\<not> (pending_count st (now_secs E st) \<ge> MAX_PENDING_APPROVALS \<or>
        pending_for_requester st (rq_id (na_requester spec)) (now_secs E st) \<ge> MAX_PENDING_PER_REQUESTER)"
    using assms by (auto simp: create_approval_def Let_def split: sum.splits if_splits option.splits)
  let ?e = "envelope_of E st spec (APPROVAL_ID_PREFIX @ h)"
  have c: "create_approval E actor spec st = (case put E ?e st of
      (Err _, st1) \<Rightarrow> (Err internal, st1)
    | (Ok _, st1) \<Rightarrow> (Ok ?e, publish_approvals_summary E (log_m9 E actor ''approval.create''
        (APPROVAL_ID_PREFIX @ h) ApprovalRequired ''pending'' [pc_policy_id (e_policy ?e)] st1)))"
    using h by (simp add: create_approval_def Let_def)
  obtain r st1 where pt: "put E ?e st = (r, st1)" by (cases "put E ?e st")
  with c assms have "r = Ok ()" "env = ?e" "st' = publish_approvals_summary E (log_m9 E actor
      ''approval.create'' (APPROVAL_ID_PREFIX @ h) ApprovalRequired ''pending'' [pc_policy_id (e_policy ?e)] st1)"
    by (auto split: sum.splits)
  with h pt pol show thesis by (intro that) simp_all
qed

lemma envelope_of_fields [simp]:
  "env_id (envelope_of E st spec i) = i" "env_status (envelope_of E st spec i) = Pending"
  "rq_id (a_requester (e_approval (envelope_of E st spec i))) = rq_id (na_requester spec)"
  by (simp_all add: envelope_of_def env_id_def env_status_def)

lemma created_question:
  assumes "store_ok st" "clock_in_range E" "create_approval E actor spec st = (Ok env, st')"
  shows "pending_count st' (now_secs E st) \<le> MAX_PENDING_APPROVALS \<and>
    pending_for_requester st' (rq_id (na_requester spec)) (now_secs E st) \<le> MAX_PENDING_PER_REQUESTER \<and>
    bt_get (records st') (env_id env) = Some env \<and> env_status env = Pending \<and>
    (\<exists>w. unix_seconds_from_rfc3339 (a_expires_at (e_approval env)) = Some (now_secs E st + w) \<and> 15 \<le> w \<and> w \<le> 300) \<and>
    grants st' = grants st \<and> policy_same st st'"
  using assms(3)
proof (rule create_Ok)
  fix h st2
  assume env: "env = envelope_of E st spec (APPROVAL_ID_PREFIX @ h)"
    and lt: "pending_count st (now_secs E st) < MAX_PENDING_APPROVALS"
    "pending_for_requester st (rq_id (na_requester spec)) (now_secs E st) < MAX_PENDING_PER_REQUESTER"
    and pt: "put E env st = (Ok (), st2)"
    and st': "records st' = records st2" "grants st' = grants st2" "policy_same st2 st'"
  have "pending_count st' (now_secs E st) \<le> Suc (pending_count st (now_secs E st))"
    using put_count [OF assms(1), of "\<lambda>e. is_answerable e (now_secs E st)" E env] pt st'(1)
    by (simp add: pending_count_def is_answerable_def is_terminal_def)
  moreover have "pending_for_requester st' (rq_id (na_requester spec)) (now_secs E st) \<le>
      Suc (pending_for_requester st (rq_id (na_requester spec)) (now_secs E st))"
    using put_count [OF assms(1), of "\<lambda>e. is_answerable e (now_secs E st) \<and>
        rq_id (a_requester (e_approval e)) = rq_id (na_requester spec)" E env] pt st'(1)
    by (simp add: pending_for_requester_def is_answerable_def is_terminal_def)
  moreover have "bt_get (records st') (env_id env) = Some env"
    using put_by_key [OF assms(1) refl, of E env] pt st'(1) env by (auto simp: is_terminal_def)
  moreover have "unix_seconds_from_rfc3339 (a_expires_at (e_approval env)) =
      Some (now_secs E st + clamp_ttl (na_ttl spec))"
    using rfc3339_in_parses(1) [OF assms(2), of "clamp_ttl (na_ttl spec)" st] clamp_ttl_bounds(2) [of "na_ttl spec"]
    unfolding env envelope_of_def by simp
  moreover have "policy_same st st'" "grants st' = grants st"
    using put_other_fields(1) [of E env st] put_other_fields(2) [of st E env] pt st' by (simp_all add: policy_same_def)
  ultimately show ?thesis
    using lt env clamp_ttl_bounds [of "na_ttl spec"]
    by (auto simp: APPROVAL_TTL_MIN_SECS_def APPROVAL_TTL_MAX_SECS_def)
qed

text \<open>
  C27. Approval fatigue is bounded. When an approval is raised, at that instant at most
  \<open>MAX_PENDING_APPROVALS\<close> questions are open on the device and at most \<open>MAX_PENDING_PER_REQUESTER\<close>
  of them from this requester, counting the new one; the new record is in the store, pending, with a
  window of 15 to 300 seconds; and grants, policy layers and backends are untouched. At either bound
  the request is refused, as denied or for its malformed reason, and nothing but the audit trail
  changes.
\<close>

theorem open_questions_are_bounded:
  assumes "store_ok st" "clock_in_range E" "create_approval E actor spec st = (r, st')"
  shows "(\<forall>env. r = Ok env \<longrightarrow>
      pending_count st' (now_secs E st) \<le> MAX_PENDING_APPROVALS \<and>
      pending_for_requester st' (rq_id (na_requester spec)) (now_secs E st) \<le> MAX_PENDING_PER_REQUESTER \<and>
      bt_get (records st') (env_id env) = Some env \<and> env_status env = Pending \<and>
      (\<exists>w. unix_seconds_from_rfc3339 (a_expires_at (e_approval env)) = Some (now_secs E st + w) \<and>
         15 \<le> w \<and> w \<le> 300) \<and>
      grants st' = grants st \<and> policy_same st st') \<and>
    (pending_count st (now_secs E st) \<ge> MAX_PENDING_APPROVALS \<or>
     pending_for_requester st (rq_id (na_requester spec)) (now_secs E st) \<ge> MAX_PENDING_PER_REQUESTER \<longrightarrow>
       (\<exists>e. r = Err e \<and> ie_code e \<in> {EcDenied, EcInvalidParams}) \<and> audit_frame st st')"
proof (rule conjI, intro allI impI)
  fix env assume "r = Ok env"
  then show "pending_count st' (now_secs E st) \<le> MAX_PENDING_APPROVALS \<and>
      pending_for_requester st' (rq_id (na_requester spec)) (now_secs E st) \<le> MAX_PENDING_PER_REQUESTER \<and>
      bt_get (records st') (env_id env) = Some env \<and> env_status env = Pending \<and>
      (\<exists>w. unix_seconds_from_rfc3339 (a_expires_at (e_approval env)) = Some (now_secs E st + w) \<and> 15 \<le> w \<and> w \<le> 300) \<and>
      grants st' = grants st \<and> policy_same st st'"
    using created_question [OF assms(1,2)] assms(3) by simp
qed (use assms(3) in \<open>auto simp: create_approval_def Let_def with_details_def log_m9_frame audit_frame_refl
      split: sum.splits if_splits\<close>)

definition demo_spec :: new_approval where
  "demo_spec = \<lparr>na_kind = CapabilitySet, na_capability = ''security.firewall'', na_resource = ''disabled'',
     na_reason = ''why'', na_risk = High, na_user = ''alice'',
     na_requester = \<lparr>rq_kind = AiAgent, rq_id = ''agt_1''\<rparr>, na_ttl = None, na_contract = None,
     na_policy = personal_citation, na_request = \<lparr>req_method = ''capabilities.set'', req_params = JNull\<rparr>,
     na_requester_peer = None\<rparr>"

lemma demo_random: "random_hex demo_denv 4 (demo_daemon es gs) = Some ''00000000''"
proof -
  have "replicate 4 (0 :: nat) = [0, 0, 0, 0]" by (simp add: numeral_eq_Suc)
  then have "env_urandom demo_denv 0 4 = Some [0, 0, 0, 0]"
    by (simp add: demo_denv_def demo_store_env_def store_env.defs daemon_env.defs)
  moreover have "hex [0, 0, 0, 0] = ''00000000''" by code_simp
  ultimately show ?thesis by (simp add: random_hex_def)
qed

lemma demo_create:
  "create_approval demo_denv actor demo_spec (demo_daemon [] []) =
     (Ok (envelope_of demo_denv (demo_daemon [] []) demo_spec ''apr_00000000''),
      snd (create_approval demo_denv actor demo_spec (demo_daemon [] [])))"
proof -
  let ?e = "envelope_of demo_denv (demo_daemon [] []) demo_spec ''apr_00000000''"
  have t: "is_rfc3339_timestamp (rfc3339_in demo_denv (demo_daemon [] []) (clamp_ttl None))"
    by (rule rfc3339_in_parses(2) [OF demo_in_range]) (use clamp_ttl_bounds(2) [of None] in simp)
  have a: "e_approval ?e = (e_approval (demo_envelope ''apr_00000000'' Pending))
      \<lparr>a_requester := \<lparr>rq_kind = AiAgent, rq_id = ''agt_1''\<rparr>, a_capability := ''security.firewall'',
       a_resource := ''disabled'', a_risk := High,
       a_expires_at := rfc3339_in demo_denv (demo_daemon [] []) (clamp_ttl None)\<rparr>"
    by (simp add: envelope_of_def demo_spec_def demo_envelope_def)
  have v: "validate_approval_schema ((e_approval (demo_envelope ''apr_00000000'' Pending))
      \<lparr>a_requester := \<lparr>rq_kind = AiAgent, rq_id = ''agt_1''\<rparr>, a_capability := ''security.firewall'',
       a_resource := ''disabled'', a_risk := High\<rparr>) = Ok ()" by code_simp
  have "validate_approval_schema (e_approval ?e) = Ok ()"
    using v t unfolding a by (simp add: approval_valid_iff)
  then have "fst (put demo_denv ?e (demo_daemon [] [])) = Ok ()"
    by (rule demo_put) (simp_all add: demo_store_def)
  moreover have "validate_reason ''why'' = Ok ()" by code_simp
  moreover have "pending_count (demo_daemon [] []) n = 0" "pending_for_requester (demo_daemon [] []) q n = 0" for n q
    by (simp_all add: pending_count_def pending_for_requester_def demo_store_def bt_values_def)
  ultimately show ?thesis
    by (simp add: create_approval_def demo_random Let_def case_prod_beta APPROVAL_ID_PREFIX_def
        MAX_PENDING_APPROVALS_def MAX_PENDING_PER_REQUESTER_def split: sum.splits)
       (simp add: demo_spec_def)
qed

theorem open_questions_are_bounded_witness:
  "case create_approval demo_denv daemon_actor demo_spec (demo_daemon [] []) of (r, st') \<Rightarrow>
     is_ok r \<and> pending_count st' (now_secs demo_denv (demo_daemon [] [])) \<le> MAX_PENDING_APPROVALS"
proof -
  have "store_ok (demo_daemon [] [])" by (simp add: store_ok_def demo_store_def bt_get_def)
  from open_questions_are_bounded [OF this demo_in_range demo_create [of daemon_actor]]
  show ?thesis by (subst demo_create) (simp add: is_ok_def)
qed

section \<open>The authorization ladder\<close>

lemma put_policy: "policy_same st (snd (put E env st))"
  by (rule put_other_fields(2))

lemma create_policy: "policy_same st (snd (create_approval E actor spec st))"
proof -
  note audit_frame_policy [OF log_m9_frame]
  moreover have "put E env s = (x, s') \<Longrightarrow>
      policy_same s (publish_approvals_summary E (log_m9 E actor a i dec r ps s'))" for env s s' x a i dec r ps
    using pols.le_trans [OF put_policy [of s E env] pols.le_trans [OF audit_frame_policy [OF log_m9_frame] publish_policy]]
    by simp
  moreover have "put E env s = (x, s') \<Longrightarrow> policy_same s s'" for env s s' x
    using put_policy [of s E env] by simp
  ultimately show ?thesis
    by (auto simp: create_approval_def Let_def pols.le_refl split: sum.splits option.splits prod.splits)
qed

lemma authorize_agent_policy:
  assumes "store_ok st"
  shows "policy_same st (snd (authorize_agent_capability_set E actor session i desired st))"
proof -
  let ?s = "sweep_approvals E st"
  have sw: "policy_same st ?s" by (rule sweep_approvals_spec(3) [OF assms])
  have "create_approval E actor spec ?s = (x, s') \<Longrightarrow> policy_same st s'" for spec x s'
    using pols.le_trans [OF sw create_policy [of ?s E actor spec]] by simp
  then have "create_approval E actor spec ?s = (x, s') \<Longrightarrow>
      policy_same st (log_m9 E actor a j dec r ps s')" for spec x s' a j dec r ps
    using pols.le_trans [OF _ audit_frame_policy [OF log_m9_frame]] by blast
  with \<open>\<And>x spec s'. create_approval E actor spec ?s = (x, s') \<Longrightarrow> policy_same st s'\<close> show ?thesis
    by (auto simp: authorize_agent_capability_set_def pols.le_refl audit_frame_policy [OF log_denial_frame]
        split: option.splits decision.splits sum.splits prod.splits)
qed

lemma authorize_policy:
  assumes "store_ok st"
  shows "policy_same st (snd (authorize_capability_set E p actor i desired st))"
  using sweep_approvals_spec(3) [OF assms, of E] authorize_agent_policy [OF assms]
    pols.le_trans [OF _ audit_frame_policy [OF log_denial_frame]]
  by (auto simp: authorize_capability_set_def Let_def pols.le_refl split: option.splits)

text \<open>What the ladder accepts as authority, from the state the request arrived in.\<close>

definition has_authority :: "daemon_env \<Rightarrow> daemon \<Rightarrow> peer \<Rightarrow> audit_actor \<Rightarrow> string \<Rightarrow> bool" where
  "has_authority E st p actor i \<longleftrightarrow>
     (case aa_agent_session_id actor of
        Some session \<Rightarrow>
          (\<exists>token ruling. host_token_for_capability i = Some token \<and>
             host_ruling (ai st) token = Some ruling \<and> ar_decision ruling = Allow)
      | None \<Rightarrow>
          peer_uid p = 0 \<or>
          (\<exists>g. bt_get (grants st) (g_grant_id g) = Some g \<and> g_uid g = peer_uid p \<and> g_capability g = i \<and>
             is_live g (now_secs E (sweep_approvals E st))))"

lemma authorize_Ok:
  assumes "store_ok st" "authorize_capability_set E p actor i desired st = (Ok authority, st')"
  shows "has_authority E st p actor i"
proof (cases "aa_agent_session_id actor")
  case (Some session)
  then have "authorize_agent_capability_set E actor session i desired st = (Ok authority, st')"
    using assms(2) by (simp add: authorize_capability_set_def)
  then obtain token ruling where "host_token_for_capability i = Some token"
    "host_ruling (ai st) token = Some ruling" "ar_decision ruling = Allow"
    by (auto simp: authorize_agent_capability_set_def bind_eq_Some_conv
        split: option.splits decision.splits sum.splits prod.splits)
  then show ?thesis using Some by (auto simp: has_authority_def)
next
  case None
  let ?s = "sweep_approvals E st"
  have ok: "store_ok ?s" by (rule sweep_approvals_spec(1) [OF assms(1)])
  show ?thesis
  proof (cases "peer_uid p = 0")
    case False
    with None assms(2) obtain g where "live_grant ?s (peer_uid p) i (now_secs E ?s) = Some g"
      by (auto simp: authorize_capability_set_def Let_def split: option.splits)
    note g = live_grant_Some [OF ok this]
    have "bt_get (grants st) (g_grant_id g) = Some g"
      using sweep_approvals_spec(4) [OF assms(1), of E "g_grant_id g"] g(1)
      by (auto split: option.splits if_splits)
    with g None show ?thesis by (auto simp: has_authority_def)
  qed (simp add: has_authority_def None)
qed

text \<open>
  C1. No capability changes without authority. If a \<open>capabilities.set\<close> call records a preference or
  reaches a backend, the capability is registered and accepted the value, and the caller had
  authority for it: an agent, whatever its uid and whatever grants its user holds, an explicit allow
  of the AI policy for this capability; anyone else root, or a grant that is theirs, for exactly
  this capability, and live.
\<close>

theorem capability_change_needs_authority:
  assumes "store_ok st" "handle_capabilities_set E p ps st = (r, st')"
    and "applied st' \<noteq> applied st \<or> preferences st' \<noteq> preferences st"
  shows "(\<exists>cap. registry_get E (cs_capability ps) = Some cap \<and> cap_validate cap (cs_desired_state ps)) \<and>
    has_authority E st p (actor_of E st p) (cs_capability ps)"
proof -
  let ?i = "cs_capability ps" and ?a = "actor_of E st p"
  obtain cap where cap: "registry_get E ?i = Some cap" "cap_validate cap (cs_desired_state ps)"
    using assms(2,3)
    by (auto simp: handle_capabilities_set_def lookup_def split: option.splits if_splits)
  let ?z = "authorize_capability_set E p ?a ?i (cs_desired_state ps) st"
  have "policy_same st (snd ?z)" by (rule authorize_policy [OF assms(1)])
  note same = policy_same_fields [OF this]
  obtain authority where "fst ?z = Ok authority"
    using assms(2,3) cap same
    by (cases ?z; cases "fst ?z") (auto simp: handle_capabilities_set_def lookup_def Let_def)
  then have "?z = (Ok authority, snd ?z)" by (metis prod.collapse)
  from authorize_Ok [OF assms(1) this] cap show ?thesis by blast
qed

lemma execute_set_preferences:
  "preferences (snd (execute_capability_set E actor cap ps extra st)) =
     bt_insert (cs_capability ps) \<lparr>pe_value = cs_desired_state ps, pe_set_at = utc_now_rfc3339 E st,
       pe_set_by = aa_user_id actor\<rparr> (preferences st)"
proof -
  let ?p = "set_preference E (cs_capability ps) \<lparr>pe_value = cs_desired_state ps,
      pe_set_at = utc_now_rfc3339 E st, pe_set_by = aa_user_id actor\<rparr> st"
  have "snd (execute_capability_set E actor cap ps extra st) = snd ?p \<or>
      snd (execute_capability_set E actor cap ps extra st) =
        snd (settle_layer_change E actor cap (cs_capability ps) (Some (cs_desired_state ps))
          ''capabilities.set'' extra (snd ?p))"
    by (cases ?p; cases "fst ?p") (simp_all add: execute_capability_set_def)
  then show ?thesis by (auto simp: settle_keeps)
qed

theorem capability_change_needs_authority_witness:
  "let ps = \<lparr>cs_capability = ''security.firewall'', cs_desired_state = JStr ''disabled''\<rparr>
   in preferences (snd (handle_capabilities_set demo_denv demo_root ps demo_state)) \<noteq> [] \<and>
      has_authority demo_denv demo_state demo_root (actor_of demo_denv demo_state demo_root) (cs_capability ps)"
proof -
  let ?ps = "\<lparr>cs_capability = ''security.firewall'', cs_desired_state = JStr ''disabled''\<rparr>"
  let ?a = "actor_of demo_denv demo_state demo_root"
  let ?h = "handle_capabilities_set demo_denv demo_root ?ps demo_state"
  have "aa_agent_session_id ?a = None" using demo_not_agent by (simp add: agent_shaped_peer_def)
  then have "snd ?h = snd (execute_capability_set demo_denv ?a demo_cap ?ps [] demo_state)"
    by (simp add: handle_capabilities_set_def lookup_def demo_registry demo_cap_def
        authorize_capability_set_def Let_def case_prod_beta)
  then have changed: "preferences (snd ?h) \<noteq> []" by (simp add: execute_set_preferences)
  have "store_ok demo_state" using demo_daemon_ok by (simp add: daemon_ok_def)
  from capability_change_needs_authority [OF this prod.collapse [symmetric], of demo_denv demo_root ?ps]
  show ?thesis using changed by (simp add: Let_def)
qed

section \<open>Privilege windows\<close>

lemma trim_end_m_digits: "list_all is_ascii_digit ds \<Longrightarrow> trim_end_m (ds @ ''m'') = ds"
proof -
  assume d: "list_all is_ascii_digit ds"
  have "\<not> is_ascii_digit (CHR ''m'')" by code_simp
  with d have "CHR ''m'' \<notin> set ds" by (auto simp: list_all_iff)
  then have "dropWhile (\<lambda>c. c = CHR ''m'') (rev ds) = rev ds" by (cases "rev ds") (auto dest: arg_cong [of _ _ set])
  then show ?thesis by (simp add: trim_end_m_def)
qed

lemma granted_minutes_show: "n \<le> u64_max \<Longrightarrow> granted_minutes (show_nat n @ ''m'') = n"
  using show_nat_digits [of n]
  by (simp add: granted_minutes_def trim_end_m_digits parse_u64_show_nat unwrap_or_def)

text \<open>
  C28. A window of privilege is narrow. The grant an approved \<open>privilege.request\<close> mints belongs to the
  uid that asked, is for the one capability that was asked for, and expires between 1 and 60
  minutes after it is minted, at exactly the requested length when that is within the range.
\<close>

theorem privilege_window_is_narrow:
  assumes "clock_in_range E"
    and "env = resolved_envelope E st' q RdApproved (envelope_of E st (privilege_approval E st p ps cap) aid)"
    and "g = grant_of E s env gid"
  shows "g_uid g = peer_uid p \<and> g_capability g = pr_capability ps \<and> g_approval_id g = aid \<and>
    unix_seconds_from_rfc3339 (g_expires_at g) =
      Some (now_secs E s + 60 * clamp_grant_minutes (pr_duration_minutes ps)) \<and>
    1 \<le> clamp_grant_minutes (pr_duration_minutes ps) \<and> clamp_grant_minutes (pr_duration_minutes ps) \<le> 60 \<and>
    (\<forall>m. pr_duration_minutes ps = Some m \<and> 1 \<le> m \<and> m \<le> 60 \<longrightarrow> clamp_grant_minutes (pr_duration_minutes ps) = m)"
proof -
  let ?m = "clamp_grant_minutes (pr_duration_minutes ps)"
  have m: "1 \<le> ?m" "?m \<le> 60" by (rule clamp_grant_bounds)+
  have "granted_minutes (a_resource (e_approval env)) = ?m"
    using granted_minutes_show [of ?m] m
    by (simp add: assms(2) resolved_envelope_def set_status_def envelope_of_def privilege_approval_def
        Let_def u64_max_def)
  moreover have "sat_mul ?m 60 = 60 * ?m" using m by (simp add: sat_mul_def u64_max_def)
  ultimately have "g_expires_at g = rfc3339_in E s (60 * ?m)" by (simp add: assms(3) grant_of_def)
  moreover have "unix_seconds_from_rfc3339 (rfc3339_in E s (60 * ?m)) = Some (now_secs E s + 60 * ?m)"
    by (rule rfc3339_in_parses(1) [OF assms(1)]) (use m in simp)
  moreover have "\<forall>k. pr_duration_minutes ps = Some k \<and> 1 \<le> k \<and> k \<le> 60 \<longrightarrow> ?m = k"
    by (auto simp: clamp_grant_minutes_def clamp_def GRANT_MIN_MINUTES_def GRANT_MAX_MINUTES_def)
  ultimately show ?thesis
    using m by (simp add: assms(2,3) grant_of_def resolved_envelope_def set_status_def envelope_of_def
        privilege_approval_def env_id_def Let_def)
qed

theorem privilege_window_is_narrow_witness:
  "let ps = \<lparr>pr_capability = ''security.firewall'', pr_reason = ''why'', pr_duration_minutes = Some 9999\<rparr>;
       env = resolved_envelope demo_denv demo_state demo_root RdApproved
         (envelope_of demo_denv demo_state (privilege_approval demo_denv demo_state demo_root ps demo_cap) ''apr_1'')
   in unix_seconds_from_rfc3339 (g_expires_at (grant_of demo_denv demo_state env ''grt_1'')) =
        Some (1767225600 + 60 * 60)"
  unfolding Let_def
  by (subst privilege_window_is_narrow [OF demo_in_range refl refl, THEN conjunct2, THEN conjunct2,
        THEN conjunct2, THEN conjunct1])
     (simp add: clamp_grant_minutes_def clamp_def GRANT_MIN_MINUTES_def GRANT_MAX_MINUTES_def)

text \<open>
  C32. A privilege approval raised through \<open>approvals.create\<close> escapes the 60 minute bound. The window
  is read back from the resource string when the grant is minted and is not clamped again: a
  resource of \<open>n\<close> minutes gives a grant that expires \<open>n\<close> minutes later, for every \<open>n\<close>.
\<close>

theorem created_privilege_is_unclamped:
  assumes "clock_in_range E" "60 * n \<le> 2 ^ 32" "ac_kind ps = PrivilegeRequest"
    and "ac_resource ps = show_nat n @ ''m''"
    and "env = resolved_envelope E st' q RdApproved (envelope_of E st (created_approval ps) aid)"
  shows "e_kind env = PrivilegeRequest \<and>
    unix_seconds_from_rfc3339 (g_expires_at (grant_of E s env gid)) = Some (now_secs E s + 60 * n)"
proof -
  have "n \<le> u64_max" "60 * n \<le> u64_max" using assms(2) by (simp_all add: u64_max_def)
  then have "granted_minutes (a_resource (e_approval env)) = n" "sat_mul n 60 = 60 * n"
    using granted_minutes_show [of n] assms(4)
    by (simp_all add: assms(5) resolved_envelope_def set_status_def envelope_of_def created_approval_def sat_mul_def)
  moreover have "e_kind env = PrivilegeRequest"
    by (simp add: assms(3,5)) (simp add: envelope_of_def created_approval_def assms(3))
  ultimately show ?thesis
    using rfc3339_in_parses(1) [OF assms(1,2)] by (simp add: grant_of_def)
qed

definition demo_privilege :: approvals_create_params where
  "demo_privilege = \<lparr>ac_kind = PrivilegeRequest, ac_capability = ''security.firewall'', ac_resource = ''9999m'',
     ac_reason = ''why'', ac_risk = High, ac_user = ''alice'',
     ac_requester = \<lparr>rq_kind = Human, rq_id = ''alice''\<rparr>, ac_ttl = None, ac_contract = None,
     ac_requester_peer = None, ac_policy = None, ac_request = None\<rparr>"

theorem created_privilege_is_unclamped_witness:
  "unix_seconds_from_rfc3339 (g_expires_at (grant_of demo_denv demo_state
     (resolved_envelope demo_denv demo_state demo_root RdApproved
        (envelope_of demo_denv demo_state (created_approval demo_privilege) ''apr_1'')) ''grt_1''))
   = Some (1767225600 + 60 * 9999)"
proof -
  have "digit 9 = CHR ''9''" by code_simp
  then have n: "show_nat 9999 @ ''m'' = ''9999m''" by (simp add: show_nat.simps)
  show ?thesis
    by (subst created_privilege_is_unclamped [OF demo_in_range _ _ _ refl, of 9999, THEN conjunct2])
       (simp_all add: demo_privilege_def n)
qed

section \<open>Execution before the answer is durable\<close>

lemma put_no_disk:
  assumes "\<not> env_disk E (ticks st)"
  shows "(\<exists>e. fst (put E env st) = Err e) \<and> records (snd (put E env st)) = records st \<and>
    grants (snd (put E env st)) = grants st \<and> policy_same st (snd (put E env st))"
  using assms by (auto simp: put_def write_atomic_synced_def policy_same_def tick_def Let_def split: sum.splits)

lemma snd_answer: "snd (answer E p RdApproved env st) = snd (execute_approved E (resolved_envelope E st p RdApproved env) st)"
  by (simp add: answer_def Let_def case_prod_beta)

lemma answer_privilege:
  assumes "e_kind env = PrivilegeRequest" "random_hex E 4 st = Some h" "env_disk E (ticks st)"
  shows "grants (snd (answer E p RdApproved env st)) =
    bt_insert (GRANT_ID_PREFIX @ h)
      (grant_of E st (resolved_envelope E st p RdApproved env) (GRANT_ID_PREFIX @ h)) (grants st)"
  using assms
  by (simp add: answer_def execute_approved_def execute_approved_privilege_def put_grant_def
      write_atomic_synced_def grant_of_def Let_def case_prod_beta)


lemma ticks_log_audit: "ticks st \<le> ticks (log_audit E e st)"
  by (auto simp: log_audit_def append_event_def rotate_if_needed_def Let_def
      split: sum.splits option.splits rotation.splits)

definition demo_question :: approval_envelope where
  "demo_question = (demo_envelope ''apr_dddd4444'' Pending)\<lparr>e_kind := PrivilegeRequest\<rparr>"

definition demo_failing_env :: daemon_env where
  "demo_failing_env = demo_denv\<lparr>env_disk := (\<lambda>t. t = 0)\<rparr>"


end
