(* ===== verification/Reconcile.thy ===== *)
theory Reconcile
  imports Gate_Rules "HOL-Library.Sublist"
begin

text \<open>
  The reconcile pass of \<open>crates/punard/src/server.rs\<close>: sweep, observe every capability, compare with
  the effective document, repair drift where the classification says so, and keep the compliance
  book. The device is not enrolled, so \<open>sync_if_enrolled\<close> only forgets the last sync outcome, which
  nothing here reads. The lemmas show that repair is bounded and, when the backend works, that it
  succeeds.
\<close>

section \<open>One capability\<close>

definition MAX_REMEDIATION_ATTEMPTS :: nat where
  "MAX_REMEDIATION_ATTEMPTS = 3"

datatype remediation_outcome =
  RoApplied | RoNone | RoApplyFailed | RoVerifyFailed | RoAlertOnly | RoSuppressed

definition remediation_event ::
  "daemon_env \<Rightarrow> audit_actor \<Rightarrow> string \<Rightarrow> string \<Rightarrow> string \<Rightarrow> daemon \<Rightarrow> audit_event \<times> daemon" where
  "remediation_event E actor capability policy_id res st =
     (case next_event_id E st of (event_id, st') \<Rightarrow>
        (\<lparr>ev_event_id = event_id, ev_timestamp = utc_now_rfc3339 E st, ev_device_id = device_id E,
          ev_user_id = Some (aa_user_id actor), ev_agent_session_id = Some AGENT_SESSION_NONE,
          ev_project_id = Some PROJECT_ID_SYSTEM, ev_source = aa_source actor,
          ev_action = ''reconcile.remediate'', ev_resource = Some capability, ev_decision = Allow,
          ev_policy_ids = [policy_id], ev_result = res\<rparr>, st'))"

definition log_remediation ::
  "daemon_env \<Rightarrow> audit_actor \<Rightarrow> string \<Rightarrow> string \<Rightarrow> string \<Rightarrow> daemon \<Rightarrow> daemon" where
  "log_remediation E actor capability policy_id res st =
     (case remediation_event E actor capability policy_id res st of (ev, st') \<Rightarrow> log_audit E ev st')"

definition fail_count_of :: "daemon \<Rightarrow> string \<Rightarrow> nat" where
  "fail_count_of st i = unwrap_or (bt_get (fail_counts (tracker st)) i) 0"

text \<open>The two ways an attempt may end, each with its bookkeeping and its audit event.\<close>

definition remediation_succeeded ::
  "daemon_env \<Rightarrow> audit_actor \<Rightarrow> string \<Rightarrow> string \<Rightarrow> daemon \<Rightarrow> daemon" where
  "remediation_succeeded E actor i policy_id st =
     (let t = tracker st
      in log_remediation E actor i policy_id ''success''
           (st\<lparr>tracker := t\<lparr>fail_counts := bt_remove i (fail_counts t),
                           drift_remediated_total := drift_remediated_total t + 1,
                           last_remediation_at := Some (utc_now_rfc3339 E st)\<rparr>\<rparr>))"

definition remediation_failed ::
  "daemon_env \<Rightarrow> audit_actor \<Rightarrow> string \<Rightarrow> string \<Rightarrow> nat \<Rightarrow> remediation_outcome \<Rightarrow> daemon
   \<Rightarrow> (remediation_outcome \<times> compliance_state) \<times> daemon" where
  "remediation_failed E actor i policy_id fail_count failure st =
     (let attempts = fail_count + 1;
          st1 = st\<lparr>tracker := (tracker st)\<lparr>fail_counts := bt_insert i attempts (fail_counts (tracker st))\<rparr>\<rparr>
      in if attempts \<ge> MAX_REMEDIATION_ATTEMPTS
         then ((failure, NonCompliant), log_remediation E actor i policy_id ''attempts_exhausted'' st1)
         else ((failure, Remediating),
               log_remediation E actor i policy_id
                 (case failure of RoApplyFailed \<Rightarrow> ''apply_failed'' | _ \<Rightarrow> ''verify_failed'') st1))"

definition plan_and_remediate ::
  "daemon_env \<Rightarrow> capability \<Rightarrow> string \<Rightarrow> json \<Rightarrow> bool \<Rightarrow> bool \<Rightarrow> classification \<Rightarrow> bool \<Rightarrow> string
   \<Rightarrow> audit_actor \<Rightarrow> nat \<Rightarrow> daemon \<Rightarrow> (remediation_outcome \<times> compliance_state) \<times> nat \<times> daemon" where
  "plan_and_remediate E cap i desired drift observed_ok classification exception_source policy_id
       actor remediated_count st =
     (if \<not> observed_ok then ((RoNone, Unknown), remediated_count, st)
      else if \<not> drift
      then ((RoNone, Compliant), remediated_count,
            st\<lparr>tracker := (tracker st)\<lparr>fail_counts := bt_remove i (fail_counts (tracker st))\<rparr>\<rparr>)
      else if classification = AlertOnly \<or> classification = ApprovalRequiredClass
      then ((RoAlertOnly, if exception_source then Exception else NonCompliant), remediated_count, st)
      else if fail_count_of st i \<ge> MAX_REMEDIATION_ATTEMPTS
      then ((RoSuppressed, NonCompliant), remediated_count, st)
      else (case apply_state cap desired st of
              (False, st1) \<Rightarrow>
                (case remediation_failed E actor i policy_id (fail_count_of st i) RoApplyFailed st1 of
                   (r, st2) \<Rightarrow> (r, remediated_count, st2))
            | (True, st1) \<Rightarrow>
                (case verify cap desired st1 of
                   (Some True, st2) \<Rightarrow>
                     ((RoApplied, Compliant), remediated_count + 1,
                      remediation_succeeded E actor i policy_id st2)
                 | (_, st2) \<Rightarrow>
                     (case remediation_failed E actor i policy_id (fail_count_of st i) RoVerifyFailed st2 of
                        (r, st3) \<Rightarrow> (r, remediated_count, st3)))))"

section \<open>The pass\<close>

record reconcile_entry =
  re_capability :: string
  re_desired_state :: json
  re_current_state :: json
  re_drift :: bool
  re_verified :: bool
  re_classification :: classification
  re_remediation :: remediation_outcome

record reconcile_progress =
  rp_entries :: "reconcile_entry list"
  rp_drift_count :: nat
  rp_remediated_count :: nat

definition set_state :: "string \<Rightarrow> compliance_state \<Rightarrow> daemon \<Rightarrow> daemon" where
  "set_state i s st = st\<lparr>tracker := (tracker st)\<lparr>states := bt_insert i s (states (tracker st))\<rparr>\<rparr>"

definition reconcile_capability ::
  "daemon_env \<Rightarrow> (string \<Rightarrow> json effective_entry option) \<Rightarrow> audit_actor \<Rightarrow> capability
   \<Rightarrow> reconcile_progress \<times> daemon \<Rightarrow> reconcile_progress \<times> daemon" where
  "reconcile_capability E effective_at actor cap acc =
     (case acc of (rp, st) \<Rightarrow>
        case observe cap st of (observation, st1) \<Rightarrow>
          let i = cap_id cap;
              current = unwrap_or observation (JStr ''unknown'');
              entry = effective_at i;
              desired = (case entry of Some e \<Rightarrow> ee_value e | None \<Rightarrow> current);
              classification = (case entry of Some e \<Rightarrow> ee_classification e | None \<Rightarrow> AutoRemediate);
              policy_id = (case entry of Some e \<Rightarrow> pv_policy_id (ee_provenance e)
                           | None \<Rightarrow> POLICY_PERSONAL_DEFAULTS);
              exception_source = (case entry of
                  Some e \<Rightarrow> pv_kind (ee_provenance e) = TemporaryApprovedException | None \<Rightarrow> False);
              drift = (current \<noteq> desired)
          in case verify cap desired st1 of (verified, st2) \<Rightarrow>
               case plan_and_remediate E cap i desired drift (observation \<noteq> None) classification
                      exception_source policy_id actor (rp_remediated_count rp) st2 of
                 ((remediation, state), remediated, st3) \<Rightarrow>
                   (\<lparr>rp_entries = rp_entries rp @
                       [\<lparr>re_capability = i, re_desired_state = desired, re_current_state = current,
                         re_drift = drift, re_verified = (verified \<noteq> None),
                         re_classification = classification, re_remediation = remediation\<rparr>],
                     rp_drift_count = rp_drift_count rp + (if drift then 1 else 0),
                     rp_remediated_count = remediated\<rparr>, set_state i state st3))"

definition publish_status_summary :: "daemon_env \<Rightarrow> daemon \<Rightarrow> daemon" where
  "publish_status_summary E st =
     (let summary = \<lparr>ss_enrolled = False, ss_org_name = None,
                     ss_compliance_overall = cb_overall (tracker_block (tracker st) (registry E)),
                     ss_ts = utc_now_rfc3339 E st\<rparr>;
          unchanged = (case status_written st of
              Some w \<Rightarrow> ss_enrolled w = ss_enrolled summary \<and> ss_org_name w = ss_org_name summary \<and>
                        ss_compliance_overall w = ss_compliance_overall summary
            | None \<Rightarrow> False)
      in if unchanged then st
         else if env_disk E (ticks st) then tick (st\<lparr>status_written := Some summary\<rparr>)
         else tick st)"

record reconcile_result =
  rr_reconciled_at :: string
  rr_drift_count :: nat
  rr_capabilities :: "reconcile_entry list"
  rr_remediated_count :: nat
  rr_compliance :: compliance_block

definition reconcile_and_remediate :: "daemon_env \<Rightarrow> audit_actor \<Rightarrow> daemon \<Rightarrow> reconcile_result \<times> daemon" where
  "reconcile_and_remediate E actor st0 =
     (let st = sweep_approvals E st0
      in case fold (reconcile_capability E (effective_get (effective st)) actor) (registry E)
                (\<lparr>rp_entries = [], rp_drift_count = 0, rp_remediated_count = 0\<rparr>, st) of
           (rp, st1) \<Rightarrow>
             case event_reconcile E (device_id E) actor
                    (if rp_drift_count rp > 0 then DriftDetected else Clean) st1 of
               (ev, st2) \<Rightarrow>
                 let st3 = publish_status_summary E (log_audit E ev st2)
                 in (\<lparr>rr_reconciled_at = utc_now_rfc3339 E st3, rr_drift_count = rp_drift_count rp,
                      rr_capabilities = rp_entries rp, rr_remediated_count = rp_remediated_count rp,
                      rr_compliance = tracker_block (tracker st3) (registry E)\<rparr>, st3))"

definition handle_reconcile ::
  "daemon_env \<Rightarrow> peer \<Rightarrow> daemon \<Rightarrow> (ipc_error, reconcile_result) result \<times> daemon" where
  "handle_reconcile E p st =
     (let actor = actor_of E st p
      in if authorize_mutation p \<noteq> Allow
         then (Err (denied_needs_root (Some RESOURCE_CAPABILITY_REGISTRY)),
               log_denial E actor ''reconcile'' RESOURCE_CAPABILITY_REGISTRY None st)
         else (case reconcile_and_remediate E actor st of (report, st1) \<Rightarrow>
                 (Ok report, st1\<lparr>last_reconcile := Some (rr_reconciled_at report)\<rparr>)))"

definition boot_reconcile :: "daemon_env \<Rightarrow> daemon \<Rightarrow> daemon" where
  "boot_reconcile E st =
     (case reconcile_and_remediate E daemon_actor st of (report, st1) \<Rightarrow>
        st1\<lparr>last_reconcile := Some (rr_reconciled_at report)\<rparr>)"

section \<open>What a pass leaves alone\<close>

definition pass_frame :: "daemon \<Rightarrow> daemon \<Rightarrow> bool" where
  "pass_frame st st' \<longleftrightarrow>
     records st' = records st \<and> grants st' = grants st \<and> rec_files st' = rec_files st \<and>
     grant_files st' = grant_files st \<and> preferences st' = preferences st \<and>
     admin_policy st' = admin_policy st \<and> effective st' = effective st \<and> tickets st' = tickets st \<and>
     ticks st \<le> ticks st' \<and> (daemon_ok st \<longrightarrow> daemon_ok st')"

interpretation pasf: state_order pass_frame
  by unfold_locales (auto simp: pass_frame_def)

lemma pass_frame_audit: "audit_frame st st' \<Longrightarrow> ticks st \<le> ticks st' \<Longrightarrow> pass_frame st st'"
  by (simp add: pass_frame_def daemon_ok_def audit_frame_fields audit_frame_store_ok)

lemma pass_frame_tracker:
  "(daemon_ok st \<Longrightarrow> bt_ok (states t) \<and> bt_ok (fail_counts t)) \<Longrightarrow> pass_frame st (st\<lparr>tracker := t\<rparr>)"
  by (auto simp: pass_frame_def daemon_ok_def store_ok_def)

lemma log_remediation_frame: "audit_frame st (log_remediation E actor i p r st)"
  "ticks st \<le> ticks (log_remediation E actor i p r st)"
proof -
  let ?e = "remediation_event E actor i p r st"
  have t: "ticks (snd ?e) = ticks st" by (simp add: remediation_event_def next_event_id_def)
  have "audit_frame st (snd ?e)"
    unfolding audit_frame_def
    by (rule exI [of _ "ticks st"], rule exI [of _ "(event_counter st + 1) mod 2 ^ 64"],
        rule exI [of _ "trail_live st"], rule exI [of _ "trail_rotated st"], rule exI [of _ "trail_detached st"],
        rule exI [of _ "audit_events st"]) (simp add: remediation_event_def next_event_id_def)
  then show "audit_frame st (log_remediation E actor i p r st)"
    unfolding log_remediation_def case_prod_beta by (rule audf.le_trans [OF _ log_audit_frame])
  show "ticks st \<le> ticks (log_remediation E actor i p r st)"
    using ticks_log_audit [of "snd ?e" E "fst ?e"] t by (simp add: log_remediation_def case_prod_beta)
qed

lemmas log_remediation_keeps [simp] = log_remediation_frame(1) [THEN audit_frame_fields(17)]
  log_remediation_frame(1) [THEN audit_frame_fields(20)]

lemma pass_log: "pass_frame st (log_remediation E actor i p r st)"
  by (rule pass_frame_audit [OF log_remediation_frame])

lemma pass_backend:
  "pass_frame st (snd (observe cap st))" "pass_frame st (snd (verify cap v st))"
  "pass_frame st (snd (apply_state cap v st))"
  by (simp_all add: pass_frame_def daemon_ok_def store_ok_def) 
     (simp_all add: observe_def verify_def apply_state_def tick_def)

lemma pass_succeeded: "pass_frame st (remediation_succeeded E actor i p st)"
  unfolding remediation_succeeded_def Let_def
  by (rule pasf.le_trans [OF pass_frame_tracker pass_log]) (simp add: daemon_ok_def bt_ok_remove)

lemma pass_failed: "pass_frame st (snd (remediation_failed E actor i p n f st))"
  unfolding remediation_failed_def Let_def if_distrib [of snd] snd_conv
  by (auto intro!: pasf.le_trans [OF pass_frame_tracker pass_log] simp: daemon_ok_def bt_ok_insert)

lemma pass_plan: "pass_frame st (snd (snd (plan_and_remediate E cap i v d ob c x p actor n st)))"
proof -
  have "pass_frame st (st\<lparr>tracker := (tracker st)\<lparr>fail_counts := bt_remove i (fail_counts (tracker st))\<rparr>\<rparr>)"
    by (rule pass_frame_tracker) (simp add: daemon_ok_def bt_ok_remove)
  moreover note pasf.le_trans [OF pass_backend(3) pass_failed]
    pasf.le_trans [OF pass_backend(3) pasf.le_trans [OF pass_backend(2) pass_failed]]
    pasf.le_trans [OF pass_backend(3) pasf.le_trans [OF pass_backend(2) pass_succeeded]]
  ultimately show ?thesis
    by (auto simp: plan_and_remediate_def case_prod_beta pasf.le_refl split: bool.splits option.splits)
qed

lemma pass_set_state: "pass_frame st (set_state i s st)"
  unfolding set_state_def by (rule pass_frame_tracker) (simp add: daemon_ok_def bt_ok_insert)

lemma pass_capability: "pass_frame (snd acc) (snd (reconcile_capability E eff actor cap acc))"
  unfolding reconcile_capability_def case_prod_beta Let_def snd_conv
  by (rule pasf.le_trans [OF pass_backend(1) pasf.le_trans [OF pass_backend(2)
        pasf.le_trans [OF pass_plan pass_set_state]]])

lemma pass_status: "pass_frame st (publish_status_summary E st)"
  by (auto simp: publish_status_summary_def Let_def pass_frame_def daemon_ok_def store_ok_def tick_def)

section \<open>One capability in a pass\<close>

text \<open>Whether the pass calls the backend for a capability, read off the state it meets it in.\<close>

definition attempts :: "(string \<Rightarrow> json effective_entry option) \<Rightarrow> capability \<Rightarrow> daemon \<Rightarrow> bool" where
  "attempts eff cap st \<longleftrightarrow>
     (\<exists>cur e. cap_observe cap (ticks st) = Some cur \<and> eff (cap_id cap) = Some e \<and> cur \<noteq> ee_value e \<and>
        ee_classification e = AutoRemediate \<and> fail_count_of st (cap_id cap) < MAX_REMEDIATION_ATTEMPTS)"

lemma backend_tracker [simp]:
  "tracker (snd (observe cap st)) = tracker st" "tracker (snd (verify cap v st)) = tracker st"
  "fail_count_of (snd (observe cap st)) i = fail_count_of st i"
  "fail_count_of (snd (verify cap v st)) i = fail_count_of st i"
  "fail_count_of (snd (apply_state cap v st)) i = fail_count_of st i"
  by (simp_all add: fail_count_of_def)

lemma outcome_applied [simp]:
  "applied (remediation_succeeded E actor i p st) = applied st"
  "applied (snd (remediation_failed E actor i p n f st)) = applied st"
  "applied (set_state i s st) = applied st"
  by (simp_all add: remediation_succeeded_def remediation_failed_def set_state_def Let_def)

lemma observed [simp]: "fst (observe cap st) = cap_observe cap (ticks st)" "ticks (snd (observe cap st)) = Suc (ticks st)"
  "fst (verify cap v st) = cap_verify cap (ticks st) v" "ticks (snd (verify cap v st)) = Suc (ticks st)"
  "fst (apply_state cap v st) = cap_apply cap (ticks st) v" "ticks (snd (apply_state cap v st)) = Suc (ticks st)"
  by (simp_all add: observe_def verify_def apply_state_def)

lemma capability_applied:
  "applied (snd (reconcile_capability E eff actor cap acc)) = applied (snd acc) @
     (if attempts eff cap (snd acc) then [(cap_id cap, ee_value (the (eff (cap_id cap))))] else [])"
  by (cases "cap_observe cap (ticks (snd acc))"; cases "eff (cap_id cap)"; cases "ee_classification (the (eff (cap_id cap)))")
     (auto simp: reconcile_capability_def case_prod_beta Let_def plan_and_remediate_def attempts_def
       unwrap_or_def not_le split: bool.splits option.splits)

text \<open>An attempt works when the apply is accepted and the verification after it says yes.\<close>

definition works :: "capability \<Rightarrow> json \<Rightarrow> nat \<Rightarrow> bool" where
  "works cap v t \<longleftrightarrow> cap_apply cap t v \<and> cap_verify cap (Suc t) v = Some True"

definition pass_outcome ::
  "(string \<Rightarrow> json effective_entry option) \<Rightarrow> capability \<Rightarrow> daemon \<Rightarrow> nat \<times> compliance_state" where
  "pass_outcome eff cap st =
     (let f = fail_count_of st (cap_id cap)
      in case (cap_observe cap (ticks st), eff (cap_id cap)) of
           (None, _) \<Rightarrow> (f, Unknown)
         | (Some cur, None) \<Rightarrow> (0, Compliant)
         | (Some cur, Some e) \<Rightarrow>
             if cur = ee_value e then (0, Compliant)
             else if ee_classification e \<noteq> AutoRemediate
             then (f, if pv_kind (ee_provenance e) = TemporaryApprovedException then Exception else NonCompliant)
             else if f \<ge> MAX_REMEDIATION_ATTEMPTS then (f, NonCompliant)
             else if works cap (ee_value e) (ticks st + 2) then (0, Compliant)
             else (f + 1, if f + 1 \<ge> MAX_REMEDIATION_ATTEMPTS then NonCompliant else Remediating))"

lemma fail_count_set_state [simp]: "fail_count_of (set_state i s st) j = fail_count_of st j"
  by (simp add: fail_count_of_def set_state_def)

lemma fail_count_books:
  assumes "bt_ok (fail_counts (tracker st))"
  shows "fail_count_of (st\<lparr>tracker := (tracker st)\<lparr>fail_counts := bt_remove i (fail_counts (tracker st))\<rparr>\<rparr>) j =
       (if j = i then 0 else fail_count_of st j)"
    "fail_count_of (remediation_succeeded E actor i p st) j = (if j = i then 0 else fail_count_of st j)"
    "fail_count_of (snd (remediation_failed E actor i p n f st)) j = (if j = i then n + 1 else fail_count_of st j)"
  using assms
  by (simp_all add: fail_count_of_def remediation_succeeded_def remediation_failed_def Let_def bt_get_insert
      bt_get_remove unwrap_or_def)

lemma state_of_set_state:
  assumes "bt_ok (states (tracker st))"
  shows "state_of (tracker (set_state i s st)) j = (if j = i then s else state_of (tracker st) j)"
  using assms by (simp add: state_of_def set_state_def bt_get_insert unwrap_or_def)

lemma outcome_states [simp]:
  "states (tracker (remediation_succeeded E actor i p st)) = states (tracker st)"
  "states (tracker (snd (remediation_failed E actor i p n f st))) = states (tracker st)"
  "fst (remediation_failed E actor i p n f st) =
     (f, if n + 1 \<ge> MAX_REMEDIATION_ATTEMPTS then NonCompliant else Remediating)"
  by (simp_all add: remediation_succeeded_def remediation_failed_def Let_def)

lemma capability_outcome:
  assumes "daemon_ok (snd acc)"
  shows "state_of (tracker (snd (reconcile_capability E eff actor cap acc))) j =
      (if j = cap_id cap then snd (pass_outcome eff cap (snd acc)) else state_of (tracker (snd acc)) j)"
    and "fail_count_of (snd (reconcile_capability E eff actor cap acc)) j =
      (if j = cap_id cap then fst (pass_outcome eff cap (snd acc)) else fail_count_of (snd acc) j)"
proof -
  have ok: "bt_ok (states (tracker (snd acc)))" "bt_ok (fail_counts (tracker (snd acc)))"
    using assms by (simp_all add: daemon_ok_def)
  show "fail_count_of (snd (reconcile_capability E eff actor cap acc)) j =
      (if j = cap_id cap then fst (pass_outcome eff cap (snd acc)) else fail_count_of (snd acc) j)"
    using ok
    by (cases "cap_observe cap (ticks (snd acc))"; cases "eff (cap_id cap)";
        cases "ee_classification (the (eff (cap_id cap)))")
       (auto simp: reconcile_capability_def case_prod_beta Let_def plan_and_remediate_def pass_outcome_def
         works_def fail_count_books split: bool.splits option.splits,
        auto simp: fail_count_of_def bt_get_remove unwrap_or_def)
  show "state_of (tracker (snd (reconcile_capability E eff actor cap acc))) j =
      (if j = cap_id cap then snd (pass_outcome eff cap (snd acc)) else state_of (tracker (snd acc)) j)"
    using ok
    by (cases "cap_observe cap (ticks (snd acc))"; cases "eff (cap_id cap)";
        cases "ee_classification (the (eff (cap_id cap)))")
       (auto simp: reconcile_capability_def case_prod_beta Let_def plan_and_remediate_def pass_outcome_def
         works_def state_of_set_state split: bool.splits option.splits, auto simp: state_of_def unwrap_or_def)
qed

section \<open>A whole pass\<close>

abbreviation pass_over where
  "pass_over E eff actor caps acc \<equiv> fold (reconcile_capability E eff actor) caps acc"

lemma pass_over_frame: "pass_frame (snd acc) (snd (pass_over E eff actor caps acc))"
  by (rule pasf.fold_le [OF pass_capability])

lemma pass_over_ok: "daemon_ok (snd acc) \<Longrightarrow> daemon_ok (snd (pass_over E eff actor caps acc))"
  using pass_over_frame by (simp add: pass_frame_def)

lemma pass_over_other:
  assumes "daemon_ok (snd acc)" "j \<notin> cap_id ` set caps"
  shows "fail_count_of (snd (pass_over E eff actor caps acc)) j = fail_count_of (snd acc) j \<and>
    state_of (tracker (snd (pass_over E eff actor caps acc))) j = state_of (tracker (snd acc)) j"
  using assms
proof (induction caps arbitrary: acc)
  case (Cons c caps)
  have "daemon_ok (snd (reconcile_capability E eff actor c acc))"
    using pass_over_ok [of acc E eff actor "[c]"] Cons.prems(1) by simp
  from Cons.IH [OF this] capability_outcome [OF Cons.prems(1), of E eff actor c j] Cons.prems(2)
  show ?case by simp
qed simp

text \<open>What a pass does to one capability is what it does when it meets it.\<close>

lemma pass_over_outcome:
  assumes "daemon_ok (snd acc)" "distinct (map cap_id caps)" "cap \<in> set caps"
  obtains st where "ticks (snd acc) \<le> ticks st" "fail_count_of st (cap_id cap) = fail_count_of (snd acc) (cap_id cap)"
    "state_of (tracker (snd (pass_over E eff actor caps acc))) (cap_id cap) = snd (pass_outcome eff cap st)"
    "fail_count_of (snd (pass_over E eff actor caps acc)) (cap_id cap) = fst (pass_outcome eff cap st)"
    "filter (\<lambda>x. fst x = cap_id cap) (applied (snd (pass_over E eff actor caps acc))) =
       filter (\<lambda>x. fst x = cap_id cap) (applied (snd acc)) @
       (if attempts eff cap st then [(cap_id cap, ee_value (the (eff (cap_id cap))))] else [])"
proof -
  have calls: "filter (\<lambda>x. fst x = i) (applied (snd (pass_over E eff actor cs acc))) =
      filter (\<lambda>x. fst x = i) (applied (snd acc))" if "i \<notin> cap_id ` set cs" for i cs acc
    using that by (induction cs arbitrary: acc) (auto simp: capability_applied)
  obtain pre post where caps: "caps = pre @ cap # post" using assms(3) by (auto simp: in_set_conv_decomp)
  let ?i = "cap_id cap"
  have other: "?i \<notin> cap_id ` set pre" "?i \<notin> cap_id ` set post" using assms(2) by (auto simp: caps)
  let ?a = "pass_over E eff actor pre acc"
  let ?b = "reconcile_capability E eff actor cap ?a"
  have oka: "daemon_ok (snd ?a)" by (rule pass_over_ok [OF assms(1)])
  have okb: "daemon_ok (snd ?b)" using pass_over_ok [OF oka, of E eff actor "[cap]"] by simp
  note o = capability_outcome [OF oka, of E eff actor cap ?i]
  show thesis
  proof (rule that [of "snd ?a"])
    show "ticks (snd acc) \<le> ticks (snd ?a)" using pass_over_frame [of acc E eff actor pre] by (simp add: pass_frame_def)
    show "fail_count_of (snd ?a) ?i = fail_count_of (snd acc) ?i" using pass_over_other [OF assms(1) other(1)] by blast
    show "state_of (tracker (snd (pass_over E eff actor caps acc))) ?i = snd (pass_outcome eff cap (snd ?a))"
      "fail_count_of (snd (pass_over E eff actor caps acc)) ?i = fst (pass_outcome eff cap (snd ?a))"
      using pass_over_other [OF okb other(2)] o by (simp_all add: caps)
    show "filter (\<lambda>x. fst x = ?i) (applied (snd (pass_over E eff actor caps acc))) =
       filter (\<lambda>x. fst x = ?i) (applied (snd acc)) @
       (if attempts eff cap (snd ?a) then [(?i, ee_value (the (eff ?i)))] else [])"
      using calls [OF other(1), of acc] calls [OF other(2), of ?b] by (simp add: caps capability_applied)
  qed
qed

lemma pass_over_applied:
  assumes "daemon_ok (snd acc)" "distinct (map cap_id caps)"
  shows "\<exists>xs. applied (snd (pass_over E eff actor caps acc)) = applied (snd acc) @ xs \<and>
    subseq (map fst xs) (map cap_id caps) \<and>
    (\<forall>(i, v) \<in> set xs. \<exists>e. eff i = Some e \<and> v = ee_value e \<and> ee_classification e = AutoRemediate \<and>
       fail_count_of (snd acc) i < MAX_REMEDIATION_ATTEMPTS)"
  using assms
proof (induction caps arbitrary: acc)
  case (Cons c caps)
  let ?b = "reconcile_capability E eff actor c acc"
  have ok: "daemon_ok (snd ?b)" using pass_over_ok [of acc E eff actor "[c]"] Cons.prems(1) by simp
  from Cons.IH [OF ok] Cons.prems(2) obtain xs where
    xs: "applied (snd (pass_over E eff actor caps ?b)) = applied (snd ?b) @ xs" "subseq (map fst xs) (map cap_id caps)"
    and ok: "\<forall>(i, v) \<in> set xs. \<exists>e. eff i = Some e \<and> v = ee_value e \<and> ee_classification e = AutoRemediate \<and>
       fail_count_of (snd ?b) i < MAX_REMEDIATION_ATTEMPTS" by auto
  let ?h = "if attempts eff c (snd acc) then [(cap_id c, ee_value (the (eff (cap_id c))))] else []"
  have ids: "i \<in> set (map cap_id caps)" if "(i, v) \<in> set xs" for i v
    using that list_emb_set [OF xs(2), of i] by force
  then have "fail_count_of (snd ?b) i = fail_count_of (snd acc) i" if "(i, v) \<in> set xs" for i v
    using that Cons.prems(2) by (force simp: capability_outcome(2) [OF Cons.prems(1)])
  with ok have "\<forall>(i, v) \<in> set (?h @ xs). \<exists>e. eff i = Some e \<and> v = ee_value e \<and> ee_classification e = AutoRemediate \<and>
       fail_count_of (snd acc) i < MAX_REMEDIATION_ATTEMPTS"
    by (fastforce simp: attempts_def split: if_splits)
  moreover have "subseq (map fst (?h @ xs)) (map cap_id (c # caps))"
    using xs(2) by (cases "attempts eff c (snd acc)") (auto intro: list_emb_Cons)
  moreover have "applied (snd (pass_over E eff actor (c # caps) acc)) = applied (snd acc) @ (?h @ xs)"
    using xs(1) by (simp add: capability_applied)
  ultimately show ?case by blast
qed simp

text \<open>The pass proper, between the sweep and the summary.\<close>

lemma status_keeps [simp]:
  "tracker (publish_status_summary E st) = tracker st" "applied (publish_status_summary E st) = applied st"
  by (simp_all add: publish_status_summary_def Let_def tick_def)

lemma reconcile_pass:
  assumes "daemon_ok st0"
  obtains st acc where "st = sweep_approvals E st0" "daemon_ok st" "policy_same st0 st" "snd acc = st"
    "swept (now_secs E st0) (records st0) (records st)"
    "tracker (snd (reconcile_and_remediate E actor st0)) =
       tracker (snd (pass_over E (effective_get (effective st0)) actor (registry E) acc))"
    "applied (snd (reconcile_and_remediate E actor st0)) =
       applied (snd (pass_over E (effective_get (effective st0)) actor (registry E) acc))"
    "rr_compliance (fst (reconcile_and_remediate E actor st0)) =
       tracker_block (tracker (snd (reconcile_and_remediate E actor st0))) (registry E)"
    "pass_frame st (snd (reconcile_and_remediate E actor st0))"
proof -
  let ?st = "sweep_approvals E st0"
  let ?acc = "(\<lparr>rp_entries = [], rp_drift_count = 0, rp_remediated_count = 0\<rparr>, ?st)"
  have ok: "store_ok st0" using assms by (simp add: daemon_ok_def)
  note sw = sweep_approvals_spec(1,3) [OF ok, of E]
  have eff: "effective ?st = effective st0" by (rule policy_same_fields(8) [OF sw(2)])
  let ?p = "pass_over E (effective_get (effective st0)) actor (registry E) ?acc"
  let ?o = "if rp_drift_count (fst ?p) > 0 then DriftDetected else Clean"
  let ?e = "event_reconcile E (device_id E) actor ?o (snd ?p)"
  have r: "snd (reconcile_and_remediate E actor st0) = publish_status_summary E (log_audit E (fst ?e) (snd ?e))"
    by (simp add: reconcile_and_remediate_def Let_def case_prod_beta eff)
  have e: "audit_frame (snd ?p) (snd ?e)" unfolding event_reconcile_def by (rule m3_event_frame)
  have te: "ticks (snd ?p) \<le> ticks (log_audit E (fst ?e) (snd ?e))"
    using ticks_log_audit [of "snd ?e" E "fst ?e"] by (simp add: event_reconcile_def m3_event_def next_event_id_def)
  have l: "audit_frame (snd ?p) (log_audit E (fst ?e) (snd ?e))" by (rule audf.le_trans [OF e log_audit_frame])
  show thesis
  proof (rule that [of ?st ?acc])
    show "daemon_ok ?st" using assms sw policy_same_fields [OF sw(2)] by (simp add: daemon_ok_def)
    show "policy_same st0 ?st" by (rule sw(2))
    show "swept (now_secs E st0) (records st0) (records ?st)" by (rule sweep_approvals_spec(2) [OF ok])
    show "tracker (snd (reconcile_and_remediate E actor st0)) = tracker (snd ?p)"
      "applied (snd (reconcile_and_remediate E actor st0)) = applied (snd ?p)"
      using audit_frame_fields(17,20) [OF l] by (simp_all add: r)
    show "rr_compliance (fst (reconcile_and_remediate E actor st0)) =
       tracker_block (tracker (snd (reconcile_and_remediate E actor st0))) (registry E)"
      by (simp add: reconcile_and_remediate_def Let_def case_prod_beta)
    show "pass_frame ?st (snd (reconcile_and_remediate E actor st0))"
      unfolding r using pasf.le_trans [OF pass_over_frame [of ?acc] pasf.le_trans [OF pass_frame_audit [OF l te] pass_status]]
      by simp
  qed simp_all
qed

lemma fail_count_tracker: "tracker a = tracker b \<Longrightarrow> fail_count_of a i = fail_count_of b i"
  by (simp add: fail_count_of_def)

lemma reconcile_outcome:
  assumes "daemon_ok st0" "distinct (map cap_id (registry E))" "cap \<in> set (registry E)"
  obtains st where "fail_count_of st (cap_id cap) = fail_count_of st0 (cap_id cap)"
    "state_of (tracker (snd (reconcile_and_remediate E actor st0))) (cap_id cap) =
       snd (pass_outcome (effective_get (effective st0)) cap st)"
    "fail_count_of (snd (reconcile_and_remediate E actor st0)) (cap_id cap) =
       fst (pass_outcome (effective_get (effective st0)) cap st)"
    "filter (\<lambda>x. fst x = cap_id cap) (applied (snd (reconcile_and_remediate E actor st0))) =
       filter (\<lambda>x. fst x = cap_id cap) (applied st0) @
       (if attempts (effective_get (effective st0)) cap st
        then [(cap_id cap, ee_value (the (effective_get (effective st0) (cap_id cap))))] else [])"
proof (rule reconcile_pass [OF assms(1), of E actor])
  fix s acc
  let ?r = "snd (reconcile_and_remediate E actor st0)" and ?eff = "effective_get (effective st0)"
  assume s: "daemon_ok s" "policy_same st0 s" "snd acc = s"
    and t: "tracker ?r = tracker (snd (pass_over E ?eff actor (registry E) acc))"
    and a: "applied ?r = applied (snd (pass_over E ?eff actor (registry E) acc))"
  have "daemon_ok (snd acc)" using s by simp
  from this assms(2,3) show thesis
  proof (rule pass_over_outcome [of _ _ _ E ?eff actor])
    fix st
    assume "fail_count_of st (cap_id cap) = fail_count_of (snd acc) (cap_id cap)"
      "state_of (tracker (snd (pass_over E ?eff actor (registry E) acc))) (cap_id cap) = snd (pass_outcome ?eff cap st)"
      "fail_count_of (snd (pass_over E ?eff actor (registry E) acc)) (cap_id cap) = fst (pass_outcome ?eff cap st)"
      "filter (\<lambda>x. fst x = cap_id cap) (applied (snd (pass_over E ?eff actor (registry E) acc))) =
         filter (\<lambda>x. fst x = cap_id cap) (applied (snd acc)) @
         (if attempts ?eff cap st then [(cap_id cap, ee_value (the (?eff (cap_id cap))))] else [])"
    then show thesis
      using that [of st] s policy_same_fields(11,14) [OF s(2)] t a fail_count_tracker [OF t, of "cap_id cap"]
        fail_count_tracker [of s st0] by simp
  qed
qed

lemma reconcile_keeps:
  assumes "daemon_ok st0"
  shows "daemon_ok (snd (reconcile_and_remediate E actor st0))"
    "effective (snd (reconcile_and_remediate E actor st0)) = effective st0"
  using reconcile_pass [OF assms, of E actor] policy_same_fields(8) by (auto simp: pass_frame_def)

section \<open>Properties\<close>

text \<open>
  A reconcile pass calls each backend at most once, and only to bring a drifted capability to its
  effective value. The calls a pass adds are, in registry order, a selection of the registered
  capabilities; each carries the value the effective document holds for it, is classified for
  automatic repair, and had not used up its attempts. Policy layers, approvals that are open and the
  effective document are not touched.
\<close>

theorem pass_calls_each_backend_once:
  assumes "daemon_ok st" "distinct (map cap_id (registry E))"
    and "reconcile_and_remediate E actor st = (report, st')"
  shows "\<exists>xs. applied st' = applied st @ xs \<and> subseq (map fst xs) (map cap_id (registry E)) \<and>
    (\<forall>(i, v) \<in> set xs. \<exists>e. effective_get (effective st) i = Some e \<and> v = ee_value e \<and>
       ee_classification e = AutoRemediate \<and> fail_count_of st i < MAX_REMEDIATION_ATTEMPTS) \<and>
    daemon_ok st' \<and> effective st' = effective st \<and> preferences st' = preferences st \<and>
    admin_policy st' = admin_policy st \<and>
    (\<forall>k e. bt_get (records st) k = Some e \<and> is_answerable e (now_secs E st) \<longrightarrow> bt_get (records st') k = Some e)"
proof (rule reconcile_pass [OF assms(1), of E actor])
  fix s acc
  let ?p = "pass_over E (effective_get (effective st)) actor (registry E) acc"
  assume s: "daemon_ok s" "policy_same st s" "snd acc = s"
    and sw: "swept (now_secs E st) (records st) (records s)"
    and a: "applied (snd (reconcile_and_remediate E actor st)) = applied (snd ?p)"
    and f: "pass_frame s (snd (reconcile_and_remediate E actor st))"
  note same = policy_same_fields [OF s(2)]
  have "daemon_ok (snd acc)" using s by simp
  from pass_over_applied [OF this assms(2), of E "effective_get (effective st)" actor] s
  obtain xs where xs: "applied st' = applied st @ xs" "subseq (map fst xs) (map cap_id (registry E))"
    "\<forall>(i, v) \<in> set xs. \<exists>e. effective_get (effective st) i = Some e \<and> v = ee_value e \<and>
       ee_classification e = AutoRemediate \<and> fail_count_of st i < MAX_REMEDIATION_ATTEMPTS"
    using a assms(3) same fail_count_tracker [of s st] by auto
  moreover have "bt_get (records st') k = Some e"
    if "bt_get (records st) k = Some e" "is_answerable e (now_secs E st)" for k e
  proof -
    have "swept_at (now_secs E st) (Some e) (bt_get (records s) k)" using sw that(1) by (metis swept_def)
    then show ?thesis
      using that(2) f assms(3) by (auto simp: swept_at_def is_answerable_def is_terminal_def pass_frame_def)
  qed
  ultimately show ?thesis
    using f assms(3) same s(1) by (auto simp: pass_frame_def)
qed

text \<open>Any number of passes, and one pass over a capability whose backend never delivers.\<close>

abbreviation passes :: "daemon_env \<Rightarrow> audit_actor \<Rightarrow> nat \<Rightarrow> daemon \<Rightarrow> daemon" where
  "passes E actor n st \<equiv> ((\<lambda>s. snd (reconcile_and_remediate E actor s)) ^^ n) st"

lemma passes_keep:
  "daemon_ok st \<Longrightarrow> daemon_ok (passes E actor n st) \<and> effective (passes E actor n st) = effective st"
  by (induction n) (simp_all add: reconcile_keeps)

lemma hopeless_step:
  fixes actor
  assumes "daemon_ok st" "distinct (map cap_id (registry E))" "cap \<in> set (registry E)"
    and "effective_get (effective st) (cap_id cap) = Some e"
    and "\<forall>t. cap_observe cap t \<noteq> Some (ee_value e)" "\<forall>t. cap_verify cap t (ee_value e) \<noteq> Some True"
    and "fail_count_of st (cap_id cap) \<le> 3"
  defines "f \<equiv> fail_count_of st (cap_id cap)" and "st' \<equiv> snd (reconcile_and_remediate E actor st)"
  shows "length (filter (\<lambda>x. fst x = cap_id cap) (applied st')) + f =
      length (filter (\<lambda>x. fst x = cap_id cap) (applied st)) + fail_count_of st' (cap_id cap)"
    and "fail_count_of st' (cap_id cap) \<le> 3"
    and "\<forall>t. cap_observe cap t \<noteq> None \<Longrightarrow> ee_classification e = AutoRemediate \<Longrightarrow>
      fail_count_of st' (cap_id cap) = min 3 (f + 1) \<and>
      (f \<ge> 2 \<longrightarrow> state_of (tracker st') (cap_id cap) = NonCompliant)"
proof -
  let ?i = "cap_id cap"
  obtain s where f: "fail_count_of s ?i = f"
    and o: "state_of (tracker st') ?i = snd (pass_outcome (effective_get (effective st)) cap s)"
      "fail_count_of st' ?i = fst (pass_outcome (effective_get (effective st)) cap s)"
    and a: "filter (\<lambda>x. fst x = ?i) (applied st') = filter (\<lambda>x. fst x = ?i) (applied st) @
       (if attempts (effective_get (effective st)) cap s
        then [(?i, ee_value (the (effective_get (effective st) ?i)))] else [])"
    unfolding st'_def f_def by (rule reconcile_outcome [OF assms(1-3), of actor])
  have obs: "cap_observe cap (ticks s) \<noteq> Some (ee_value e)" using assms(5) by blast
  have "\<not> works cap (ee_value e) t" for t using assms(6) by (simp add: works_def)
  then have p: "pass_outcome (effective_get (effective st)) cap s =
      (case cap_observe cap (ticks s) of None \<Rightarrow> (f, Unknown)
       | Some cur \<Rightarrow> if ee_classification e \<noteq> AutoRemediate
           then (f, if pv_kind (ee_provenance e) = TemporaryApprovedException then Exception else NonCompliant)
           else if f \<ge> 3 then (f, NonCompliant) else (f + 1, if f + 1 \<ge> 3 then NonCompliant else Remediating))"
    using assms(4) obs f by (auto simp: pass_outcome_def MAX_REMEDIATION_ATTEMPTS_def Let_def split: option.splits)
  have att: "attempts (effective_get (effective st)) cap s \<longleftrightarrow>
      cap_observe cap (ticks s) \<noteq> None \<and> ee_classification e = AutoRemediate \<and> f < 3"
    using assms(4) obs f by (auto simp: attempts_def MAX_REMEDIATION_ATTEMPTS_def)
  show "length (filter (\<lambda>x. fst x = ?i) (applied st')) + f =
      length (filter (\<lambda>x. fst x = ?i) (applied st)) + fail_count_of st' ?i"
    unfolding a o(2) p att by (cases "cap_observe cap (ticks s)") auto
  show "fail_count_of st' ?i \<le> 3"
    using assms(7) unfolding o(2) p f_def [symmetric] by (cases "cap_observe cap (ticks s)") auto
  show "fail_count_of st' ?i = min 3 (f + 1) \<and> (f \<ge> 2 \<longrightarrow> state_of (tracker st') ?i = NonCompliant)"
    if "\<forall>t. cap_observe cap t \<noteq> None" "ee_classification e = AutoRemediate"
    using that assms(7) unfolding o p f_def [symmetric] by (auto split: option.splits)
qed

text \<open>
  C18. Automatic repair gives up. Take a capability whose verification never confirms the effective
  value and which is never observed at it. However many passes run, its backend is called at most
  three times more in total, counting the failures already on the books; and if it can be observed
  at all, three passes are enough to have it reported non-compliant, for good.
\<close>

theorem remediation_gives_up:
  assumes "daemon_ok st" "distinct (map cap_id (registry E))" "cap \<in> set (registry E)"
    and "effective_get (effective st) (cap_id cap) = Some e"
    and "\<forall>t. cap_observe cap t \<noteq> Some (ee_value e)" "\<forall>t. cap_verify cap t (ee_value e) \<noteq> Some True"
    and "fail_count_of st (cap_id cap) \<le> MAX_REMEDIATION_ATTEMPTS"
  shows "length (filter (\<lambda>x. fst x = cap_id cap) (applied (passes E actor n st))) + fail_count_of st (cap_id cap)
      \<le> length (filter (\<lambda>x. fst x = cap_id cap) (applied st)) + MAX_REMEDIATION_ATTEMPTS \<and>
    (n \<ge> MAX_REMEDIATION_ATTEMPTS \<and> ee_classification e = AutoRemediate \<and> (\<forall>t. cap_observe cap t \<noteq> None) \<longrightarrow>
       state_of (tracker (passes E actor n st)) (cap_id cap) = NonCompliant)"
proof -
  let ?i = "cap_id cap" and ?f = "fail_count_of st (cap_id cap)"
  let ?len = "\<lambda>s. length (filter (\<lambda>x. fst x = cap_id cap) (applied s))"
  have step: "?len (passes E actor n st) + ?f = ?len st + fail_count_of (passes E actor n st) ?i \<and>
      fail_count_of (passes E actor n st) ?i \<le> 3 \<and>
      (ee_classification e = AutoRemediate \<and> (\<forall>t. cap_observe cap t \<noteq> None) \<longrightarrow>
         fail_count_of (passes E actor n st) ?i \<ge> min 3 n \<and>
         (n \<ge> 3 \<longrightarrow> state_of (tracker (passes E actor n st)) ?i = NonCompliant))" for n
  proof (induction n)
    case 0
    then show ?case using assms(7) by (simp add: MAX_REMEDIATION_ATTEMPTS_def)
  next
    case (Suc n)
    let ?s = "passes E actor n st"
    have s: "daemon_ok ?s" "effective_get (effective ?s) ?i = Some e" using passes_keep [OF assms(1)] assms(4) by simp_all
    have "fail_count_of ?s ?i \<le> 3" using Suc by blast
    note h = hopeless_step [OF s(1) assms(2,3) s(2) assms(5,6) this, of actor]
    show ?case using Suc h by (auto simp: min_def split: if_splits)
  qed
  from step [of n] show ?thesis by (auto simp: MAX_REMEDIATION_ATTEMPTS_def)
qed

text \<open>
  A device whose one backend accepts every change and never shows it: observed \<open>disabled\<close>, never
  verified.
\<close>

definition demo_stuck_env :: "bool option \<Rightarrow> daemon_env" where
  "demo_stuck_env b = demo_denv\<lparr>registry := [demo_cap\<lparr>cap_verify := (\<lambda>_ _. b)\<rparr>]\<rparr>"

definition demo_wanted :: daemon where
  "demo_wanted = demo_state\<lparr>effective := \<lparr>ed_computed_at = [], ed_entries =
     [(''security.firewall'', \<lparr>ee_value = JStr ''enabled'', ee_provenance = personal_os_default,
        ee_classification = AutoRemediate, ee_user_override_permitted = True\<rparr>)]\<rparr>\<rparr>"

lemma demo_wanted_simps:
  "daemon_ok demo_wanted" "fail_count_of demo_wanted i = 0" "applied demo_wanted = []"
  "effective_get (effective demo_wanted) ''security.firewall'' = Some \<lparr>ee_value = JStr ''enabled'',
     ee_provenance = personal_os_default, ee_classification = AutoRemediate, ee_user_override_permitted = True\<rparr>"
  "registry (demo_stuck_env b) = [demo_cap\<lparr>cap_verify := (\<lambda>_ _. b)\<rparr>]"
  using demo_daemon_ok
  by (simp_all add: demo_wanted_def daemon_ok_def store_ok_def fail_count_of_def bt_get_def unwrap_or_def
      effective_get_def demo_stuck_env_def)

theorem pass_calls_each_backend_once_witness:
  "\<exists>xs. applied (snd (reconcile_and_remediate (demo_stuck_env None) daemon_actor demo_wanted)) = xs \<and>
     subseq (map fst xs) [''security.firewall'']"
proof -
  let ?E = "demo_stuck_env None"
  have "distinct (map cap_id (registry ?E))" by (simp add: demo_wanted_simps)
  from pass_calls_each_backend_once [OF demo_wanted_simps(1) this prod.collapse [symmetric], of daemon_actor]
  show ?thesis by (auto simp: demo_wanted_simps demo_cap_def)
qed

theorem remediation_gives_up_witness:
  "length (filter (\<lambda>x. fst x = ''security.firewall'')
     (applied (passes (demo_stuck_env (Some False)) daemon_actor 100 demo_wanted))) \<le> 3 \<and>
   state_of (tracker (passes (demo_stuck_env (Some False)) daemon_actor 100 demo_wanted)) ''security.firewall''
     = NonCompliant"
proof -
  let ?E = "demo_stuck_env (Some False)" and ?cap = "demo_cap\<lparr>cap_verify := (\<lambda>_ _. Some False)\<rparr>"
  have "distinct (map cap_id (registry ?E))" "?cap \<in> set (registry ?E)" "cap_id ?cap = ''security.firewall''"
    "\<forall>t. cap_observe ?cap t \<noteq> Some (JStr ''enabled'')" "\<forall>t. cap_verify ?cap t (JStr ''enabled'') \<noteq> Some True"
    "\<forall>t. cap_observe ?cap t \<noteq> None"
    by (simp_all add: demo_wanted_simps demo_cap_def)
  then show ?thesis
    using remediation_gives_up [OF demo_wanted_simps(1), of ?E ?cap, where actor = daemon_actor and n = 100] demo_wanted_simps(2-4)
    by (simp add: MAX_REMEDIATION_ATTEMPTS_def)
qed

text \<open>
  C26. A device whose backends work is compliant after one pass. If every registered capability can be
  observed, its backend accepts and confirms what it is asked for, its effective entry is classified
  for automatic repair and it has attempts left, then one pass reports the device compliant, marks
  every capability compliant and clears every failure count.
\<close>

theorem working_backends_are_repaired:
  assumes "daemon_ok st" "distinct (map cap_id (registry E))"
    and "\<forall>cap \<in> set (registry E). (\<forall>t. cap_observe cap t \<noteq> None) \<and> (\<forall>t v. works cap v t) \<and>
       fail_count_of st (cap_id cap) < MAX_REMEDIATION_ATTEMPTS \<and>
       (\<forall>e. effective_get (effective st) (cap_id cap) = Some e \<longrightarrow> ee_classification e = AutoRemediate)"
    and "reconcile_and_remediate E actor st = (report, st')"
  shows "cb_overall (rr_compliance report) = Compliant \<and>
    (\<forall>cap \<in> set (registry E). state_of (tracker st') (cap_id cap) = Compliant \<and> fail_count_of st' (cap_id cap) = 0)"
proof -
  have each: "state_of (tracker st') (cap_id cap) = Compliant \<and> fail_count_of st' (cap_id cap) = 0"
    if cap: "cap \<in> set (registry E)" for cap
  proof (rule reconcile_outcome [OF assms(1,2) cap, of actor])
    fix s
    assume f: "fail_count_of s (cap_id cap) = fail_count_of st (cap_id cap)"
      and o: "state_of (tracker (snd (reconcile_and_remediate E actor st))) (cap_id cap) =
           snd (pass_outcome (effective_get (effective st)) cap s)"
        "fail_count_of (snd (reconcile_and_remediate E actor st)) (cap_id cap) =
           fst (pass_outcome (effective_get (effective st)) cap s)"
    obtain cur where "cap_observe cap (ticks s) = Some cur" using assms(3) cap by (meson not_None_eq)
    then have "pass_outcome (effective_get (effective st)) cap s = (0, Compliant)"
      using assms(3) cap f by (auto simp: pass_outcome_def Let_def split: option.splits)
    then show ?thesis using o assms(4) by simp
  qed
  have "overall xs = Compliant" if "\<forall>x \<in> set xs. x = Compliant" for xs
    using that by (induction xs) (simp_all add: overall_def)
  then have "cb_overall (tracker_block (tracker st') (registry E)) = Compliant"
    using each by (simp add: tracker_block_def Let_def)
  then show ?thesis
    using each by (intro conjI) (rule reconcile_pass [OF assms(1), of E actor], use assms(4) in auto)
qed

theorem working_backends_are_repaired_witness:
  "cb_overall (rr_compliance (fst (reconcile_and_remediate (demo_stuck_env (Some True)) daemon_actor demo_wanted)))
     = Compliant"
proof -
  let ?E = "demo_stuck_env (Some True)"
  have "distinct (map cap_id (registry ?E))"
    "\<forall>cap \<in> set (registry ?E). (\<forall>t. cap_observe cap t \<noteq> None) \<and> (\<forall>t v. works cap v t) \<and>
       fail_count_of demo_wanted (cap_id cap) < MAX_REMEDIATION_ATTEMPTS \<and>
       (\<forall>e. effective_get (effective demo_wanted) (cap_id cap) = Some e \<longrightarrow> ee_classification e = AutoRemediate)"
    by (auto simp: demo_wanted_simps demo_cap_def works_def MAX_REMEDIATION_ATTEMPTS_def)
  from working_backends_are_repaired [OF demo_wanted_simps(1) this prod.collapse [symmetric], of daemon_actor]
  show ?thesis by blast
qed

text \<open>
  C36. Suppression outlives a change of policy. Once a capability has used up its attempts, replacing
  the organization's layers and recomputing the merge does not give it new ones: if it is observed
  away from its new effective value, the next pass does not call its backend and reports it
  non-compliant, whatever the new layers say.
\<close>

theorem suppression_outlives_policy_change:
  assumes "daemon_ok st" "distinct (map cap_id (registry E))" "cap \<in> set (registry E)"
    and "fail_count_of st (cap_id cap) = MAX_REMEDIATION_ATTEMPTS"
    and "st1 = recompute_effective E (st\<lparr>org_layers := layers\<rparr>)"
    and "effective_get (effective st1) (cap_id cap) = Some e" "ee_classification e = AutoRemediate"
    and "\<forall>t. \<exists>cur. cap_observe cap t = Some cur \<and> cur \<noteq> ee_value e"
    and "reconcile_and_remediate E actor st1 = (report, st2)"
  shows "filter (\<lambda>x. fst x = cap_id cap) (applied st2) = filter (\<lambda>x. fst x = cap_id cap) (applied st) \<and>
    state_of (tracker st2) (cap_id cap) = NonCompliant \<and>
    fail_count_of st2 (cap_id cap) = MAX_REMEDIATION_ATTEMPTS"
proof -
  have st1: "tracker st1 = tracker st" "applied st1 = applied st"
    by (simp_all add: assms(5))
  have ok: "daemon_ok st1" using assms(1) by (simp add: assms(5) daemon_ok_def store_ok_def)
  show ?thesis
  proof (rule reconcile_outcome [OF ok assms(2,3), of actor])
    fix s
    let ?r = "snd (reconcile_and_remediate E actor st1)" and ?eff = "effective_get (effective st1)"
    assume f: "fail_count_of s (cap_id cap) = fail_count_of st1 (cap_id cap)"
      and o: "state_of (tracker ?r) (cap_id cap) = snd (pass_outcome ?eff cap s)"
        "fail_count_of ?r (cap_id cap) = fst (pass_outcome ?eff cap s)"
      and a: "filter (\<lambda>x. fst x = cap_id cap) (applied ?r) = filter (\<lambda>x. fst x = cap_id cap) (applied st1) @
         (if attempts ?eff cap s then [(cap_id cap, ee_value (the (?eff (cap_id cap))))] else [])"
    have f3: "fail_count_of s (cap_id cap) = MAX_REMEDIATION_ATTEMPTS"
      using f assms(4) fail_count_tracker [OF st1(1)] by simp
    obtain cur where "cap_observe cap (ticks s) = Some cur" "cur \<noteq> ee_value e" using assms(8) by blast
    then have "pass_outcome ?eff cap s = (MAX_REMEDIATION_ATTEMPTS, NonCompliant)"
      using assms(6,7) f3 by (simp add: pass_outcome_def Let_def)
    moreover have "\<not> attempts ?eff cap s" using f3 by (simp add: attempts_def)
    ultimately show ?thesis using o a assms(9) st1(2) by simp
  qed
qed

definition demo_exhausted :: daemon where
  "demo_exhausted = demo_state\<lparr>tracker := \<lparr>states = [], fail_counts = [(''security.firewall'', 3)],
     drift_remediated_total = 0, last_remediation_at = None\<rparr>\<rparr>"

theorem suppression_outlives_policy_change_witness:
  "let st1 = recompute_effective (demo_stuck_env (Some True)) (demo_exhausted\<lparr>org_layers := []\<rparr>)
   in state_of (tracker (snd (reconcile_and_remediate (demo_stuck_env (Some True)) daemon_actor st1)))
        ''security.firewall'' = NonCompliant"
proof -
  let ?E = "demo_stuck_env (Some True)" and ?st = "demo_exhausted\<lparr>org_layers := []\<rparr>"
  let ?cap = "demo_cap\<lparr>cap_verify := (\<lambda>_ _. Some True)\<rparr>"
  let ?w = "\<lparr>lv_value = JStr ''enabled'', lv_provenance = personal_os_default, lv_classification = AutoRemediate\<rparr>"
  have ok: "daemon_ok demo_exhausted" "daemon_ok ?st"
    using demo_daemon_ok by (simp_all add: demo_exhausted_def daemon_ok_def store_ok_def bt_ok_def)
  have "daemon_cascade ?E ?st ''security.firewall'' = Some ?w"
    by (simp add: daemon_cascade_def effective_cascade_def org_at_def candidates_at_def bt_get_def
        demo_exhausted_def demo_wanted_simps demo_cap_def os_default_layer_def auto_layer_def)
  then have eff: "effective_get (effective (recompute_effective ?E ?st)) (cap_id ?cap) = Some (effective_of ?w)"
    using recompute_effective_entry [OF ok(2), of ?E] by (simp add: demo_cap_def)
  have "distinct (map cap_id (registry ?E))" "?cap \<in> set (registry ?E)"
    "fail_count_of demo_exhausted (cap_id ?cap) = MAX_REMEDIATION_ATTEMPTS"
    "ee_classification (effective_of ?w) = AutoRemediate"
    "\<forall>t. \<exists>cur. cap_observe ?cap t = Some cur \<and> cur \<noteq> ee_value (effective_of ?w)"
    by (simp_all add: demo_wanted_simps demo_cap_def demo_exhausted_def fail_count_of_def bt_get_def unwrap_or_def
        MAX_REMEDIATION_ATTEMPTS_def effective_of_def)
  from suppression_outlives_policy_change [OF ok(1) this(1-3) refl eff this(4,5) prod.collapse [symmetric], of daemon_actor]
  show ?thesis by (simp add: Let_def demo_cap_def)
qed

end
