(* ===== verification/Device_Policy.thy ===== *)
theory Device_Policy
  imports Gate_Rules
begin

text \<open>
  The device administrator's layer: \<open>policy.set\<close>, \<open>policy.effective\<close> and \<open>policy.explain\<close> of
  \<open>crates/punard/src/server.rs\<close>, the re-authentication tickets of \<open>punard/src/reauth.rs\<close> and
  \<open>AdminPolicyStore::set\<close> of \<open>punard/src/state.rs\<close>. The ticket directory is the field \<open>tickets\<close>: the
  uid, the token and the modification time in milliseconds of each file in it. The lemmas show who
  may pin a value, that a ticket is spent once, and when a pinned value takes effect.
\<close>

section \<open>Tickets\<close>

definition TICKET_MAX_AGE_SECS :: nat where
  "TICKET_MAX_AGE_SECS = 120"

definition TOKEN_LEN :: nat where
  "TOKEN_LEN = 64"

datatype reauth_error = ReMalformed | ReMissing | ReExpired

fun reauth_error_str :: "reauth_error \<Rightarrow> string" where
  "reauth_error_str ReMalformed = ''malformed''"
| "reauth_error_str ReMissing = ''missing''"
| "reauth_error_str ReExpired = ''expired''"

definition token_ok :: "string \<Rightarrow> bool" where
  "token_ok token \<longleftrightarrow> length token = TOKEN_LEN \<and>
     list_all (\<lambda>b. is_ascii_digit b \<or> (97 \<le> byte b \<and> byte b \<le> 102)) token"

definition ticket_age :: "nat \<Rightarrow> nat \<Rightarrow> nat" where
  "ticket_age now minted_at =
     (if minted_at \<le> now then (now - minted_at) div 1000 else TICKET_MAX_AGE_SECS + 1)"

text \<open>\<open>now\<close> is read before the call; a failed unlink means that somebody else spent the ticket.\<close>

definition reauth_consume ::
  "daemon_env \<Rightarrow> nat \<Rightarrow> string \<Rightarrow> nat \<Rightarrow> daemon \<Rightarrow> (reauth_error, unit) result \<times> daemon" where
  "reauth_consume E uid token now st =
     (if \<not> token_ok token then (Err ReMalformed, st)
      else (case map_of (tickets st) (uid, token) of
              None \<Rightarrow> (Err ReMissing, st)
            | Some minted_at \<Rightarrow>
                if \<not> env_disk E (ticks st) then (Err ReMissing, tick st)
                else (let st1 = tick (st\<lparr>tickets := filter (\<lambda>f. fst f \<noteq> (uid, token)) (tickets st)\<rparr>)
                      in if ticket_age now minted_at > TICKET_MAX_AGE_SECS then (Err ReExpired, st1)
                         else (Ok (), st1))))"

section \<open>Reading the policy\<close>

record policy_source_ref =
  psr_kind :: string
  psr_rank :: nat
  psr_policy_id :: string
  psr_name :: string

definition source_ref :: "provenance \<Rightarrow> policy_source_ref" where
  "source_ref p = \<lparr>psr_kind = source_kind_str (pv_kind p), psr_rank = pv_rank p,
     psr_policy_id = pv_policy_id p, psr_name = pv_source_name p\<rparr>"

definition admin_may_override :: "json effective_entry \<Rightarrow> bool" where
  "admin_may_override e \<longleftrightarrow>
     pv_rank (ee_provenance e) > DEVICE_ADMIN_RANK \<or> pv_kind (ee_provenance e) = DeviceSpecificOverride"

record local_admin_status =
  las_allowed :: bool
  las_source :: "policy_source_ref option"

definition local_admin_status_of :: "daemon \<Rightarrow> local_admin_status" where
  "local_admin_status_of st =
     (case resolve_local_admin (local_admin st) of
        Some layer \<Rightarrow> \<lparr>las_allowed = la_allowed layer, las_source = Some (source_ref (la_provenance layer))\<rparr>
      | None \<Rightarrow> \<lparr>las_allowed = True, las_source = None\<rparr>)"

record policy_explain_result =
  px_effective_value :: json
  px_source :: policy_source_ref
  px_user_override_permitted :: bool
  px_admin_override_permitted :: bool
  px_compliance_state :: compliance_state

definition explain_entry :: "daemon \<Rightarrow> string \<Rightarrow> json effective_entry \<Rightarrow> policy_explain_result" where
  "explain_entry st path entry =
     \<lparr>px_effective_value = ee_value entry, px_source = source_ref (ee_provenance entry),
      px_user_override_permitted = ee_user_override_permitted entry,
      px_admin_override_permitted = (las_allowed (local_admin_status_of st) \<and> admin_may_override entry),
      px_compliance_state = state_of (tracker st) path\<rparr>"

record policy_effective_result =
  pe_computed_at :: string
  pe_entries :: "(string \<times> policy_explain_result) list"
  pe_local_admin :: local_admin_status

definition handle_policy_effective :: "daemon \<Rightarrow> policy_effective_result" where
  "handle_policy_effective st =
     \<lparr>pe_computed_at = ed_computed_at (effective st),
      pe_entries = map (\<lambda>(path, entry). (path, explain_entry st path entry)) (ed_entries (effective st)),
      pe_local_admin = local_admin_status_of st\<rparr>"

definition handle_policy_explain :: "daemon \<Rightarrow> string \<Rightarrow> (ipc_error, policy_explain_result) result" where
  "handle_policy_explain st path =
     (case effective_get (effective st) path of
        None \<Rightarrow> Err (with_details EcNotFound [(''param'', JStr ''path''), (''path'', JStr path)])
      | Some entry \<Rightarrow> Ok (explain_entry st path entry))"

section \<open>\<open>policy.set\<close>\<close>

definition MAX_POLICY_REASON_CHARS :: nat where
  "MAX_POLICY_REASON_CHARS = 500"

text \<open>\<open>chars().count()\<close> counts the bytes that do not continue a code point.\<close>

definition chars_count :: "string \<Rightarrow> nat" where
  "chars_count s = length (filter (\<lambda>c. \<not> (128 \<le> byte c \<and> byte c < 192)) s)"

record policy_set_params =
  po_capability :: string
  po_value :: "json option"
  po_reason :: string
  po_ticket :: "string option"

record policy_set_result =
  pr_capability_id :: string
  pr_pinned_value :: "json option"
  pr_effective_value :: json
  pr_source :: policy_source_ref
  pr_changed :: bool

text \<open>\<open>AdminPolicyStore::set\<close>: the map in memory changes before the file is written.\<close>

definition set_admin_policy :: "daemon_env \<Rightarrow> string \<Rightarrow> admin_entry option \<Rightarrow> daemon \<Rightarrow> bool \<times> daemon" where
  "set_admin_policy E i entry st =
     (let m = (case entry of Some e \<Rightarrow> bt_insert i e (admin_policy st) | None \<Rightarrow> bt_remove i (admin_policy st))
      in if env_disk E (ticks st)
         then (True, tick (st\<lparr>admin_policy := m, admin_file := m\<rparr>))
         else (False, tick (st\<lparr>admin_policy := m\<rparr>)))"

definition denied_for :: "string \<Rightarrow> (string \<times> json) list \<Rightarrow> string \<Rightarrow> ipc_error" where
  "denied_for i extra reason =
     with_details EcDenied
       ([(''decision'', JStr ''deny''), (''capability'', JStr i)] @ extra @ [(''reason'', JStr reason)])"

text \<open>Who is asking: root, or somebody who has just proved their password.\<close>

definition reauthenticate ::
  "daemon_env \<Rightarrow> peer \<Rightarrow> audit_actor \<Rightarrow> string \<Rightarrow> string option \<Rightarrow> daemon
   \<Rightarrow> (ipc_error, unit) result \<times> daemon" where
  "reauthenticate E p actor i ticket st =
     (if peer_uid p = 0 then (Ok (), st)
      else (case ticket of
              None \<Rightarrow>
                (Err (denied_for i [] ''reauthentication_required''),
                 log_denial E actor ''policy.set'' i None st)
            | Some token \<Rightarrow>
                (case reauth_consume E (peer_uid p) token (env_clock E (ticks st)) st of
                   (Err why, st1) \<Rightarrow>
                     (Err (denied_for i [] (''reauthentication_'' @ reauth_error_str why)),
                      log_denial E actor ''policy.set'' i None st1)
                 | (Ok _, st1) \<Rightarrow> (Ok (), st1))))"

text \<open>The change itself, once it is authorized.\<close>

definition pin_policy ::
  "daemon_env \<Rightarrow> audit_actor \<Rightarrow> capability \<Rightarrow> policy_set_params \<Rightarrow> daemon
   \<Rightarrow> (ipc_error, policy_set_result) result \<times> daemon" where
  "pin_policy E actor cap ps st =
     (let i = po_capability ps;
          entry = map_option (\<lambda>v. \<lparr>ae_value = v, ae_set_at = utc_now_rfc3339 E st,
                                  ae_set_by = aa_user_id actor, ae_reason = str_trim (po_reason ps)\<rparr>)
                    (po_value ps)
      in case set_admin_policy E i entry st of
           (False, st1) \<Rightarrow> (Err internal, st1)
         | (True, st1) \<Rightarrow>
             (case settle_layer_change E actor cap i (po_value ps) ''policy.set'' [] st1 of
                ((Err e, _), st2) \<Rightarrow> (Err e, st2)
              | ((Ok _, execution), st2) \<Rightarrow>
                  (case effective_get (effective st2) i of
                     None \<Rightarrow> (Err internal, st2)
                   | Some settled \<Rightarrow>
                       (Ok \<lparr>pr_capability_id = i, pr_pinned_value = po_value ps,
                            pr_effective_value = ee_value settled,
                            pr_source = source_ref (ee_provenance settled),
                            pr_changed = unwrap_or (x_changed execution) False\<rparr>, st2))))"

definition handle_policy_set ::
  "daemon_env \<Rightarrow> peer \<Rightarrow> policy_set_params \<Rightarrow> daemon \<Rightarrow> (ipc_error, policy_set_result) result \<times> daemon" where
  "handle_policy_set E p ps st =
     (case lookup E (po_capability ps) of
        Err e \<Rightarrow> (Err e, st)
      | Ok cap \<Rightarrow>
          (let i = po_capability ps;
               actor = actor_of E st p;
               reason = str_trim (po_reason ps);
               status = local_admin_status_of st
           in case aa_agent_session_id actor of
                Some session \<Rightarrow>
                  (Err (denied_for i [(''agent_session_id'', JStr session)] ''agent_scope''),
                   log_denial E actor ''policy.set'' i None st)
              | None \<Rightarrow>
                  if reason = [] \<or> chars_count reason > MAX_POLICY_REASON_CHARS
                  then (Err (with_details EcInvalidParams [(''param'', JStr ''reason''), (''capability'', JStr i)]), st)
                  else if \<not> (case po_value ps of Some v \<Rightarrow> cap_validate cap v | None \<Rightarrow> True)
                  then (Err invalid_state, st)
                  else if \<not> las_allowed status
                  then (let policy_id = (case las_source status of
                                           Some src \<Rightarrow> psr_policy_id src | None \<Rightarrow> ''unknown'')
                        in (Err (denied_for i [(''policy_ids'', JArr [JStr policy_id])] ''local_admin_disabled''),
                            log_denial E actor ''policy.set'' i (Some [policy_id]) st))
                  else (case effective_get (effective st) i of
                          None \<Rightarrow> (Err internal, st)
                        | Some current \<Rightarrow>
                            if \<not> admin_may_override current
                            then (Err (denied_org_pinned i (pv_policy_id (ee_provenance current))),
                                  log_denial E actor ''policy.set'' i
                                    (Some [pv_policy_id (ee_provenance current)]) st)
                            else (case reauthenticate E p actor i (po_ticket ps) st of
                                    (Err e, st1) \<Rightarrow> (Err e, st1)
                                  | (Ok _, st1) \<Rightarrow> pin_policy E actor cap ps st1))))"

section \<open>Lemmas\<close>

lemma reauth_consume_fields [simp]:
  "records (snd (reauth_consume E uid tok now st)) = records st"
  "admin_policy (snd (reauth_consume E uid tok now st)) = admin_policy st"
  "preferences (snd (reauth_consume E uid tok now st)) = preferences st"
  "applied (snd (reauth_consume E uid tok now st)) = applied st"
  "effective (snd (reauth_consume E uid tok now st)) = effective st"
  "org_layers (snd (reauth_consume E uid tok now st)) = org_layers st"
  "os_defaults (snd (reauth_consume E uid tok now st)) = os_defaults st"
  "tracker (snd (reauth_consume E uid tok now st)) = tracker st"
  "store_ok (snd (reauth_consume E uid tok now st)) = store_ok st"
  "ticks st \<le> ticks (snd (reauth_consume E uid tok now st))"
  by (simp_all add: reauth_consume_def Let_def tick_def store_ok_def split: option.splits)

lemma reauthenticate_fields [simp]:
  "records (snd (reauthenticate E p actor i t st)) = records st"
  "admin_policy (snd (reauthenticate E p actor i t st)) = admin_policy st"
  "preferences (snd (reauthenticate E p actor i t st)) = preferences st"
  "applied (snd (reauthenticate E p actor i t st)) = applied st"
  "effective (snd (reauthenticate E p actor i t st)) = effective st"
  "org_layers (snd (reauthenticate E p actor i t st)) = org_layers st"
  "os_defaults (snd (reauthenticate E p actor i t st)) = os_defaults st"
  "tracker (snd (reauthenticate E p actor i t st)) = tracker st"
  "store_ok (snd (reauthenticate E p actor i t st)) = store_ok st"
  by (auto simp: reauthenticate_def case_prod_beta split: option.splits sum.splits)

lemma reauthenticate_daemon_ok: "daemon_ok (snd (reauthenticate E p actor i t st)) = daemon_ok st"
  by (simp add: daemon_ok_def)

lemma reauth_consume_Ok:
  assumes "reauth_consume E uid tok now st = (Ok (), st')"
  shows "token_ok tok" "\<exists>m. map_of (tickets st) (uid, tok) = Some m \<and> m \<le> now \<and> (now - m) div 1000 \<le> TICKET_MAX_AGE_SECS"
    "map_of (tickets st') (uid, tok) = None"
proof -
  have "map_of (filter (\<lambda>f. fst f \<noteq> k) xs) k = None" for k :: "nat \<times> string" and xs :: "((nat \<times> string) \<times> nat) list"
    by (induction xs) auto
  then show "token_ok tok"
    "\<exists>m. map_of (tickets st) (uid, tok) = Some m \<and> m \<le> now \<and> (now - m) div 1000 \<le> TICKET_MAX_AGE_SECS"
    "map_of (tickets st') (uid, tok) = None"
    using assms
    by (auto simp: reauth_consume_def ticket_age_def Let_def tick_def split: option.splits if_splits)
qed

lemma reauthenticate_Ok:
  assumes "reauthenticate E p actor i t st = (Ok (), st')"
  shows "peer_uid p = 0 \<or> (\<exists>tok m. t = Some tok \<and> token_ok tok \<and> map_of (tickets st) (peer_uid p, tok) = Some m \<and>
      m \<le> env_clock E (ticks st) \<and> (env_clock E (ticks st) - m) div 1000 \<le> TICKET_MAX_AGE_SECS \<and>
      map_of (tickets st') (peer_uid p, tok) = None)"
proof (cases "peer_uid p = 0")
  case False
  then obtain tok where t: "t = Some tok"
    and r: "reauth_consume E (peer_uid p) tok (env_clock E (ticks st)) st = (Ok (), st')"
    using assms by (auto simp: reauthenticate_def split: option.splits prod.splits sum.splits)
  from reauth_consume_Ok [OF r] t show ?thesis by auto
qed simp

lemma set_admin_fields [simp]:
  "records (snd (set_admin_policy E i e st)) = records st" "grants (snd (set_admin_policy E i e st)) = grants st"
  "preferences (snd (set_admin_policy E i e st)) = preferences st"
  "applied (snd (set_admin_policy E i e st)) = applied st" "tickets (snd (set_admin_policy E i e st)) = tickets st"
  "org_layers (snd (set_admin_policy E i e st)) = org_layers st"
  "os_defaults (snd (set_admin_policy E i e st)) = os_defaults st"
  "tracker (snd (set_admin_policy E i e st)) = tracker st"
  "store_ok (snd (set_admin_policy E i e st)) = store_ok st"
  "admin_policy (snd (set_admin_policy E i e st)) =
     (case e of Some x \<Rightarrow> bt_insert i x (admin_policy st) | None \<Rightarrow> bt_remove i (admin_policy st))"
  by (simp_all add: set_admin_policy_def Let_def tick_def store_ok_def)

lemma set_admin_daemon_ok: "daemon_ok st \<Longrightarrow> daemon_ok (snd (set_admin_policy E i e st))"
  by (simp add: daemon_ok_def bt_ok_insert bt_ok_remove split: option.splits)

lemma settle_tickets: "tickets (snd (settle_layer_change E actor cap i r a x st)) = tickets st"
  by (rule settle_cases [of E actor cap i r a x st]) (auto dest: audit_frame_fields(19))

lemma pin_tickets: "tickets (snd (pin_policy E actor cap ps st)) = tickets st"
  by (auto simp: pin_policy_def Let_def case_prod_beta settle_tickets split: option.splits sum.splits bool.splits)

text \<open>The ladder: the one way to the last step.\<close>

lemma policy_set_pins:
  assumes "handle_policy_set E p ps st = (r, st')"
    and "applied st' \<noteq> applied st \<or> admin_policy st' \<noteq> admin_policy st \<or> is_ok r"
  obtains cap current st1 where "registry_get E (po_capability ps) = Some cap"
    "aa_agent_session_id (actor_of E st p) = None" "str_trim (po_reason ps) \<noteq> []"
    "chars_count (str_trim (po_reason ps)) \<le> MAX_POLICY_REASON_CHARS"
    "\<And>v. po_value ps = Some v \<Longrightarrow> cap_validate cap v" "las_allowed (local_admin_status_of st)"
    "effective_get (effective st) (po_capability ps) = Some current" "admin_may_override current"
    "reauthenticate E p (actor_of E st p) (po_capability ps) (po_ticket ps) st = (Ok (), st1)"
    "pin_policy E (actor_of E st p) cap ps st1 = (r, st')"
proof -
  obtain cap where cap: "registry_get E (po_capability ps) = Some cap"
    using assms by (auto simp: handle_policy_set_def lookup_def is_ok_def split: option.splits)
  note h = assms(1) [unfolded handle_policy_set_def lookup_def cap Let_def, simplified]
  have diff: "applied st' \<noteq> applied st \<or> admin_policy st' \<noteq> admin_policy st \<or> (\<exists>x. r = Ok x)"
    using assms(2) by (auto simp: is_ok_def split: sum.splits)
  have a: "aa_agent_session_id (actor_of E st p) = None"
    using h diff by (auto split: option.splits)
  have b: "str_trim (po_reason ps) \<noteq> []" "chars_count (str_trim (po_reason ps)) \<le> MAX_POLICY_REASON_CHARS"
    using h diff a by (auto split: if_splits)
  have c: "case po_value ps of Some v \<Rightarrow> cap_validate cap v | None \<Rightarrow> True"
    using h diff a b by (auto split: if_splits option.splits)
  have d: "las_allowed (local_admin_status_of st)"
    using h diff a b c by (auto split: if_splits)
  obtain current where e: "effective_get (effective st) (po_capability ps) = Some current" "admin_may_override current"
    using h diff a b c d by (auto split: if_splits option.splits)
  let ?r = "reauthenticate E p (actor_of E st p) (po_capability ps) (po_ticket ps) st"
  have "fst ?r = Ok ()"
    using h diff a b c d e
      reauthenticate_fields(2,4) [of E p "actor_of E st p" "po_capability ps" "po_ticket ps" st]
    by (cases ?r; cases "fst ?r") (auto split: if_splits)
  then have f: "?r = (Ok (), snd ?r)" by (cases ?r) auto
  then have "pin_policy E (actor_of E st p) cap ps (snd ?r) = (r, st')"
    using h a b c d e by (cases ?r) (auto split: if_splits)
  then show thesis using that [OF cap a b _ d e f] c by (metis option.simps(5))
qed

section \<open>Properties\<close>

text \<open>
  C10. Device policy is changed by a person who has just proved it. If a \<open>policy.set\<close> call changes the
  administrator's layer or reaches a backend, then the capability is registered and accepts the
  value, the caller is not an agent, a reason of 1 to 500 characters was given, the organization
  allows local administration, the value in force is one the administrator may override, and the
  caller is root or presented a ticket that was minted for that very uid not more than 120 seconds
  before and that no longer exists afterwards.
\<close>

theorem device_policy_needs_a_person:
  assumes "handle_policy_set E p ps st = (r, st')"
    and "applied st' \<noteq> applied st \<or> admin_policy st' \<noteq> admin_policy st"
  shows "(\<exists>cap. registry_get E (po_capability ps) = Some cap \<and>
       (\<forall>v. po_value ps = Some v \<longrightarrow> cap_validate cap v)) \<and>
    agent_session_of_peer E st p = None \<and>
    str_trim (po_reason ps) \<noteq> [] \<and> chars_count (str_trim (po_reason ps)) \<le> 500 \<and>
    las_allowed (local_admin_status_of st) \<and>
    (\<exists>e. effective_get (effective st) (po_capability ps) = Some e \<and> admin_may_override e) \<and>
    (peer_uid p = 0 \<or> (\<exists>tok m. po_ticket ps = Some tok \<and> token_ok tok \<and>
       map_of (tickets st) (peer_uid p, tok) = Some m \<and> m \<le> env_clock E (ticks st) \<and>
       (env_clock E (ticks st) - m) div 1000 \<le> 120 \<and> map_of (tickets st') (peer_uid p, tok) = None))"
proof -
  have agent: "aa_agent_session_id (actor_of E st p) = None \<Longrightarrow> agent_session_of_peer E st p = None"
    by (simp add: actor_of_def with_agent_session_def Let_def split: option.splits)
  from assms(2) have "applied st' \<noteq> applied st \<or> admin_policy st' \<noteq> admin_policy st \<or> is_ok r" by blast
  with assms(1) show ?thesis
  proof (rule policy_set_pins)
    fix cap current st1
    assume h: "registry_get E (po_capability ps) = Some cap" "aa_agent_session_id (actor_of E st p) = None"
      "str_trim (po_reason ps) \<noteq> []" "chars_count (str_trim (po_reason ps)) \<le> MAX_POLICY_REASON_CHARS"
      "\<And>v. po_value ps = Some v \<Longrightarrow> cap_validate cap v" "las_allowed (local_admin_status_of st)"
      "effective_get (effective st) (po_capability ps) = Some current" "admin_may_override current"
      and r: "reauthenticate E p (actor_of E st p) (po_capability ps) (po_ticket ps) st = (Ok (), st1)"
      and p: "pin_policy E (actor_of E st p) cap ps st1 = (r, st')"
    have "tickets st' = tickets st1" using pin_tickets [of E "actor_of E st p" cap ps st1] p by simp
    then show ?thesis using h agent reauthenticate_Ok [OF r]
      by (auto simp: MAX_POLICY_REASON_CHARS_def TICKET_MAX_AGE_SECS_def)
  qed
qed

text \<open>
  A confirmation is good once, for two minutes, for the account that made it. Presenting a ticket
  that exists removes it and no other, whether it is accepted or not; it is accepted exactly when it
  was minted at most 120 seconds before and not in the future, and otherwise is reported expired;
  and from then on the same token is unknown, at any time and in any circumstances.
\<close>

theorem ticket_is_spent_once:
  assumes "token_ok tok" "map_of (tickets st) (uid, tok) = Some m" "env_disk E (ticks st)"
    and "reauth_consume E uid tok now st = (r, st')"
  shows "map_of (tickets st') = (map_of (tickets st))((uid, tok) := None) \<and>
    r = (if m \<le> now \<and> (now - m) div 1000 \<le> 120 then Ok () else Err ReExpired) \<and>
    (\<forall>E' now'. fst (reauth_consume E' uid tok now' st') = Err ReMissing)"
proof -
  have f: "map_of (filter (\<lambda>f. fst f \<noteq> k) xs) = (map_of xs)(k := None)"
    for k :: "nat \<times> string" and xs :: "((nat \<times> string) \<times> nat) list"
    by (induction xs) (auto simp: fun_upd_def)
  have t: "tickets st' = filter (\<lambda>f. fst f \<noteq> (uid, tok)) (tickets st)"
    and r: "r = (if m \<le> now \<and> (now - m) div 1000 \<le> 120 then Ok () else Err ReExpired)"
    using assms by (auto simp: reauth_consume_def Let_def tick_def ticket_age_def TICKET_MAX_AGE_SECS_def
        split: if_splits)
  have gone: "map_of (tickets st') = (map_of (tickets st))((uid, tok) := None)" unfolding t by (rule f)
  then have "fst (reauth_consume E' uid tok now' st') = Err ReMissing" for E' now'
    using assms(1) by (simp add: reauth_consume_def)
  with gone r show ?thesis by blast
qed

definition demo_token :: string where
  "demo_token = replicate 64 CHR ''a''"

lemma demo_token_ok: "token_ok demo_token"
  by (simp add: token_ok_def TOKEN_LEN_def demo_token_def list_all_iff byte_def)

theorem ticket_is_spent_once_witness:
  "fst (reauth_consume demo_denv 1000 demo_token 120999 (demo_state\<lparr>tickets := [((1000, demo_token), 0)]\<rparr>)) = Ok () \<and>
   fst (reauth_consume demo_denv 1000 demo_token 121000 (demo_state\<lparr>tickets := [((1000, demo_token), 0)]\<rparr>))
     = Err ReExpired"
proof -
  let ?st = "demo_state\<lparr>tickets := [((1000, demo_token), 0)]\<rparr>"
  have m: "map_of (tickets ?st) (1000, demo_token) = Some 0" by simp
  have d: "env_disk demo_denv (ticks ?st)" by (simp add: demo_denv_def demo_store_env_def store_env.defs daemon_env.defs)
  show ?thesis
    using ticket_is_spent_once [OF demo_token_ok m d prod.collapse [symmetric], of 120999]
      ticket_is_spent_once [OF demo_token_ok m d prod.collapse [symmetric], of 121000] by simp
qed

text \<open>The cascade sees the layers only.\<close>

lemma daemon_cascade_cong:
  "os_defaults a = os_defaults b \<Longrightarrow> preferences a = preferences b \<Longrightarrow> admin_policy a = admin_policy b \<Longrightarrow>
   org_layers a = org_layers b \<Longrightarrow> daemon_cascade E a = daemon_cascade E b"
  by (simp add: daemon_cascade_def)

lemma resolve_member: "resolve xs = Some r \<Longrightarrow> (r_source r, r_value r) \<in> set xs"
  using resolve_winner by fastforce

lemma pin_effective:
  assumes "daemon_ok st" "registry_get E (po_capability ps) = Some cap"
    and "pin_policy E actor cap ps st = (Ok r, st')" "po_value ps = Some v"
  obtains e where "ae_value e = v" "ae_reason e = str_trim (po_reason ps)" "ae_set_by e = aa_user_id actor"
    "bt_get (admin_policy st') (po_capability ps) = Some e"
    "effective_get (effective st') (po_capability ps) = map_option effective_of
       (daemon_cascade E (st\<lparr>admin_policy := bt_insert (po_capability ps) e (admin_policy st)\<rparr>) (po_capability ps))"
    "\<exists>w. effective_get (effective st') (po_capability ps) = Some w \<and> pr_effective_value r = ee_value w \<and>
       pr_source r = source_ref (ee_provenance w)"
proof -
  let ?i = "po_capability ps"
  let ?e = "\<lparr>ae_value = v, ae_set_at = utc_now_rfc3339 E st, ae_set_by = aa_user_id actor,
      ae_reason = str_trim (po_reason ps)\<rparr>"
  let ?s = "snd (set_admin_policy E ?i (Some ?e) st)"
  let ?l = "settle_layer_change E actor cap ?i (Some v) ''policy.set'' [] ?s"
  have ok: "daemon_ok ?s" by (rule set_admin_daemon_ok [OF assms(1)])
  have st': "st' = snd ?l" and w: "\<exists>w. effective_get (effective st') ?i = Some w \<and> pr_effective_value r = ee_value w \<and>
       pr_source r = source_ref (ee_provenance w)"
    using assms(3,4) by (auto simp: pin_policy_def Let_def case_prod_beta split: bool.splits sum.splits option.splits)
  have "bt_get (admin_policy st') ?i = Some ?e"
    using assms(1) by (simp add: st' settle_keeps bt_get_insert daemon_ok_def)
  moreover have "daemon_cascade E ?s = daemon_cascade E (st\<lparr>admin_policy := bt_insert ?i ?e (admin_policy st)\<rparr>)"
    by (rule daemon_cascade_cong) simp_all
  then have "effective_get (effective st') ?i = map_option effective_of
      (daemon_cascade E (st\<lparr>admin_policy := bt_insert ?i ?e (admin_policy st)\<rparr>) ?i)"
    using recompute_effective_entry [OF ok, of E ?i] by (simp add: st' settle_keeps)
  ultimately show thesis using w by (intro that [of ?e]) simp_all
qed

text \<open>
  What the ladder lets an administrator pin takes effect. On a device whose effective document is
  up to date and whose organization layers are not themselves device overrides, a \<open>policy.set\<close> that
  succeeds with a value reports that value as the effective one, attributed to the device
  administrator, and records it with its author and its trimmed reason; so the override bit of
  \<open>policy.effective\<close> never offers an edit that a higher layer would undo.
\<close>

theorem pinned_value_takes_effect:
  assumes "daemon_ok st" "\<forall>q. effective_get (effective st) q = map_option effective_of (daemon_cascade E st q)"
    and "\<forall>l \<in> set (org_layers st). pv_kind (lv_provenance (snd l)) \<noteq> DeviceSpecificOverride"
    and "handle_policy_set E p ps st = (Ok r, st')" "po_value ps = Some v"
  shows "pr_effective_value r = v \<and> effective_value_of st' (po_capability ps) = Some v \<and>
    psr_kind (pr_source r) = source_kind_str DeviceSpecificOverride \<and>
    (\<exists>e. bt_get (admin_policy st') (po_capability ps) = Some e \<and> ae_value e = v \<and>
       ae_set_by e = aa_user_id (actor_of E st p) \<and> ae_reason e = str_trim (po_reason ps))"
proof -
  let ?i = "po_capability ps"
  have "applied st' \<noteq> applied st \<or> admin_policy st' \<noteq> admin_policy st \<or> is_ok (Ok r :: (ipc_error, policy_set_result) result)"
    by (simp add: is_ok_def)
  with assms(4) show ?thesis
  proof (rule policy_set_pins)
    fix cap current st1
    assume cap: "registry_get E ?i = Some cap"
      and cur: "effective_get (effective st) ?i = Some current" "admin_may_override current"
      and re: "reauthenticate E p (actor_of E st p) ?i (po_ticket ps) st = (Ok (), st1)"
      and pin: "pin_policy E (actor_of E st p) cap ps st1 = (Ok r, st')"
    note same = reauthenticate_fields [of E p "actor_of E st p" ?i "po_ticket ps" st, unfolded re snd_conv]
    have ok: "daemon_ok st1" using reauthenticate_daemon_ok [of E p "actor_of E st p" ?i "po_ticket ps" st] re assms(1) by simp
    have none: "resolve (org_at (\<lambda>k. k \<le> 4) (org_layers st) ?i) = None"
    proof (rule ccontr)
      assume "\<not> ?thesis"
      then obtain w where w: "resolve (org_at (\<lambda>k. k \<le> 4) (org_layers st) ?i) = Some w" by blast
      then have "daemon_cascade E st ?i = Some (r_value w)" by (simp add: daemon_cascade_def effective_cascade_def)
      then have "ee_provenance current = lv_provenance (r_value w)" using assms(2) cur(1) by (auto simp: effective_of_def)
      moreover have "pv_rank (lv_provenance (r_value w)) \<le> 4" "(?i, r_value w) \<in> set (org_layers st)"
        using resolve_member [OF w] by (auto simp: org_at_def candidates_at_def)
      ultimately show False using cur(2) assms(3) by (force simp: admin_may_override_def DEVICE_ADMIN_RANK_def)
    qed
    show ?thesis using ok cap pin assms(5)
    proof (rule pin_effective)
      fix e
      let ?s = "st1\<lparr>admin_policy := bt_insert ?i e (admin_policy st1)\<rparr>"
      assume e: "ae_value e = v" "ae_reason e = str_trim (po_reason ps)" "ae_set_by e = aa_user_id (actor_of E st p)"
        "bt_get (admin_policy st') ?i = Some e"
        and eff: "effective_get (effective st') ?i = map_option effective_of (daemon_cascade E ?s ?i)"
        and r: "\<exists>w. effective_get (effective st') ?i = Some w \<and> pr_effective_value r = ee_value w \<and>
          pr_source r = source_ref (ee_provenance w)"
      have "bt_ok (admin_policy st1)" using ok by (simp add: daemon_ok_def)
      then have "daemon_cascade E ?s ?i = Some (snd (admin_layer (?i, e)))"
        using none same(6) by (simp add: daemon_cascade_def effective_cascade_def bt_get_insert)
      then have "effective_get (effective st') ?i = Some (effective_of (snd (admin_layer (?i, e))))"
        using eff by simp
      then show ?thesis
        using r e by (auto simp: effective_value_of_def effective_of_def admin_layer_def auto_layer_def
            device_admin_override_def source_ref_def)
    qed
  qed
qed

text \<open>
  A root administrator pins a value on a device that has just recomputed its merge, with or without
  an organization layer. The backend shows \<open>disabled\<close>.
\<close>

definition demo_org_layer :: layer where
  "demo_org_layer = (''security.firewall'', \<lparr>lv_value = JStr ''disabled'', lv_provenance =
     \<lparr>pv_kind = DeviceSpecificOverride, pv_rank = 2, pv_policy_id = ''org/1'', pv_source_name = ''org''\<rparr>,
     lv_classification = AutoRemediate\<rparr>)"

definition demo_current :: "layer list \<Rightarrow> daemon" where
  "demo_current ls = recompute_effective demo_denv (demo_state\<lparr>org_layers := ls\<rparr>)"

definition demo_pin :: "json \<Rightarrow> policy_set_params" where
  "demo_pin v = \<lparr>po_capability = ''security.firewall'', po_value = Some v,
     po_reason = '' lab device '', po_ticket = None\<rparr>"

lemma demo_pin_fields [simp]: "po_value (demo_pin v) = Some v" "po_capability (demo_pin v) = ''security.firewall''"
  by (simp_all add: demo_pin_def)

lemma demo_current_facts:
  "daemon_ok (demo_current ls)"
  "\<forall>q. effective_get (effective (demo_current ls)) q =
     map_option effective_of (daemon_cascade demo_denv (demo_current ls) q)"
  "org_layers (demo_current ls) = ls" "local_admin (demo_current ls) = []" "admin_policy (demo_current ls) = []"
proof -
  let ?s = "demo_state\<lparr>org_layers := ls\<rparr>"
  have ok: "daemon_ok ?s" using demo_daemon_ok by (simp add: daemon_ok_def store_ok_def)
  then show "daemon_ok (demo_current ls)" by (simp add: demo_current_def daemon_ok_def store_ok_def)
  have "daemon_cascade demo_denv (demo_current ls) = daemon_cascade demo_denv ?s"
    by (rule daemon_cascade_cong) (simp_all add: demo_current_def)
  then show "\<forall>q. effective_get (effective (demo_current ls)) q =
     map_option effective_of (daemon_cascade demo_denv (demo_current ls) q)"
    using recompute_effective_entry [OF ok, of demo_denv] by (simp add: demo_current_def)
qed (simp_all add: demo_current_def)

lemma demo_disk: "env_disk demo_denv t"
  by (simp add: demo_denv_def demo_store_env_def store_env.defs daemon_env.defs)

lemma settle_noop:
  assumes "cap_observe cap (ticks (recompute_effective E st)) =
      Some (ee_value (the (effective_get (effective (recompute_effective E st)) i)))"
  shows "\<exists>res x. fst (settle_layer_change E actor cap i req a extra st) = (Ok res, x)"
  using assms by (simp add: settle_layer_change_def Let_def observe_def [of cap] case_prod_beta)

lemma demo_pin_Ok:
  assumes "\<exists>e. effective_get (effective (demo_current ls)) ''security.firewall'' = Some e \<and> admin_may_override e"
    and "\<And>e. ae_value e = v \<Longrightarrow> \<exists>w. daemon_cascade demo_denv ((demo_current ls)\<lparr>admin_policy := [(''security.firewall'', e)]\<rparr>)
      ''security.firewall'' = Some w \<and> lv_value w = JStr ''disabled''"
  shows "\<exists>r st'. handle_policy_set demo_denv demo_root (demo_pin v) (demo_current ls) = (Ok r, st') \<and> admin_policy st' \<noteq> []"
proof -
  let ?i = "''security.firewall''" and ?c = "demo_current ls"
  let ?a = "actor_of demo_denv ?c demo_root"
  have a: "aa_agent_session_id ?a = None" using demo_not_agent by (simp add: agent_shaped_peer_def)
  have t: "str_trim '' lab device '' = ''lab device''" "chars_count ''lab device'' \<le> MAX_POLICY_REASON_CHARS"
    by code_simp+
  have h: "handle_policy_set demo_denv demo_root (demo_pin v) ?c = pin_policy demo_denv ?a demo_cap (demo_pin v) ?c"
    using a t assms(1)
    by (auto simp: handle_policy_set_def demo_pin_def lookup_def demo_registry Let_def local_admin_status_of_def
        demo_current_facts(4) resolve_local_admin_def reauthenticate_def demo_cap_def)
  let ?e = "\<lparr>ae_value = v, ae_set_at = utc_now_rfc3339 demo_denv ?c, ae_set_by = aa_user_id ?a, ae_reason = ''lab device''\<rparr>"
  let ?s = "snd (set_admin_policy demo_denv ?i (Some ?e) ?c)"
  let ?l = "settle_layer_change demo_denv ?a demo_cap ?i (Some v) ''policy.set'' [] ?s"
  have w: "fst (set_admin_policy demo_denv ?i (Some ?e) ?c)" by (simp add: set_admin_policy_def Let_def demo_disk)
  have "daemon_cascade demo_denv ?s = daemon_cascade demo_denv (?c\<lparr>admin_policy := [(?i, ?e)]\<rparr>)"
    by (rule daemon_cascade_cong) (simp_all add: demo_current_facts)
  with assms(2) [of ?e] obtain u where "daemon_cascade demo_denv ?s ?i = Some u" "lv_value u = JStr ''disabled''" by auto
  then have eff: "effective_get (effective (recompute_effective demo_denv ?s)) ?i = Some (effective_of u)"
    "ee_value (effective_of u) = JStr ''disabled''"
    using recompute_effective_entry [OF set_admin_daemon_ok [OF demo_current_facts(1)]] by (simp_all add: effective_of_def)
  have "\<exists>res x. fst ?l = (Ok res, x)" by (rule settle_noop) (simp add: eff demo_cap_def)
  then obtain res x where l: "fst ?l = (Ok res, x)" by blast
  have "effective_get (effective (snd ?l)) ?i = Some (effective_of u)" "admin_policy (snd ?l) \<noteq> []"
    using eff by (simp_all add: settle_keeps demo_current_facts)
  then show ?thesis
    unfolding h using w l t(1) by (simp add: pin_policy_def demo_pin_def Let_def case_prod_beta)
qed

lemmas demo_cascade_defs = daemon_cascade_def effective_cascade_def org_at_def candidates_at_def bt_get_def
  demo_current_def demo_denv_def demo_cap_def store_env.defs daemon_env.defs os_default_layer_def auto_layer_def
  admin_layer_def demo_org_layer_def

lemma demo_cascades:
  "daemon_cascade demo_denv (demo_current []) ''security.firewall'' = Some
     \<lparr>lv_value = JStr ''enabled'', lv_provenance = personal_os_default, lv_classification = AutoRemediate\<rparr>"
  "resolve (org_at (\<lambda>k. k \<le> 4) [demo_org_layer] ''security.firewall'') =
     Some \<lparr>r_value = snd demo_org_layer, r_source = provenance_policy_source (lv_provenance (snd demo_org_layer))\<rparr>"
  by (simp_all add: demo_cascade_defs resolve_def resolve_step_def)

lemma demo_pins:
  "\<exists>r st'. handle_policy_set demo_denv demo_root (demo_pin (JStr ''disabled'')) (demo_current []) = (Ok r, st') \<and>
     admin_policy st' \<noteq> []"
  "\<exists>r st'. handle_policy_set demo_denv demo_root (demo_pin (JStr ''enabled'')) (demo_current [demo_org_layer]) = (Ok r, st') \<and>
     admin_policy st' \<noteq> []"
proof -
  show "\<exists>r st'. handle_policy_set demo_denv demo_root (demo_pin (JStr ''disabled'')) (demo_current []) = (Ok r, st') \<and>
     admin_policy st' \<noteq> []"
    by (rule demo_pin_Ok)
       (simp add: demo_current_facts(2) demo_cascades effective_of_def admin_may_override_def personal_os_default_def
          DEVICE_ADMIN_RANK_def,
        simp add: demo_cascade_defs)
  have "daemon_cascade demo_denv ((demo_current [demo_org_layer])\<lparr>admin_policy := m\<rparr>) ''security.firewall'' =
      Some (snd demo_org_layer)" for m
    using demo_cascades(2) by (simp add: daemon_cascade_def effective_cascade_def demo_current_facts)
  note c = this this [of "admin_policy (demo_current [demo_org_layer])", simplified]
  show "\<exists>r st'. handle_policy_set demo_denv demo_root (demo_pin (JStr ''enabled'')) (demo_current [demo_org_layer]) =
      (Ok r, st') \<and> admin_policy st' \<noteq> []"
    by (rule demo_pin_Ok)
       (simp_all add: demo_current_facts(2) c, simp_all add: effective_of_def admin_may_override_def demo_org_layer_def)
qed

theorem device_policy_needs_a_person_witness:
  "las_allowed (local_admin_status_of (demo_current [])) \<and>
   admin_policy (snd (handle_policy_set demo_denv demo_root (demo_pin (JStr ''disabled'')) (demo_current []))) \<noteq> []"
proof -
  obtain r st' where h: "handle_policy_set demo_denv demo_root (demo_pin (JStr ''disabled'')) (demo_current []) = (Ok r, st')"
    "admin_policy st' \<noteq> []"
    using demo_pins(1) by blast
  then have c: "admin_policy st' \<noteq> admin_policy (demo_current [])" by (simp add: demo_current_facts)
  from device_policy_needs_a_person [OF h(1)] c show ?thesis by (simp add: h)
qed

theorem pinned_value_takes_effect_witness:
  "effective_value_of (snd (handle_policy_set demo_denv demo_root (demo_pin (JStr ''disabled'')) (demo_current [])))
     ''security.firewall'' = Some (JStr ''disabled'')"
proof -
  obtain r st' where h: "handle_policy_set demo_denv demo_root (demo_pin (JStr ''disabled'')) (demo_current []) = (Ok r, st')"
    using demo_pins(1) by blast
  have "\<forall>l \<in> set (org_layers (demo_current [])). pv_kind (lv_provenance (snd l)) \<noteq> DeviceSpecificOverride"
    by (simp add: demo_current_facts)
  from pinned_value_takes_effect [OF demo_current_facts(1,2) this h demo_pin_fields(1)] show ?thesis by (simp add: h)
qed

text \<open>
  C35. An organization's own device override looks editable and is not. When the value in force comes
  from an organization layer of the kind device override at rank 1 to 4, the override test says that
  the administrator may change it; yet a \<open>policy.set\<close> that succeeds leaves the organization's value
  in force, whatever was pinned.
\<close>

theorem organization_override_looks_editable:
  assumes "daemon_ok st" "\<forall>q. effective_get (effective st) q = map_option effective_of (daemon_cascade E st q)"
    and "resolve (org_at (\<lambda>k. k \<le> 4) (org_layers st) (po_capability ps)) = Some w"
    and "pv_kind (lv_provenance (r_value w)) = DeviceSpecificOverride"
    and "handle_policy_set E p ps st = (Ok r, st')" "po_value ps = Some v"
  shows "(\<exists>e. effective_get (effective st) (po_capability ps) = Some e \<and> admin_may_override e) \<and>
    pr_effective_value r = lv_value (r_value w)"
proof -
  let ?i = "po_capability ps"
  have "applied st' \<noteq> applied st \<or> admin_policy st' \<noteq> admin_policy st \<or> is_ok (Ok r :: (ipc_error, policy_set_result) result)"
    by (simp add: is_ok_def)
  with assms(5) show ?thesis
  proof (rule policy_set_pins)
    fix cap current st1
    assume cap: "registry_get E ?i = Some cap"
      and cur: "effective_get (effective st) ?i = Some current" "admin_may_override current"
      and re: "reauthenticate E p (actor_of E st p) ?i (po_ticket ps) st = (Ok (), st1)"
      and pin: "pin_policy E (actor_of E st p) cap ps st1 = (Ok r, st')"
    note same = reauthenticate_fields [of E p "actor_of E st p" ?i "po_ticket ps" st, unfolded re snd_conv]
    have ok: "daemon_ok st1" using reauthenticate_daemon_ok [of E p "actor_of E st p" ?i "po_ticket ps" st] re assms(1) by simp
    show ?thesis using ok cap pin assms(6)
    proof (rule pin_effective)
      fix e
      assume "effective_get (effective st') ?i = map_option effective_of
          (daemon_cascade E (st1\<lparr>admin_policy := bt_insert ?i e (admin_policy st1)\<rparr>) ?i)"
        "\<exists>w. effective_get (effective st') ?i = Some w \<and> pr_effective_value r = ee_value w \<and>
          pr_source r = source_ref (ee_provenance w)"
      then show ?thesis
        using cur assms(3) same(6) by (auto simp: daemon_cascade_def effective_cascade_def effective_of_def)
    qed
  qed
qed

theorem organization_override_looks_editable_witness:
  "pr_effective_value (projr (fst (handle_policy_set demo_denv demo_root (demo_pin (JStr ''enabled''))
     (demo_current [demo_org_layer])))) = JStr ''disabled''"
proof -
  obtain r st' where h: "handle_policy_set demo_denv demo_root (demo_pin (JStr ''enabled''))
      (demo_current [demo_org_layer]) = (Ok r, st')"
    using demo_pins(2) by blast
  have "resolve (org_at (\<lambda>k. k \<le> 4) (org_layers (demo_current [demo_org_layer])) (po_capability (demo_pin (JStr ''enabled'')))) =
      Some \<lparr>r_value = snd demo_org_layer, r_source = provenance_policy_source (lv_provenance (snd demo_org_layer))\<rparr>"
    by (simp add: demo_current_facts demo_cascades(2))
  moreover have "pv_kind (lv_provenance (snd demo_org_layer)) = DeviceSpecificOverride"
    "lv_value (snd demo_org_layer) = JStr ''disabled''" by (simp_all add: demo_org_layer_def)
  ultimately show ?thesis
    using organization_override_looks_editable [OF demo_current_facts(1,2) _ _ h demo_pin_fields(1)] by (simp add: h)
qed

end
