(* ===== verification/Gate_Machine.thy ===== *)
theory Gate_Machine
  imports Reconcile Device_Policy
begin

text \<open>
  The approval gate as a state machine: one step per request of \<open>Inner::dispatch\<close> that touches
  approvals, grants, capabilities or device policy, and the states a daemon reaches by serving any
  sequence of them from any mix of peers. The invariants hold of every reachable state, and what a person
  decided is not rewritten along a run unless its identifier is drawn again.
\<close>

section \<open>Requests and runs\<close>

datatype request =
    CapabilitiesSet peer capabilities_set_params
  | ApprovalsList
  | ApprovalsGet string
  | ApprovalsCreate peer approvals_create_params
  | ApprovalsResolve peer string resolve_decision
  | ApprovalsConsume peer string
  | PrivilegeRequested peer privilege_request_params
  | PrivilegeStatus peer
  | PrivilegeRevoke peer privilege_revoke_params
  | ReconcileNow peer
  | PolicySet peer policy_set_params

fun dispatch :: "daemon_env \<Rightarrow> request \<Rightarrow> daemon \<Rightarrow> daemon" where
  "dispatch E (CapabilitiesSet p ps) st = snd (handle_capabilities_set E p ps st)"
| "dispatch E ApprovalsList st = snd (handle_approvals_list E st)"
| "dispatch E (ApprovalsGet i) st = snd (handle_approvals_get E i st)"
| "dispatch E (ApprovalsCreate p ps) st = snd (handle_approvals_create E p ps st)"
| "dispatch E (ApprovalsResolve p i d) st = snd (handle_approvals_resolve E p i d st)"
| "dispatch E (ApprovalsConsume p i) st = snd (handle_approvals_consume E p i st)"
| "dispatch E (PrivilegeRequested p ps) st = snd (handle_privilege_request E p ps st)"
| "dispatch E (PrivilegeStatus p) st = snd (handle_privilege_status E p st)"
| "dispatch E (PrivilegeRevoke p ps) st = snd (handle_privilege_revoke E p ps st)"
| "dispatch E (ReconcileNow p) st = snd (handle_reconcile E p st)"
| "dispatch E (PolicySet p ps) st = snd (handle_policy_set E p ps st)"

inductive run :: "daemon_env \<Rightarrow> daemon \<Rightarrow> daemon \<Rightarrow> bool" for E where
  run_refl: "run E st st"
| run_step: "run E st st' \<Longrightarrow> run E st (dispatch E req st')"

lemma run_trans: "run E b c \<Longrightarrow> run E a b \<Longrightarrow> run E a c"
  by (induction rule: run.induct) (auto intro: run.intros)

section \<open>Time only moves forward\<close>

definition later :: "'s os_state_scheme \<Rightarrow> 's os_state_scheme \<Rightarrow> bool" where
  "later st st' \<longleftrightarrow> ticks st \<le> ticks st'"

interpretation ltr: state_order later
  by unfold_locales (auto simp: later_def)

named_theorems later_intros \<open>operations that do not turn the clock back\<close>

lemma later_refl [later_intros]: "later st st"
  by (rule ltr.le_refl)

lemma later_tick [later_intros]: "later st (tick st)"
  by (simp add: later_def)

lemma later_tick_of: "later st st' \<Longrightarrow> later st (tick st')"
  by (rule ltr.le_trans [OF _ later_tick])

lemma later_log_audit [later_intros]: "later st (log_audit E e st)"
  by (simp add: later_def ticks_log_audit)

lemma later_evict: "later st (snd (evict_loop E n st))"
proof (induction n arbitrary: st)
  case (Suc n)
  show ?case
  proof (rule evict_loop_cases [of E n st])
    fix v files
    assume "evict_loop E (Suc n) st =
      evict_loop E n (tick (st\<lparr>rec_files := files, records := bt_remove (env_id v) (records st)\<rparr>))"
    then show ?thesis using Suc [of "tick (st\<lparr>rec_files := files, records := bt_remove (env_id v) (records st)\<rparr>)"]
      by (simp add: later_def)
  qed (simp_all add: later_def)
qed (simp add: later_def)

lemma later_write_index [later_intros]: "later st (snd (write_index E st))"
  by (simp add: write_index_def later_def)

lemma later_put [later_intros]: "later st (snd (put E env st))"
proof -
  have "ticks (tick (st\<lparr>rec_files := f, records := r\<rparr>)) \<le> ticks (snd (evict_if_needed E (tick (st\<lparr>rec_files := f, records := r\<rparr>))))"
    for f r using later_evict [of "tick (st\<lparr>rec_files := f, records := r\<rparr>)"] by (simp add: evict_if_needed_def later_def)
  then have e: "later st (snd (evict_if_needed E (tick (st\<lparr>rec_files := f, records := r\<rparr>))))" for f r
    by (simp add: later_def) (metis Suc_leD)
  then have w: "later st (snd (write_index E (snd (evict_if_needed E (tick (st\<lparr>rec_files := f, records := r\<rparr>))))))" for f r
    using ltr.le_trans later_write_index by blast
  show ?thesis
    using e w by (auto simp: put_def write_atomic_synced_def Let_def later_tick later_refl case_prod_beta
        split: sum.splits bool.splits)
qed

text \<open>A put that changed the records moved the clock.\<close>

lemma put_ticks:
  assumes "records (snd (put E env st)) \<noteq> records st"
  shows "ticks st < ticks (snd (put E env st))"
proof -
  let ?s = "tick (st\<lparr>rec_files := bt_insert (json_name (env_id env)) (ser_envelope E env) (rec_files st),
      records := bt_insert (env_id env) env (records st)\<rparr>)"
  have "snd (put E env st) \<in> {snd (evict_if_needed E ?s), snd (write_index E (snd (evict_if_needed E ?s)))}"
    using assms by (auto simp: put_def write_atomic_synced_def Let_def case_prod_beta
        split: sum.splits bool.splits if_splits)
  then have "ticks ?s \<le> ticks (snd (put E env st))"
    using later_evict [of ?s E "length (records ?s)"] later_write_index [of "snd (evict_if_needed E ?s)" E]
    by (auto simp: later_def evict_if_needed_def)
  then show ?thesis by simp
qed

section \<open>Steps that leave the questions alone\<close>

definition quiet :: "daemon \<Rightarrow> daemon \<Rightarrow> bool" where
  "quiet st st' \<longleftrightarrow> records st' = records st \<and> ticks st \<le> ticks st' \<and> (daemon_ok st \<longrightarrow> daemon_ok st')"

interpretation qt: state_order quiet
  by unfold_locales (auto simp: quiet_def)

lemma quiet_audit: "audit_frame st st' \<Longrightarrow> ticks st \<le> ticks st' \<Longrightarrow> quiet st st'"
  by (simp add: quiet_def daemon_ok_def audit_frame_fields audit_frame_store_ok)

lemma quiet_log_audit: "quiet st (log_audit E e st)"
  by (rule quiet_audit [OF log_audit_frame ticks_log_audit])

lemma quiet_events:
  "quiet st (snd (m9_event E actor a r dec res ps st))" "quiet st (snd (m3_event E d actor a r dec res st))"
  by (rule quiet_audit [OF m9_event_frame], simp add: m9_event_def next_event_id_def)
     (rule quiet_audit [OF m3_event_frame], simp add: m3_event_def next_event_id_def)

lemma quiet_logs:
  "quiet st (log_m9 E actor a r dec res ps st)" "quiet st (log_denial E actor a r qs st)"
  "quiet st (snd (log_audit_id E ev st))" "quiet st (snd (log_settled E actor a r ps outcome st))"
  unfolding log_m9_def log_denial_def event_denial_def log_settled_def event_action_def log_audit_id_def
    case_prod_beta Let_def snd_conv
  by (rule qt.le_trans [OF quiet_events(1) quiet_log_audit] qt.le_trans [OF quiet_events(2) quiet_log_audit]
      quiet_log_audit)+

lemma quiet_backend:
  "quiet st (snd (observe cap st))" "quiet st (snd (verify cap v st))" "quiet st (snd (describe cap st))"
  by (rule quiet_audit [OF observe_frame(1)], simp add: observe_def)
     (rule quiet_audit [OF observe_frame(2)], simp add: verify_def,
      rule quiet_audit [OF observe_frame(3)], simp add: describe_def observe_def Let_def)

lemma quiet_fields:
  "records st' = records st \<Longrightarrow> ticks st \<le> ticks st' \<Longrightarrow> store_ok st' = store_ok st \<Longrightarrow>
   (bt_ok (preferences st) \<Longrightarrow> bt_ok (preferences st')) \<Longrightarrow> admin_policy st' = admin_policy st \<Longrightarrow>
   (daemon_ok st \<Longrightarrow> bt_ok (states (tracker st')) \<and> bt_ok (fail_counts (tracker st'))) \<Longrightarrow> quiet st st'"
  by (auto simp: quiet_def daemon_ok_def)

lemma quiet_settled:
  "quiet st (recompute_effective E st)" "quiet st (snd (apply_state cap v st))" "quiet st (mark_settled i st)"
  "quiet st (snd (set_preference E i e st))"
  by (rule quiet_fields; simp add: daemon_ok_def store_ok_def recompute_effective_def apply_state_def mark_settled_def
      set_preference_def Let_def tick_def bt_ok_insert bt_ok_remove)+

lemma quiet_publish: "quiet st (publish_approvals_summary E st)"
  by (rule quiet_fields)
     (simp_all add: policy_same_fields [OF publish_policy] daemon_ok_def, simp_all add:
      publish_approvals_summary_def publish_summary_def Let_def tick_def)

text \<open>Executing an answer, and everything done to grants.\<close>

lemma quiet_settle: "quiet st (snd (settle_layer_change E actor cap i requested action extra st))"
proof -
  note t = qt.le_trans and l = quiet_logs(4) and b = quiet_backend
  let ?st = "recompute_effective E st"
  let ?v = "ee_value (the (effective_get (effective ?st) i))"
  let ?o = "snd (observe cap ?st)"
  let ?a = "snd (apply_state cap ?v ?o)"
  have o: "quiet st ?o" by (rule t [OF quiet_settled(1) b(1)])
  have a: "quiet st ?a" by (rule t [OF o quiet_settled(2)])
  have fin: "quiet st s \<Longrightarrow> quiet st (snd (describe cap (mark_settled i s)))" for s
    by (rule t [OF t [OF _ quiet_settled(3)] b(3)])
  show ?thesis
    unfolding settle_layer_change_def Let_def case_prod_beta
    by (auto simp: fin t [OF o l] t [OF a l] t [OF t [OF a b(2)] l] t [OF t [OF t [OF a b(2)] b(1)] l]
        split: option.splits bool.splits)
qed

lemma quiet_execute_set: "quiet st (snd (execute_capability_set E actor cap ps extra st))"
  unfolding execute_capability_set_def case_prod_beta
  by (auto intro: quiet_settled(4) qt.le_trans [OF quiet_settled(4) quiet_settle] split: bool.splits)

lemma quiet_put_grant: "quiet st (snd (put_grant E g st))"
  using put_grant_store_ok [of st E g] policy_same_fields [OF grant_frame_policy [OF put_grant_frame [of st E g]]]
  by (simp add: quiet_def daemon_ok_def)
     (simp add: put_grant_def tick_def split: prod.splits bool.splits)

lemma quiet_drop_grant: "quiet st (snd (drop_grant E i st))"
  using drop_grant_store_ok [of st E i] policy_same_fields [OF grant_frame_policy [OF drop_grant_frame [of st E i]]]
    grant_frame_fields(1) [OF drop_grant_frame [of st E i]]
  by (simp add: quiet_def daemon_ok_def)
     (simp add: drop_grant_def tick_def Let_def split: option.splits prod.splits bool.splits)

lemma quiet_answer: "quiet st (snd (answer E p d env st))"
proof -
  have "quiet st (snd (execute_approved_privilege E env' st))" for env'
    using qt.le_trans [OF quiet_put_grant qt.le_trans [OF quiet_events(1) quiet_logs(3)]]
    by (auto simp: execute_approved_privilege_def Let_def case_prod_beta qt.le_refl
        intro: quiet_put_grant split: option.splits sum.splits)
  moreover have "quiet st (snd (execute_approved_capability E env' st))" for env'
    by (auto simp: execute_approved_capability_def case_prod_beta qt.le_refl quiet_execute_set
        split: option.splits)
  ultimately show ?thesis
    by (auto simp: answer_def execute_approved_def Let_def case_prod_beta qt.le_refl
        split: resolve_decision.splits approval_kind.splits)
qed

lemma quiet_sweep_grants: "quiet st (snd (sweep_grants E now st))"
proof -
  have "quiet (snd acc) (snd (sweep_grant_step E i acc))" for i acc
    using quiet_drop_grant [of "snd acc" E i]
    by (auto simp: sweep_grant_step_def split: prod.splits sum.splits option.splits)
  from qt.fold_le [OF this, where acc = "([], st)"] show ?thesis unfolding sweep_grants_def by simp
qed

lemma quiet_revoke: "quiet st (snd (revoke_loop E actor ids revoked st))"
proof (induction ids arbitrary: revoked st)
  case (Cons i ids)
  show ?case
    using quiet_drop_grant [of st E i] qt.le_trans [OF _ Cons.IH]
      qt.le_trans [OF _ qt.le_trans [OF quiet_logs(1) Cons.IH]]
    by (auto split: prod.splits sum.splits option.splits)
qed (simp add: qt.le_refl)

lemma quiet_pass: "pass_frame st st' \<Longrightarrow> quiet st st'"
  by (simp add: quiet_def pass_frame_def)

lemma quiet_reauthenticate: "quiet st (snd (reauthenticate E p actor i t st))"
proof -
  have "quiet st (snd (reauth_consume E uid tok now st))" for uid tok now
    by (simp add: quiet_def daemon_ok_def)
  from this qt.le_trans [OF this quiet_logs(2)] show ?thesis
    by (auto simp: reauthenticate_def case_prod_beta qt.le_refl quiet_logs(2) split: option.splits sum.splits)
qed

lemma quiet_pin: "quiet st (snd (pin_policy E actor cap ps st))"
proof -
  have "quiet st (snd (set_admin_policy E i e st))" for i e
    using set_admin_daemon_ok [of st E i e]
    by (simp add: quiet_def) (simp add: set_admin_policy_def Let_def tick_def)
  from this qt.le_trans [OF this quiet_settle] show ?thesis
    by (auto simp: pin_policy_def Let_def case_prod_beta split: bool.splits sum.splits option.splits)
qed

lemma quiet_policy_set: "quiet st (snd (handle_policy_set E p ps st))"
  using qt.le_trans [OF quiet_reauthenticate quiet_pin] quiet_reauthenticate
  by (auto simp: handle_policy_set_def Let_def case_prod_beta qt.le_refl quiet_logs(2)
      split: sum.splits option.splits)

section \<open>The store operations behind a request\<close>

text \<open>
  What may happen to a question: it lapses, it is answered (a denial executes nothing), or its
  approved credential is spent.
\<close>

inductive env_step :: "approval_envelope \<Rightarrow> approval_envelope \<Rightarrow> bool" where
  lapse: "env_status e = Pending \<Longrightarrow> env_step e (set_status Expired e)"
| answered: "env_status e = Pending \<Longrightarrow> (d = RdDenied \<Longrightarrow> x = e_execution e) \<Longrightarrow>
    env_step e ((set_status (rd_status d) e)\<lparr>e_resolved_at := Some t, e_resolved_by := Some b, e_execution := x\<rparr>)"
| spent: "env_status e = Approved \<Longrightarrow> e_kind e = CredentialRequest \<Longrightarrow> e_consumed_at e = None \<Longrightarrow>
    env_step e (e\<lparr>e_consumed_at := Some t\<rparr>)"

text \<open>A request is a sequence of quiet steps and of writes of one question.\<close>

inductive micro :: "daemon_env \<Rightarrow> daemon \<Rightarrow> daemon \<Rightarrow> bool" for E where
  quietly: "quiet st st' \<Longrightarrow> micro E st st'"
| rewrite: "bt_get (records st) (env_id e) = Some e \<Longrightarrow> env_step e e' \<Longrightarrow> micro E st (snd (put E e' st))"
| raised: "random_hex E 4 st = Some h \<Longrightarrow>
    micro E st (snd (put E (envelope_of E st spec (APPROVAL_ID_PREFIX @ h)) st))"

abbreviation micros :: "daemon_env \<Rightarrow> daemon \<Rightarrow> daemon \<Rightarrow> bool" where
  "micros E \<equiv> (micro E)\<^sup>*\<^sup>*"

lemma put_daemon_ok: "daemon_ok st \<Longrightarrow> daemon_ok (snd (put E env st))"
  by (simp add: daemon_ok_def put_store_ok policy_same_fields [OF put_policy])

lemma micro_ok: "micro E st st' \<Longrightarrow> daemon_ok st \<Longrightarrow> daemon_ok st'"
  by (induction rule: micro.induct) (simp_all add: put_daemon_ok quiet_def)

lemma micros_ok: "micros E st st' \<Longrightarrow> daemon_ok st \<Longrightarrow> daemon_ok st'"
  by (induction rule: rtranclp_induct) (simp_all add: micro_ok)

lemma micros_quiet: "quiet st st' \<Longrightarrow> micros E st st'"
  by (blast intro: micro.quietly)

lemma micros_then_quiet: "micros E st st1 \<Longrightarrow> quiet st1 st2 \<Longrightarrow> micros E st st2"
  by (meson micro.quietly rtranclp.rtrancl_into_rtrancl)

lemma micros_sweep_fold:
  assumes "daemon_ok st" "distinct ids"
    and "\<forall>i \<in> set ids. \<exists>e. bt_get (records st) i = Some e \<and> env_status e = Pending"
  shows "micros E st (snd (fold (sweep_step E) ids (ex, st)))"
  using assms
proof (induction ids arbitrary: ex st)
  case (Cons i ids)
  have ok: "store_ok st" using Cons.prems(1) by (simp add: daemon_ok_def)
  obtain e where e: "bt_get (records st) i = Some e" "env_status e = Pending" using Cons.prems(3) by auto
  let ?s = "snd (put E (set_status Expired e) st)"
  have i: "env_id e = i" by (rule store_ok_id [OF ok e(1)])
  have "\<exists>f. bt_get (records ?s) j = Some f \<and> env_status f = Pending" if j: "j \<in> set ids" for j
  proof -
    obtain f where f: "bt_get (records st) j = Some f" "env_status f = Pending"
      using j Cons.prems(3) by auto
    have "env_id (set_status Expired e) \<noteq> j" using j Cons.prems(2) i by auto
    from put_keeps_pending [OF ok f this] f show ?thesis by blast
  qed
  with Cons.IH [OF put_daemon_ok [OF Cons.prems(1)], of E "set_status Expired e"] Cons.prems(2)
  have "micros E ?s (snd (fold (sweep_step E) (i # ids) (ex, st)))"
    by (simp add: sweep_step_simp [OF e(1)])
  moreover have "micro E st ?s"
    using e i by (intro micro.rewrite [of _ e] env_step.lapse) simp_all
  ultimately show ?case by (meson converse_rtranclp_into_rtranclp)
qed simp

lemma micros_sweep:
  assumes "daemon_ok st"
  shows "micros E st (sweep_approvals E st)"
proof -
  have ok: "store_ok st" using assms by (simp add: daemon_ok_def)
  let ?now = "now_secs E st"
  let ?w = "sweep E ?now st"
  have w: "micros E st (snd ?w)"
    unfolding sweep_def
    using micros_sweep_fold [OF assms lapsed_ids_props(1) [OF ok], of ?now E "[]"] lapsed_ids_props(2) [OF ok, of _ ?now]
    by blast
  have f: "quiet s (fold (log_expired_approval E) xs s)" "quiet s (fold (log_expired_grant E) ys s)" for s xs ys
    by (rule qt.fold_le_state, simp add: log_expired_approval_def log_expired_grant_def quiet_logs)+
  let ?a = "fold (log_expired_approval E) (fst ?w) (snd ?w)"
  let ?g = "sweep_grants E ?now ?a"
  let ?z = "fold (log_expired_grant E) (fst ?g) (snd ?g)"
  have "micros E st ?z"
    by (rule micros_then_quiet [OF w qt.le_trans [OF f(1) qt.le_trans [OF quiet_sweep_grants f(2)]]])
  moreover have "sweep_approvals E st = ?z \<or> sweep_approvals E st = publish_approvals_summary E ?z"
    by (simp add: sweep_approvals_def Let_def case_prod_beta)
  ultimately show ?thesis using micros_then_quiet [OF _ quiet_publish] by metis
qed

text \<open>Each request runs as such a sequence.\<close>

lemma micros_create:
  assumes "daemon_ok st"
  shows "micros E st (snd (create_approval E actor spec st))"
proof -
  have "micros E st (snd (put E (envelope_of E st spec (APPROVAL_ID_PREFIX @ h)) st))"
    if "random_hex E 4 st = Some h" for h using that by (blast intro: micro.raised)
  note r = this micros_then_quiet [OF this qt.le_trans [OF quiet_logs(1) quiet_publish]]
  show ?thesis
    by (auto simp: create_approval_def Let_def case_prod_beta r micros_quiet [OF quiet_logs(1)]
        split: sum.splits option.splits)
qed

lemma micros_swept:
  assumes "daemon_ok st" "micros E (sweep_approvals E st) st'"
  shows "micros E st st'"
  using micros_sweep [OF assms(1)] assms(2) by (rule rtranclp_trans)

lemma micros_raise:
  assumes "daemon_ok st"
  shows "micros E st (snd (create_approval E actor spec (sweep_approvals E st)))"
  by (rule micros_swept [OF assms micros_create [OF micros_ok [OF micros_sweep [OF assms] assms]]])

lemma micros_authorize:
  assumes "daemon_ok st"
  shows "micros E st (snd (authorize_capability_set E p actor i v st))"
proof -
  note s = micros_sweep [OF assms] micros_then_quiet [OF micros_sweep [OF assms] quiet_logs(2)]
  note c = micros_raise [OF assms] micros_then_quiet [OF micros_raise [OF assms] quiet_logs(1)]
  have "micros E st (snd (authorize_agent_capability_set E actor session i v st))" for session
    by (auto simp: authorize_agent_capability_set_def case_prod_beta c micros_quiet [OF quiet_logs(2)]
        split: option.splits decision.splits sum.splits)
  then show ?thesis
    by (auto simp: authorize_capability_set_def Let_def s split: option.splits)
qed

lemma micros_resolve:
  assumes "daemon_ok st"
  shows "micros E st (snd (handle_approvals_resolve E p i d st))"
proof -
  let ?s = "sweep_approvals E st"
  have sw: "micros E st ?s" by (rule micros_sweep [OF assms])
  have ok: "daemon_ok ?s" by (rule micros_ok [OF sw assms])
  have again: "micros E st (sweep_approvals E ?s)" by (rule micros_swept [OF assms micros_sweep [OF ok]])
  have put: "micros E st (snd (put E (fst (answer E p d env ?s)) (snd (answer E p d env ?s))))"
    if "bt_get (records ?s) i = Some env" "env_status env = Pending" for env
  proof -
    let ?a = "answer E p d env ?s"
    have "env_step env (fst ?a)"
      unfolding fst_answer resolved_envelope_def
      by (rule env_step.answered [OF that(2)]) simp
    moreover have "bt_get (records (snd ?a)) (env_id env) = Some env"
      using that(1) store_ok_id [of ?s i env] ok by (simp add: answer_keeps daemon_ok_def)
    ultimately show ?thesis
      using micros_then_quiet [OF sw quiet_answer] micro.rewrite by (meson rtranclp.rtrancl_into_rtrancl)
  qed
  show ?thesis
  proof (cases "bt_get (records ?s) i")
    case None
    then show ?thesis
      by (simp add: handle_approvals_resolve_def store_get_def Let_def sw micros_quiet [OF quiet_logs(1)])
  next
    case (Some env)
    then show ?thesis
      using put [OF Some] micros_then_quiet [OF put [OF Some] qt.le_trans [OF quiet_logs(1) quiet_publish]]
      by (cases "env_status env")
         (auto simp: handle_approvals_resolve_def store_get_def Let_def sw again is_terminal_def case_prod_beta
          micros_quiet [OF quiet_logs(1)] micros_then_quiet [OF sw quiet_logs(1)] split: sum.splits)
  qed
qed

lemma micros_consume:
  assumes "daemon_ok st"
  shows "micros E st (snd (handle_approvals_consume E p i st))"
proof -
  let ?s = "sweep_approvals E st"
  have sw: "micros E st ?s" by (rule micros_sweep [OF assms])
  have ok: "store_ok ?s" using micros_ok [OF sw assms] by (simp add: daemon_ok_def)
  have put: "micros E st (snd (put E (env\<lparr>e_consumed_at := Some t\<rparr>) ?s))"
    if "bt_get (records ?s) i = Some env" "env_status env = Approved" "e_kind env = CredentialRequest"
      "e_consumed_at env = None" for env t
    using micro.rewrite [OF _ env_step.spent [OF that(2-4)], of ?s E t] that(1) store_ok_id [OF ok that(1)] sw
    by (simp add: rtranclp.rtrancl_into_rtrancl)
  show ?thesis
  proof (cases "bt_get (records ?s) i")
    case None
    then show ?thesis
      by (simp add: handle_approvals_consume_def store_get_def Let_def sw micros_quiet [OF quiet_logs(2)])
  next
    case (Some env)
    then show ?thesis
      using put [OF Some] micros_then_quiet [OF put [OF Some] qt.le_trans [OF quiet_logs(1) quiet_publish]]
      by (auto simp: handle_approvals_consume_def store_get_def Let_def sw case_prod_beta
          micros_quiet [OF quiet_logs(2)] split: sum.splits option.splits)
  qed
qed

lemma dispatch_micros:
  assumes "daemon_ok st"
  shows "micros E st (dispatch E req st)"
proof -
  note sw = micros_sweep [OF assms] and cr = micros_raise [OF assms]
  have set: "micros E st (snd (handle_capabilities_set E p ps st))" for p ps
    using micros_then_quiet [OF micros_authorize [OF assms] quiet_execute_set] micros_authorize [OF assms]
    by (auto simp: handle_capabilities_set_def Let_def case_prod_beta split: sum.splits)
  have create: "micros E st (snd (handle_approvals_create E p ps st))" for p ps
    by (auto simp: handle_approvals_create_def Let_def cr micros_quiet [OF quiet_logs(1)]
        micros_quiet [OF quiet_logs(2)])
  have request: "micros E st (snd (handle_privilege_request E p ps st))" for p ps
    by (auto simp: handle_privilege_request_def Let_def case_prod_beta cr micros_quiet [OF quiet_logs(1)]
        micros_then_quiet [OF cr quiet_logs(1)] split: sum.splits)
  have revoke: "micros E st (snd (handle_privilege_revoke E p ps st))" for p ps
    using micros_then_quiet [OF sw quiet_revoke] micros_then_quiet [OF sw quiet_logs(2)]
      micros_then_quiet [OF sw qt.le_trans [OF quiet_revoke quiet_publish]]
    by (auto simp: handle_privilege_revoke_def Let_def case_prod_beta sw simp del: revoke_loop.simps
        split: sum.splits option.splits)
  have reconcile: "micros E st (snd (handle_reconcile E p st))" for p
  proof (rule reconcile_pass [OF assms, of E "actor_of E st p"])
    fix s :: daemon
    let ?r = "reconcile_and_remediate E (actor_of E st p) st"
    assume "s = sweep_approvals E st" "pass_frame s (snd ?r)"
    then have "micros E st (snd ?r)" using micros_then_quiet [OF sw quiet_pass] by simp
    moreover have "quiet (snd ?r) ((snd ?r)\<lparr>last_reconcile := x\<rparr>)" for x
      by (simp add: quiet_def daemon_ok_def store_ok_def)
    ultimately show ?thesis
      by (auto simp: handle_reconcile_def Let_def case_prod_beta micros_quiet [OF quiet_logs(2)]
          intro: micros_then_quiet)
  qed
  show ?thesis
    by (cases req)
       (simp_all add: reconcile micros_quiet [OF quiet_policy_set] set create request revoke micros_resolve [OF assms] micros_consume [OF assms] sw
        handle_approvals_list_def handle_approvals_get_def handle_privilege_status_def Let_def)
qed

lemma run_micros:
  assumes "run E st st'" "daemon_ok st"
  shows "micros E st st'"
  using assms
proof induction
  case (run_step st st' req)
  then have "micros E st st'" by blast
  with micros_ok [OF this run_step.prems] show ?case
    by (meson dispatch_micros rtranclp_trans)
qed simp

section \<open>Records stay consistent\<close>

text \<open>Who answered, what ran and what was spent are recorded in exactly the states that have them.\<close>

definition envelope_ok :: "approval_envelope \<Rightarrow> bool" where
  "envelope_ok e \<longleftrightarrow>
     (env_status e \<in> {Pending, Expired} \<longrightarrow> e_resolved_at e = None \<and> e_resolved_by e = None) \<and>
     (env_status e \<in> {Approved, Denied} \<longrightarrow> e_resolved_at e \<noteq> None \<and> e_resolved_by e \<noteq> None) \<and>
     (e_execution e \<noteq> None \<longrightarrow> env_status e = Approved) \<and>
     (e_consumed_at e \<noteq> None \<longrightarrow> env_status e = Approved \<and> e_kind e = CredentialRequest)"

definition gate_ok :: "daemon \<Rightarrow> bool" where
  "gate_ok st \<longleftrightarrow> daemon_ok st \<and> (\<forall>k e. bt_get (records st) k = Some e \<longrightarrow> envelope_ok e)"

lemma set_status_fields [simp]:
  "e_resolved_at (set_status s e) = e_resolved_at e" "e_resolved_by (set_status s e) = e_resolved_by e"
  "e_execution (set_status s e) = e_execution e" "e_consumed_at (set_status s e) = e_consumed_at e"
  "e_kind (set_status s e) = e_kind e"
  by (simp_all add: set_status_def)

lemma envelope_fields [simp]:
  "env_status (e\<lparr>e_resolved_at := a\<rparr>) = env_status e" "env_status (e\<lparr>e_resolved_by := b\<rparr>) = env_status e"
  "env_id (e\<lparr>e_resolved_at := a\<rparr>) = env_id e" "env_id (e\<lparr>e_resolved_by := b\<rparr>) = env_id e"
  by (simp_all add: env_status_def env_id_def)

lemma env_step_keeps: "env_step e e' \<Longrightarrow> envelope_ok e \<Longrightarrow> envelope_ok e' \<and> env_id e' = env_id e \<and>
    is_terminal (env_status e')"
proof (induction rule: env_step.induct)
  case (answered e d x b t)
  then show ?case by (cases d) (auto simp: envelope_ok_def is_terminal_def)
qed (auto simp: envelope_ok_def is_terminal_def)

lemma raised_ok: "envelope_ok (envelope_of E st spec i)"
  by (simp add: envelope_ok_def) (simp add: envelope_of_def)

lemma put_gate_ok:
  assumes "gate_ok st" "envelope_ok env"
  shows "gate_ok (snd (put E env st))"
proof -
  have ok: "store_ok st" using assms(1) by (simp add: gate_ok_def daemon_ok_def)
  have "envelope_ok e" if "bt_get (records (snd (put E env st))) k = Some e" for k e
    using put_by_key [OF ok refl, of E env] that assms unfolding gate_ok_def
    by (cases "k = env_id env") (metis option.distinct(1) option.inject)+
  then show ?thesis using assms(1) by (simp add: gate_ok_def put_daemon_ok)
qed

lemma micro_gate_ok: "micro E st st' \<Longrightarrow> gate_ok st \<Longrightarrow> gate_ok st'"
proof (induction rule: micro.induct)
  case (rewrite st e e')
  then have "envelope_ok e'" using env_step_keeps [of e e'] by (simp add: gate_ok_def)
  with rewrite.prems show ?case by (rule put_gate_ok)
qed (simp_all add: put_gate_ok raised_ok, simp add: gate_ok_def quiet_def)

lemma micros_gate_ok: "micros E st st' \<Longrightarrow> gate_ok st \<Longrightarrow> gate_ok st'"
  by (induction rule: rtranclp_induct) (simp_all add: micro_gate_ok)

section \<open>The lifecycle of a question\<close>

text \<open>
  The contract of the gate, without times, files or requests, as a system of events: a question is
  raised, then lapses or is answered once, an approved credential may be spent once, and only closed
  questions are forgotten. Raising is an event of its own that starts its identifier anew, since
  nothing looks whether the identifier is in use.
\<close>

type_synonym answer_record = "string option \<times> resolved_by option \<times> execution option"

datatype phase = Open | Lapsed | Decided resolve_decision answer_record | Spent answer_record string

type_synonym life = "string \<rightharpoonup> approval_envelope \<times> phase"

datatype life_event = Raises string | Lapses string | Answers string resolve_decision | Spends string | Forgets

inductive lifecycle :: "life_event \<Rightarrow> life \<Rightarrow> life \<Rightarrow> bool" where
  Raise: "lifecycle (Raises k) L (L(k \<mapsto> (q, Open)))"
| Lapse: "L k = Some (q, Open) \<Longrightarrow> lifecycle (Lapses k) L (L(k \<mapsto> (q, Lapsed)))"
| Answer: "L k = Some (q, Open) \<Longrightarrow> (d = RdDenied \<Longrightarrow> x = None) \<Longrightarrow>
    lifecycle (Answers k d) L (L(k \<mapsto> (q, Decided d (Some t, Some b, x))))"
| Spend: "L k = Some (q, Decided RdApproved a) \<Longrightarrow> e_kind q = CredentialRequest \<Longrightarrow>
    lifecycle (Spends k) L (L(k \<mapsto> (q, Spent a t)))"
| Forget: "(\<And>k. L' k = L k \<or> L' k = None \<and> (\<exists>q ph. L k = Some (q, ph) \<and> ph \<noteq> Open)) \<Longrightarrow>
    lifecycle Forgets L L'"

inductive lifecycles :: "life_event list \<Rightarrow> life \<Rightarrow> life \<Rightarrow> bool" where
  life_nil: "lifecycles [] L L"
| life_snoc: "lifecycles evs L L' \<Longrightarrow> lifecycle ev L' L'' \<Longrightarrow> lifecycles (evs @ [ev]) L L''"

lemma lifecycles_append: "lifecycles vs L' L'' \<Longrightarrow> lifecycles evs L L' \<Longrightarrow> lifecycles (evs @ vs) L L''"
  by (induction rule: lifecycles.induct) (auto simp flip: append_assoc intro: lifecycles.intros)

lemma lifecycles_single: "lifecycle ev L L' \<Longrightarrow> lifecycles [ev] L L'"
  using life_snoc [OF life_nil, of ev L L'] by simp

text \<open>How far a question may move, and that nothing but a new question under its name moves it back.\<close>

fun phase_le :: "phase \<Rightarrow> phase \<Rightarrow> bool" where
  "phase_le Open ph = True"
| "phase_le (Decided RdApproved a) (Spent b t) = (b = a)"
| "phase_le ph ph' = (ph' = ph)"

lemma phase_le_refl [simp]: "phase_le ph ph"
  by (cases ph rule: phase.exhaust; simp; metis phase_le.simps resolve_decision.exhaust)

lemma phase_le_trans: "phase_le a b \<Longrightarrow> phase_le b c \<Longrightarrow> phase_le a c"
  by (induction a b rule: phase_le.induct) (auto elim: phase_le.elims)

definition life_le :: "(approval_envelope \<times> phase) option \<Rightarrow> (approval_envelope \<times> phase) option \<Rightarrow> bool" where
  "life_le x y \<longleftrightarrow> y = None \<or> (\<exists>q ph ph'. x = Some (q, ph) \<and> y = Some (q, ph') \<and> phase_le ph ph')"

interpretation lfo: state_order life_le
proof
  show "life_le s s" for s by (cases s) (auto simp: life_le_def)
qed (auto simp: life_le_def intro: phase_le_trans)

lemma lifecycle_step_le: "lifecycle ev L L' \<Longrightarrow> ev \<noteq> Raises k \<Longrightarrow> life_le (L k) (L' k)"
proof (induction rule: lifecycle.induct)
  case (Forget L' L)
  from Forget(1) [of k] show ?case by (cases "L k") (auto simp: life_le_def)
qed (auto simp: lfo.le_refl, auto simp: life_le_def)

lemma lifecycles_le: "lifecycles evs L L' \<Longrightarrow> Raises k \<notin> set evs \<Longrightarrow> life_le (L k) (L' k)"
proof (induction rule: lifecycles.induct)
  case (life_snoc evs L L' ev L'')
  then show ?case using lifecycle_step_le [OF life_snoc(2), of k] lfo.le_trans by (metis UnCI list.set_intros(1) set_append)
qed (rule lfo.le_refl)

section \<open>The daemon implements the lifecycle\<close>

definition question_of :: "approval_envelope \<Rightarrow> approval_envelope" where
  "question_of e = (set_status Pending e)
     \<lparr>e_resolved_at := None, e_resolved_by := None, e_consumed_at := None, e_execution := None\<rparr>"

definition phase_of :: "approval_envelope \<Rightarrow> phase" where
  "phase_of e =
     (let a = (e_resolved_at e, e_resolved_by e, e_execution e)
      in case env_status e of
           Pending \<Rightarrow> Open
         | Expired \<Rightarrow> Lapsed
         | Denied \<Rightarrow> Decided RdDenied a
         | Approved \<Rightarrow> (case e_consumed_at e of None \<Rightarrow> Decided RdApproved a | Some t \<Rightarrow> Spent a t))"

definition life_of :: "daemon \<Rightarrow> string \<rightharpoonup> approval_envelope \<times> phase" where
  "life_of st = map_option (\<lambda>e. (question_of e, phase_of e)) \<circ> bt_get (records st)"

lemma question_of_inverse:
  "e = (set_status (env_status e) (question_of e))\<lparr>e_resolved_at := e_resolved_at e,
     e_resolved_by := e_resolved_by e, e_consumed_at := e_consumed_at e, e_execution := e_execution e\<rparr>"
  by (simp add: question_of_def set_status_def env_status_def)

lemma envelope_of_life:
  assumes "envelope_ok e" "envelope_ok e'" "question_of e = question_of e'" "phase_of e = phase_of e'"
  shows "e = e'"
proof -
  have s: "env_status e = env_status e'"
    using assms(4) by (auto simp: phase_of_def Let_def split: approval_status.splits option.splits)
  have "e_resolved_at e = e_resolved_at e'" "e_resolved_by e = e_resolved_by e'" "e_execution e = e_execution e'"
    "e_consumed_at e = e_consumed_at e'"
    using assms(1,2,4) s
    by (cases "env_status e"; auto simp: phase_of_def envelope_ok_def Let_def split: option.splits)+
  note f = this
  have "e = (set_status (env_status e) (question_of e))\<lparr>e_resolved_at := e_resolved_at e,
      e_resolved_by := e_resolved_by e, e_consumed_at := e_consumed_at e, e_execution := e_execution e\<rparr>"
    by (rule question_of_inverse)
  also have "\<dots> = e'"
    unfolding s f assms(3) by (rule question_of_inverse [symmetric])
  finally show ?thesis .
qed

text \<open>
  Identifiers are 32 random bits and creation does not look for a clash. \<open>drawn\<close> says that between two
  states the random device yields the bytes of an identifier; a question can be raised under that
  identifier in between only then.
\<close>

definition drawn :: "daemon_env \<Rightarrow> daemon \<Rightarrow> daemon \<Rightarrow> string \<Rightarrow> bool" where
  "drawn E st st' k \<longleftrightarrow>
     (\<exists>t h. ticks st \<le> t \<and> t < ticks st' \<and> env_urandom E t 4 = Some h \<and> k = APPROVAL_ID_PREFIX @ hex h)"

lemma drawn_mono: "drawn E b c k \<Longrightarrow> ticks a \<le> ticks b \<Longrightarrow> ticks c \<le> ticks d \<Longrightarrow> drawn E a d k"
proof -
  assume "drawn E b c k" and le: "ticks a \<le> ticks b" "ticks c \<le> ticks d"
  then obtain t h where "ticks b \<le> t" "t < ticks c" "env_urandom E t 4 = Some h" "k = APPROVAL_ID_PREFIX @ hex h"
    unfolding drawn_def by blast
  with le have "ticks a \<le> t \<and> t < ticks d \<and> env_urandom E t 4 = Some h \<and> k = APPROVAL_ID_PREFIX @ hex h" by simp
  then show "drawn E a d k" unfolding drawn_def by blast
qed

definition life_moves :: "daemon_env \<Rightarrow> life_event list \<Rightarrow> daemon \<Rightarrow> daemon \<Rightarrow> bool" where
  "life_moves E evs st st' \<longleftrightarrow> lifecycles evs (life_of st) (life_of st') \<and> ticks st \<le> ticks st' \<and>
     (\<forall>k. Raises k \<in> set evs \<longrightarrow> drawn E st st' k)"

lemma life_moves_append: "life_moves E evs a b \<Longrightarrow> life_moves E vs b c \<Longrightarrow> life_moves E (evs @ vs) a c"
  unfolding life_moves_def
  using lifecycles_append [of vs "life_of b" "life_of c" evs "life_of a"] drawn_mono [of E a b _ a c] drawn_mono [of E b c _ a c]
  by auto

lemma life_moves_none: "records st' = records st \<Longrightarrow> ticks st \<le> ticks st' \<Longrightarrow> life_moves E [] st st'"
  by (simp add: life_moves_def life_of_def life_nil)

text \<open>A put is one step of the question it writes, followed by forgetting closed ones.\<close>

lemma life_put:
  assumes ok: "store_ok st" and env: "env_id env = k"
    and changed: "records (snd (put E env st)) \<noteq> records st"
    and up: "lifecycle ev (life_of st) ((life_of st)(k \<mapsto> (question_of env, phase_of env)))"
  shows "lifecycles [ev, Forgets] (life_of st) (life_of (snd (put E env st)))"
proof -
  let ?L = "(life_of st)(k \<mapsto> (question_of env, phase_of env))" and ?s = "snd (put E env st)"
  have closed: "phase_of f \<noteq> Open" if "is_terminal (env_status f)" for f
    using that by (auto simp: phase_of_def is_terminal_def Let_def split: approval_status.splits option.splits)
  have "life_of ?s j = ?L j \<or> life_of ?s j = None \<and> (\<exists>q ph. ?L j = Some (q, ph) \<and> ph \<noteq> Open)" for j
    using ok env
  proof (rule put_at [of _ _ _ E])
    assume k: "bt_get (records ?s) k = Some env \<or> bt_get (records ?s) k = None \<and> is_terminal (env_status env)"
      and o: "\<And>j. j \<noteq> k \<Longrightarrow> bt_get (records ?s) j = bt_get (records st) j \<or> bt_get (records ?s) j = None \<and>
        (\<exists>f. bt_get (records st) j = Some f \<and> is_terminal (env_status f))"
    show ?thesis
    proof (cases "j = k")
      case True
      then show ?thesis using k closed [of env] by (auto simp: life_of_def)
    next
      case False
      from o [OF this] False show ?thesis by (auto simp: life_of_def dest: closed)
    qed
  qed (use changed in simp)
  then have "lifecycle Forgets ?L (life_of ?s)" by (rule lifecycle.Forget)
  from life_snoc [OF lifecycles_single [OF up] this] show ?thesis by simp
qed

lemma question_of_updates [simp]:
  "question_of (set_status x e) = question_of e" "question_of (e\<lparr>e_resolved_at := a\<rparr>) = question_of e"
  "question_of (e\<lparr>e_resolved_by := b\<rparr>) = question_of e" "question_of (e\<lparr>e_execution := y\<rparr>) = question_of e"
  "question_of (e\<lparr>e_consumed_at := c\<rparr>) = question_of e" "e_kind (question_of e) = e_kind e"
  by (simp_all add: question_of_def set_status_def)

lemma env_step_life:
  assumes "env_step e e'" "envelope_ok e" "life_of st k = Some (question_of e, phase_of e)"
  shows "\<exists>ev. lifecycle ev (life_of st) ((life_of st)(k \<mapsto> (question_of e', phase_of e'))) \<and> (\<forall>j. ev \<noteq> Raises j)"
  using assms
proof (induction rule: env_step.induct)
  case (lapse e)
  then show ?case
    using lifecycle.Lapse [of "life_of st" k "question_of e"]
    by (intro exI [of _ "Lapses k"]) (simp add: phase_of_def Let_def fun_upd_def)
next
  case (answered e d x b t)
  have "d = RdDenied \<Longrightarrow> x = None" using answered by (auto simp: envelope_ok_def)
  from lifecycle.Answer [of "life_of st" k "question_of e" d x t b, OF _ this] answered(1,3,4)
  show ?case
    by (intro exI [of _ "Answers k d"]; cases d) (auto simp: phase_of_def envelope_ok_def Let_def fun_upd_def)
next
  case (spent e t)
  then show ?case
    using lifecycle.Spend [of "life_of st" k "question_of e" "(e_resolved_at e, e_resolved_by e, e_execution e)" t]
    by (intro exI [of _ "Spends k"]) (simp add: phase_of_def Let_def fun_upd_def)
qed

lemma raise_life:
  assumes "store_ok st" "random_hex E 4 st = Some h"
    and "st' = snd (put E (envelope_of E st spec (APPROVAL_ID_PREFIX @ h)) st)" "records st' \<noteq> records st"
  shows "life_moves E [Raises (APPROVAL_ID_PREFIX @ h), Forgets] st st'"
proof -
  let ?k = "APPROVAL_ID_PREFIX @ h" and ?e = "envelope_of E st spec (APPROVAL_ID_PREFIX @ h)"
  have t: "ticks st < ticks st'" using put_ticks assms(3,4) by metis
  have "drawn E st st' ?k" using assms(2) t by (auto simp: random_hex_def drawn_def)
  moreover have "lifecycle (Raises ?k) (life_of st) ((life_of st)(?k \<mapsto> (question_of ?e, phase_of ?e)))"
    using lifecycle.Raise [of ?k "life_of st" "question_of ?e"] by (simp add: phase_of_def)
  from life_put [OF assms(1) _ _ this, of E] assms(3,4)
  have "lifecycles [Raises ?k, Forgets] (life_of st) (life_of st')" by simp
  ultimately show ?thesis using t by (auto simp: life_moves_def)
qed

lemma micro_ticks: "micro E st st' \<Longrightarrow> ticks st \<le> ticks st'"
  by (induction rule: micro.induct) (simp_all add: quiet_def later_put [unfolded later_def])

lemma micro_sim:
  assumes "micro E st st'" "gate_ok st"
  shows "\<exists>evs. life_moves E evs st st'"
proof (cases "records st' = records st")
  case True
  then show ?thesis using life_moves_none micro_ticks [OF assms(1)] by blast
next
  case changed: False
  have ok: "store_ok st" using assms(2) by (simp add: gate_ok_def daemon_ok_def)
  show ?thesis
    using assms(1)
  proof cases
    case quietly
    then show ?thesis using changed by (simp add: quiet_def)
  next
    case (rewrite e e')
    have e: "envelope_ok e" using rewrite(2) assms(2) by (auto simp: gate_ok_def)
    have k: "env_id e' = env_id e" using env_step_keeps [OF rewrite(3) e] by blast
    have "life_of st (env_id e) = Some (question_of e, phase_of e)" using rewrite(2) by (simp add: life_of_def)
    from env_step_life [OF rewrite(3) e this] obtain ev where
      ev: "lifecycle ev (life_of st) ((life_of st)(env_id e \<mapsto> (question_of e', phase_of e')))" "\<And>j. ev \<noteq> Raises j"
      by blast
    from life_put [OF ok k _ ev(1), of E] changed rewrite(1)
    have "lifecycles [ev, Forgets] (life_of st) (life_of st')" by simp
    then have "life_moves E [ev, Forgets] st st'" using ev(2) micro_ticks [OF assms(1)] by (auto simp: life_moves_def)
    then show ?thesis by blast
  next
    case (raised h spec)
    then show ?thesis using raise_life [OF ok raised(2,1) changed] by blast
  qed
qed

lemma micros_sim: "micros E st st' \<Longrightarrow> gate_ok st \<Longrightarrow> \<exists>evs. life_moves E evs st st'"
proof (induction rule: rtranclp_induct)
  case base
  then show ?case using life_moves_none by blast
next
  case (step s s')
  then show ?case using micro_sim [OF step(2)] micros_gate_ok [OF step(1)] life_moves_append by blast
qed

lemma run_moves:
  assumes "run E st st'" "gate_ok st"
  shows "(\<exists>evs. life_moves E evs st st') \<and> gate_ok st' \<and> ticks st \<le> ticks st'"
proof -
  have "micros E st st'" using run_micros [OF assms(1)] assms(2) by (simp add: gate_ok_def)
  then show ?thesis using micros_sim [OF _ assms(2)] micros_gate_ok [OF _ assms(2)] by (auto simp: life_moves_def)
qed

text \<open>A question moves forward only, until the device yields its identifier.\<close>

lemma run_question:
  assumes "run E st st'" "gate_ok st" "\<not> drawn E st st' k"
  shows "life_le (life_of st k) (life_of st' k)"
  using run_moves [OF assms(1,2)] lifecycles_le assms(3) unfolding life_moves_def by blast

section \<open>Properties\<close>

text \<open>
  C19. The gate's invariant holds in every state the daemon can reach. Whatever sequence of requests
  is served, from whatever peers and with whatever failing writes, the daemon's maps stay sorted and
  keyed, every stored approval passes the schema under its own identifier, and every record is
  consistent: it names its resolver exactly when it was answered, only an approved one has an
  execution, and only an approved credential request is marked as spent.
\<close>

theorem reachable_states_are_consistent:
  assumes "gate_ok st" "run E st st'"
  shows "gate_ok st'"
  using micros_gate_ok [OF run_micros [OF assms(2)]] assms(1) by (simp add: gate_ok_def)

lemma demo_gate_ok: "gate_ok demo_state"
  using demo_daemon_ok
  by (auto simp: gate_ok_def demo_store_def bt_get_single envelope_ok_def demo_envelope_def env_status_def)

theorem reachable_states_are_consistent_witness:
  "gate_ok (dispatch demo_denv (ApprovalsResolve demo_root ''apr_aaaa1111'' RdApproved)
     (dispatch demo_denv (PrivilegeRequested demo_root
        \<lparr>pr_capability = ''security.firewall'', pr_reason = ''why'', pr_duration_minutes = None\<rparr>) demo_state))"
  by (rule reachable_states_are_consistent [OF demo_gate_ok, of demo_denv], intro run.intros)

text \<open>
  C4. The detailed daemon implements the lifecycle contract. Whatever requests are served, from whatever
  peers and with whatever failing writes, the questions the daemon shows at the end are reached from
  those it started with by events of the contract: questions are raised, lapse or are answered once,
  are spent once when they approve a credential, and are forgotten only when closed. A question is
  raised only under an identifier that the random device yields during the run; nothing checks that
  the identifier is unused, so raising may replace an older question of that name.
\<close>

theorem gate_refines_lifecycle:
  assumes "run E st st'" "gate_ok st"
  shows "gate_ok st' \<and> (\<exists>evs. lifecycles evs (life_of st) (life_of st') \<and>
    (\<forall>k. Raises k \<in> set evs \<longrightarrow> drawn E st st' k))"
  using run_moves [OF assms] unfolding life_moves_def by blast

text \<open>An environment whose generator yields one identifier and then fails.\<close>

definition demo_entropy :: daemon_env where
  "demo_entropy = demo_denv\<lparr>env_urandom := (\<lambda>t n. if t = 0 then Some (replicate n 0) else None)\<rparr>"

lemma demo_not_zero: "APPROVAL_ID_PREFIX @ hex (replicate 4 0) \<noteq> ''apr_aaaa1111''"
  by code_simp

lemma demo_not_drawn: "\<not> drawn demo_entropy st st' ''apr_aaaa1111''"
  using demo_not_zero by (auto simp: drawn_def demo_entropy_def split: if_splits)

theorem gate_refines_lifecycle_witness:
  "\<exists>evs. lifecycles evs (life_of demo_state)
       (life_of (dispatch demo_entropy (ApprovalsResolve demo_root ''apr_aaaa1111'' RdDenied) demo_state)) \<and>
     Raises ''apr_aaaa1111'' \<notin> set evs"
proof -
  have "run demo_entropy demo_state
      (dispatch demo_entropy (ApprovalsResolve demo_root ''apr_aaaa1111'' RdDenied) demo_state)"
    by (intro run.intros)
  from gate_refines_lifecycle [OF this demo_gate_ok] demo_not_drawn show ?thesis by blast
qed

text \<open>
  C7. What was decided stays decided. Take any state with a closed record, and any later state of the
  daemon. The record is then either gone or the very same record: same question, same status, same
  resolver, same execution. The one thing that may have been added is the mark that an approved
  credential was spent, and once that is there nothing changes at all. The only way out is that the
  random device yields the identifier of the record once more in between: a new question then takes
  its place.
\<close>

theorem decision_is_final:
  assumes "gate_ok st" "run E st st'" "bt_get (records st) k = Some e" "is_terminal (env_status e)"
  shows "bt_get (records st') k = None \<or>
    (\<exists>c. bt_get (records st') k = Some (e\<lparr>e_consumed_at := c\<rparr>) \<and>
       (c = e_consumed_at e \<or> e_consumed_at e = None \<and> env_status e = Approved)) \<or>
    drawn E st st' k"
proof (cases "drawn E st st' k \<or> bt_get (records st') k = None")
  case False
  then obtain e' where e': "bt_get (records st') k = Some e'" by blast
  have "life_le (life_of st k) (life_of st' k)" using run_question [OF assms(2,1)] False by blast
  then have q: "question_of e' = question_of e" and ph: "phase_le (phase_of e) (phase_of e')"
    using assms(3) e' by (auto simp: life_le_def life_of_def)
  have ok: "envelope_ok e" "envelope_ok e'"
    using assms(1,3) run_moves [OF assms(2,1)] e' by (auto simp: gate_ok_def)
  have kind: "e_kind e = e_kind e'" using q by (metis question_of_updates(6))
  let ?c = "e\<lparr>e_consumed_at := e_consumed_at e'\<rparr>"
  have c: "e_consumed_at e' = e_consumed_at e \<or> e_consumed_at e = None \<and> env_status e = Approved"
    and s: "phase_of e' = phase_of ?c" "envelope_ok ?c"
    using assms(4) ph ok kind
    by (auto simp: phase_of_def envelope_ok_def is_terminal_def Let_def
        split: approval_status.splits option.splits)
  have "e' = ?c" using envelope_of_life [OF ok(2) s(2) _ s(1)] q by simp
  then show ?thesis using e' c by metis
qed auto

theorem decision_is_final_witness:
  "let st = demo_daemon [demo_envelope ''apr_aaaa1111'' Expired] [];
       st' = dispatch demo_entropy (ApprovalsResolve demo_root ''apr_aaaa1111'' RdApproved) st
   in bt_get (records st') ''apr_aaaa1111'' \<in> {None, Some (demo_envelope ''apr_aaaa1111'' Expired)}"
proof -
  let ?e = "demo_envelope ''apr_aaaa1111'' Expired"
  let ?st = "demo_daemon [?e] []"
  let ?st' = "dispatch demo_entropy (ApprovalsResolve demo_root ''apr_aaaa1111'' RdApproved) ?st"
  have "validate_approval_schema (e_approval ?e) = Ok ()" by code_simp
  note d = demo_single [OF this]
  have g: "gate_ok ?st" and k: "bt_get (records ?st) ''apr_aaaa1111'' = Some ?e" and t: "is_terminal (env_status ?e)"
    using d(1,3) by (auto simp: gate_ok_def envelope_ok_def demo_envelope_def env_status_def env_id_def is_terminal_def)
  have r: "run demo_entropy ?st ?st'" by (intro run.intros)
  from decision_is_final [OF g r k t] demo_not_drawn show ?thesis
    by (auto simp: Let_def)
qed

end
