(* ===== verification/Credential_Broker.thy ===== *)
theory Credential_Broker
  imports Token_Store Gate_Machine
begin

text \<open>
  The credential broker: the handlers of \<open>crates/punar-secrets/src/server.rs\<close> and its client of
  punard's approval socket, \<open>crates/punar-secrets/src/approvals.rs\<close>. The approval engine is an
  argument, a record of the three calls the client makes. The lemmas say what each branch of a
  request does to the tokens and to the engine.
\<close>

section \<open>The client of the approval engine\<close>

datatype approval_error = Unreachable | Refused ipc_error | Protocol

text \<open>The fields of a listed approval the broker reads, each as the lenient parse leaves it.\<close>

record listed_approval =
  la_approval_id :: string
  la_requester_id :: string
  la_resource :: string
  la_status :: "string option"
  la_expires_at :: string
  la_kind :: "string option"
  la_consumed_at :: "string option"

record 'd approval_engine =
  call_list :: "'d \<Rightarrow> (approval_error, listed_approval list) result \<times> 'd"
  call_consume :: "string \<Rightarrow> 'd \<Rightarrow> (approval_error, string) result \<times> 'd"
  call_create :: "approvals_create_params \<Rightarrow> 'd \<Rightarrow> (approval_error, listed_approval) result \<times> 'd"

record create_args =
  ca_credential :: string
  ca_display :: string
  ca_risk :: risk
  ca_user :: string
  ca_requester_kind :: principal_kind
  ca_requester_id :: string
  ca_requester_uid :: nat
  ca_agent_session_id :: "string option"
  ca_cited_name :: string
  ca_cited_id :: string
  ca_requested_ttl :: "nat option"

text \<open>\<open>s.chars().take(n)\<close> on UTF-8 bytes: a character ends before the next lead byte.\<close>

fun take_chars :: "nat \<Rightarrow> string \<Rightarrow> string" where
  "take_chars n [] = []"
| "take_chars n (c # cs) =
     (if 128 \<le> byte c \<and> byte c < 192 then c # take_chars n cs
      else if n = 0 then [] else c # take_chars (n - 1) cs)"

definition compose_reason :: "string \<Rightarrow> string \<Rightarrow> string" where
  "compose_reason display requester_id =
     take_chars 200 (display @ '' credential requested by '' @ requester_id)"

definition credential_contract_line :: "string \<Rightarrow> string" where
  "credential_contract_line credential = ''RequestCredential('' @ credential @ '')''"

definition create_params :: "create_args \<Rightarrow> approvals_create_params" where
  "create_params args =
     \<lparr>ac_kind = CredentialRequest, ac_capability = ''credential.request'', ac_resource = ca_credential args,
      ac_reason = compose_reason (ca_display args) (ca_requester_id args), ac_risk = ca_risk args,
      ac_user = ca_user args,
      ac_requester = \<lparr>rq_kind = ca_requester_kind args, rq_id = ca_requester_id args\<rparr>,
      ac_ttl = Some APPROVAL_TTL_DEFAULT_SECS,
      ac_contract = Some (credential_contract_line (ca_credential args)),
      ac_requester_peer = Some \<lparr>rp_uid = ca_requester_uid args, rp_agent_session_id = ca_agent_session_id args\<rparr>,
      ac_policy = Some \<lparr>pc_name = ca_cited_name args, pc_policy_id = ca_cited_id args\<rparr>,
      ac_request = Some \<lparr>req_method = ''credential.request'',
        req_params = json_object ([(''credential'', JStr (ca_credential args))]
          @ (case ca_requested_ttl args of Some ttl \<Rightarrow> [(''ttl'', JNum (int ttl))] | None \<Rightarrow> []))\<rparr>\<rparr>"

text \<open>An answer that names no approval is not one.\<close>

definition client_create ::
  "'d approval_engine \<Rightarrow> create_args \<Rightarrow> 'd \<Rightarrow> (approval_error, string \<times> string) result \<times> 'd" where
  "client_create EN args d =
     (case call_create EN (create_params args) d of
        (Err e, d1) \<Rightarrow> (Err e, d1)
      | (Ok row, d1) \<Rightarrow>
          (if la_approval_id row = [] then Err Protocol
           else Ok (la_approval_id row, la_expires_at row), d1))"

definition candidate_row :: "string \<Rightarrow> string \<Rightarrow> listed_approval \<Rightarrow> bool" where
  "candidate_row credential requester_id row =
     (la_kind row = Some (approval_kind_str CredentialRequest)
      \<and> la_status row = Some (approval_status_str Approved)
      \<and> la_consumed_at row = None \<and> la_resource row = credential \<and> la_requester_id row = requester_id)"

definition client_candidates ::
  "'d approval_engine \<Rightarrow> string \<Rightarrow> string \<Rightarrow> 'd \<Rightarrow> (approval_error, string list) result \<times> 'd" where
  "client_candidates EN credential requester_id d =
     (case call_list EN d of
        (Err e, d1) \<Rightarrow> (Err e, d1)
      | (Ok rows, d1) \<Rightarrow> (Ok (map la_approval_id (filter (candidate_row credential requester_id) rows)), d1))"

text \<open>The loop of \<open>gated_request\<close>: the first candidate the engine lets us spend.\<close>

fun spend_first ::
  "'d approval_engine \<Rightarrow> string list \<Rightarrow> 'd \<Rightarrow> (approval_error, string option) result \<times> 'd" where
  "spend_first EN [] d = (Ok None, d)"
| "spend_first EN (i # is) d =
     (case call_consume EN i d of
        (Ok _, d1) \<Rightarrow> (Ok (Some i), d1)
      | (Err (Refused _), d1) \<Rightarrow> spend_first EN is d1
      | (Err e, d1) \<Rightarrow> (Err e, d1))"

section \<open>State of the broker\<close>

definition ACTION_CREDENTIAL_REQUEST :: string where
  "ACTION_CREDENTIAL_REQUEST = ''credential.request''"

definition ACTION_CREDENTIAL_EXPIRE :: string where
  "ACTION_CREDENTIAL_EXPIRE = ''credential.expire''"

definition ACTION_CREDENTIAL_REVOKE :: string where
  "ACTION_CREDENTIAL_REVOKE = ''credential.revoke''"

record broker_env = audit_env +
  br_catalog :: class_catalog
  br_policy :: ai_policy_set
  br_device_file :: "nat \<Rightarrow> string option"

record 'd broker = audit_state +
  br_tokens :: token_entries
  br_device_id :: "string option"
  br_engine :: 'd

text \<open>\<open>Clock::System\<close>; beyond 64 bits it saturates.\<close>

definition broker_now :: "broker_env \<Rightarrow> 'd broker \<Rightarrow> nat" where
  "broker_now E st = min u64_max (unix_now_millis E st div 1000)"

record cred_requester =
  q_actor :: audit_actor
  q_user :: string
  q_agent_session_id :: "string option"
  q_uid :: nat

definition requester_of :: "broker_env \<Rightarrow> peer \<Rightarrow> 'd broker \<Rightarrow> cred_requester" where
  "requester_of E p st =
     (let user = unwrap_or (lookup_username E (peer_uid p) st) (''uid:'' @ show_nat (peer_uid p));
          session = agent_session_of_peer E st p
      in \<lparr>q_actor = (case session of Some s \<Rightarrow> with_agent_session (cli_peer user) s | None \<Rightarrow> cli_peer user),
          q_user = user, q_agent_session_id = session, q_uid = peer_uid p\<rparr>)"

definition principal :: "cred_requester \<Rightarrow> principal_kind \<times> string" where
  "principal q = (case q_agent_session_id q of Some i \<Rightarrow> (AiAgent, i) | None \<Rightarrow> (Human, q_user q))"

definition broker_device_id :: "broker_env \<Rightarrow> 'd broker \<Rightarrow> string \<times> 'd broker" where
  "broker_device_id E st =
     (case br_device_id st of
        Some i \<Rightarrow> (i, st)
      | None \<Rightarrow>
          (case map_option str_trim (br_device_file E (ticks st)) of
             Some i \<Rightarrow> if starts_with ''dev_'' i \<and> length i > 4 then (i, st\<lparr>br_device_id := Some i\<rparr>)
                       else (''dev_unknown'', st)
           | None \<Rightarrow> (''dev_unknown'', st)))"

definition broker_event ::
  "broker_env \<Rightarrow> audit_actor \<Rightarrow> string \<Rightarrow> string \<Rightarrow> decision \<Rightarrow> string \<Rightarrow> string list \<Rightarrow> 'd broker
   \<Rightarrow> audit_event \<times> 'd broker" where
  "broker_event E actor action resource dec res policy_ids st =
     (case next_event_id E st of (event_id, st1) \<Rightarrow>
      case broker_device_id E st1 of (dev, st2) \<Rightarrow>
        (\<lparr>ev_event_id = event_id, ev_timestamp = utc_now_rfc3339 E st, ev_device_id = dev,
          ev_user_id = Some (aa_user_id actor),
          ev_agent_session_id = Some (unwrap_or (aa_agent_session_id actor) AGENT_SESSION_NONE),
          ev_project_id = Some PROJECT_ID_SYSTEM, ev_source = aa_source actor, ev_action = action,
          ev_resource = Some resource, ev_decision = dec, ev_policy_ids = policy_ids,
          ev_result = res\<rparr>, st2))"

definition write_event ::
  "broker_env \<Rightarrow> audit_actor \<Rightarrow> string \<Rightarrow> string \<Rightarrow> decision \<Rightarrow> string \<Rightarrow> string list \<Rightarrow> 'd broker
   \<Rightarrow> (string \<times> bool) \<times> 'd broker" where
  "write_event E actor action resource dec res policy_ids st =
     (case broker_event E actor action resource dec res policy_ids st of (ev, st1) \<Rightarrow>
      case append_event E ev st1 of (r, st2) \<Rightarrow> ((ev_event_id ev, is_ok r), st2))"

definition broker_audit ::
  "broker_env \<Rightarrow> audit_actor \<Rightarrow> string \<Rightarrow> string \<Rightarrow> decision \<Rightarrow> string \<Rightarrow> string list \<Rightarrow> 'd broker
   \<Rightarrow> string \<times> 'd broker" where
  "broker_audit E actor action resource dec res policy_ids st =
     (case write_event E actor action resource dec res policy_ids st of ((i, _), st1) \<Rightarrow> (i, st1))"

definition try_audit ::
  "broker_env \<Rightarrow> audit_actor \<Rightarrow> string \<Rightarrow> string \<Rightarrow> decision \<Rightarrow> string \<Rightarrow> string list \<Rightarrow> 'd broker
   \<Rightarrow> string option \<times> 'd broker" where
  "try_audit E actor action resource dec res policy_ids st =
     (case write_event E actor action resource dec res policy_ids st of ((i, written), st1) \<Rightarrow>
        (if written then Some i else None, st1))"

section \<open>\<open>credential.request\<close>\<close>

record issue_result =
  is_credential :: string
  is_value :: string
  is_expires_at :: string
  is_ttl :: nat
  is_provider :: string
  is_attestation :: string
  is_audit_event_id :: string
  is_agent_session_id :: "string option"
  is_approval_id :: "string option"

definition broker_entropy :: "broker_env \<Rightarrow> 'd broker \<Rightarrow> byte8 list option" where
  "broker_entropy E st = map_option (map of_nat) (env_urandom E (ticks st) TOKEN_ENTROPY_BYTES)"

definition broker_issue ::
  "broker_env \<Rightarrow> credential_class \<Rightarrow> nat option \<Rightarrow> cred_requester \<Rightarrow> string \<Rightarrow> string option \<Rightarrow> 'd broker
   \<Rightarrow> (ipc_error, issue_result) result \<times> 'd broker" where
  "broker_issue E class requested_ttl q policy_id aid st =
     (let ttl = effective_ttl class requested_ttl;
          audit = (\<lambda>res st. snd (broker_audit E (q_actor q) ACTION_CREDENTIAL_REQUEST (cc_id class) Deny res
                     [policy_id] st));
          refused = with_details EcDenied [(''decision'', JStr ''deny''), (''credential'', JStr (cc_id class))]
      in case store_issue MAX_LIVE_TOKENS (broker_entropy E st) class ttl (q_uid q) (q_agent_session_id q)
                (broker_now E st) (br_tokens st) of
           (Err NotIssuable, es) \<Rightarrow> (Err refused, audit ''denied'' (st\<lparr>br_tokens := es\<rparr>))
         | (Err Flood, es) \<Rightarrow> (Err refused, audit ''issuance_flood'' (st\<lparr>br_tokens := es\<rparr>))
         | (Err NoEntropy, es) \<Rightarrow> (Err internal, tick (st\<lparr>br_tokens := es\<rparr>))
         | (Ok (token, r), es) \<Rightarrow>
             (case try_audit E (q_actor q) ACTION_CREDENTIAL_REQUEST (cc_id class) Allow ''issued'' [policy_id]
                     (tick (st\<lparr>br_tokens := es\<rparr>)) of
                (None, st1) \<Rightarrow>
                  (Err internal, st1\<lparr>br_tokens := snd (store_revoke token (br_tokens st1))\<rparr>)
              | (Some event_id, st1) \<Rightarrow>
                  (Ok \<lparr>is_credential = ir_credential r, is_value = token, is_expires_at = ir_expires_at r,
                       is_ttl = ttl, is_provider = PROVIDER_MOCK, is_attestation = ATTESTATION_SIMULATED,
                       is_audit_event_id = event_id, is_agent_session_id = ir_agent_session_id r,
                       is_approval_id = aid\<rparr>, st1)))"

definition upstream_failure ::
  "broker_env \<Rightarrow> credential_class \<Rightarrow> cred_requester \<Rightarrow> credential_authority \<Rightarrow> 'd broker
   \<Rightarrow> ipc_error \<times> 'd broker" where
  "upstream_failure E class q authority st =
     (with_details EcUpstreamUnreachable
        [(''stage'', JStr ''approvals''), (''credential'', JStr (cc_id class)),
         (''policy_ids'', JArr [JStr (ca_policy_id authority)])],
      snd (broker_audit E (q_actor q) ACTION_CREDENTIAL_REQUEST (cc_id class) ApprovalRequired
             ''upstream_unreachable'' [ca_policy_id authority] st))"

record credential_request_params =
  crq_credential :: string
  crq_ttl :: "nat option"

definition args_of ::
  "credential_class \<Rightarrow> credential_request_params \<Rightarrow> cred_requester \<Rightarrow> credential_authority \<Rightarrow> create_args" where
  "args_of class ps q authority =
     \<lparr>ca_credential = cc_id class, ca_display = cc_display class, ca_risk = cc_risk class,
      ca_user = q_user q, ca_requester_kind = fst (principal q), ca_requester_id = snd (principal q),
      ca_requester_uid = q_uid q, ca_agent_session_id = q_agent_session_id q,
      ca_cited_name = ca_policy_name authority, ca_cited_id = ca_policy_id authority,
      ca_requested_ttl = crq_ttl ps\<rparr>"

definition raise_approval ::
  "broker_env \<Rightarrow> 'd approval_engine \<Rightarrow> credential_class \<Rightarrow> credential_request_params \<Rightarrow> cred_requester
   \<Rightarrow> credential_authority \<Rightarrow> 'd broker \<Rightarrow> ipc_error \<times> 'd broker" where
  "raise_approval E EN class ps q authority st =
     (case client_create EN (args_of class ps q authority) (br_engine st) of
        (Err (Refused e), d) \<Rightarrow>
          (e, snd (broker_audit E (q_actor q) ACTION_CREDENTIAL_REQUEST (cc_id class) Deny ''denied''
                     [ca_policy_id authority] (st\<lparr>br_engine := d\<rparr>)))
      | (Err _, d) \<Rightarrow> upstream_failure E class q authority (st\<lparr>br_engine := d\<rparr>)
      | (Ok (aid, expires_at), d) \<Rightarrow>
          (with_details EcApprovalRequired
             [(''approval_id'', JStr aid), (''expires_at'', JStr expires_at),
              (''capability'', JStr ACTION_CREDENTIAL_REQUEST), (''resource'', JStr (cc_id class)),
              (''credential'', JStr (cc_id class)), (''decision'', JStr ''approval_required''),
              (''policy_ids'', JArr [JStr (ca_policy_id authority)])],
           snd (broker_audit E (q_actor q) ACTION_CREDENTIAL_REQUEST (cc_id class) ApprovalRequired ''pending''
                  [ca_policy_id authority] (st\<lparr>br_engine := d\<rparr>))))"

definition gated_request ::
  "broker_env \<Rightarrow> 'd approval_engine \<Rightarrow> credential_class \<Rightarrow> credential_request_params \<Rightarrow> cred_requester
   \<Rightarrow> credential_authority \<Rightarrow> 'd broker \<Rightarrow> (ipc_error, issue_result) result \<times> 'd broker" where
  "gated_request E EN class ps q authority st =
     (case client_candidates EN (cc_id class) (snd (principal q)) (br_engine st) of
        (Err e, d) \<Rightarrow>
          (case upstream_failure E class q authority (st\<lparr>br_engine := d\<rparr>) of (err, st1) \<Rightarrow> (Err err, st1))
      | (Ok ids, d) \<Rightarrow>
          (case spend_first EN ids d of
             (Err e, d1) \<Rightarrow>
               (case upstream_failure E class q authority (st\<lparr>br_engine := d1\<rparr>) of (err, st1) \<Rightarrow> (Err err, st1))
           | (Ok (Some aid), d1) \<Rightarrow>
               broker_issue E class (crq_ttl ps) q (ca_policy_id authority) (Some aid) (st\<lparr>br_engine := d1\<rparr>)
           | (Ok None, d1) \<Rightarrow>
               (case raise_approval E EN class ps q authority (st\<lparr>br_engine := d1\<rparr>) of (err, st1) \<Rightarrow>
                  (Err err, st1))))"

definition unknown_class :: "string \<Rightarrow> ipc_error" where
  "unknown_class requested =
     (if \<not> class_id_ok requested then with_details EcNotFound [(''credential_shape'', JStr ''not_a_class_id'')]
      else with_details EcNotFound [(''credential'', JStr requested)])"

definition handle_request ::
  "broker_env \<Rightarrow> 'd approval_engine \<Rightarrow> peer \<Rightarrow> credential_request_params \<Rightarrow> 'd broker
   \<Rightarrow> (ipc_error, issue_result) result \<times> 'd broker" where
  "handle_request E EN p ps st =
     (let q = requester_of E p st
      in case catalog_get (br_catalog E) (crq_credential ps) of
           None \<Rightarrow> (Err (unknown_class (crq_credential ps)), st)
         | Some class \<Rightarrow>
             (let authority = credential_decision_for (br_policy E) (cc_policy_key class)
              in case ca_grant authority of
                   GrantDeny \<Rightarrow>
                     (Err (with_details EcDenied
                        [(''decision'', JStr ''deny''), (''credential'', JStr (cc_id class)),
                         (''policy_ids'', JArr [JStr (ca_policy_id authority)])]),
                      snd (broker_audit E (q_actor q) ACTION_CREDENTIAL_REQUEST (cc_id class) Deny ''denied''
                             [ca_policy_id authority] st))
                 | GrantAllow \<Rightarrow> broker_issue E class (crq_ttl ps) q (ca_policy_id authority) None st
                 | GrantRequest \<Rightarrow> gated_request E EN class ps q authority st))"

section \<open>\<open>credential.validate\<close>, \<open>credential.revoke\<close> and the reads\<close>

definition unknown_token :: ipc_error where
  "unknown_token = \<lparr>ie_code = EcNotFound, ie_details = None\<rparr>"

record validate_result =
  vr_valid :: bool
  vr_credential :: string
  vr_expires_at :: string
  vr_expires_in :: nat
  vr_provider :: string
  vr_attestation :: string

definition handle_validate ::
  "broker_env \<Rightarrow> peer \<Rightarrow> string option \<Rightarrow> string \<Rightarrow> 'd broker
   \<Rightarrow> (ipc_error, validate_result) result \<times> 'd broker" where
  "handle_validate E p credential token st =
     (let now = broker_now E st
      in case store_present token credential now (br_tokens st) of
           (PValid r, es) \<Rightarrow>
             (Ok \<lparr>vr_valid = True, vr_credential = ir_credential r, vr_expires_at = ir_expires_at r,
                  vr_expires_in = remaining_secs r now, vr_provider = PROVIDER_MOCK,
                  vr_attestation = ATTESTATION_SIMULATED\<rparr>, st\<lparr>br_tokens := es\<rparr>)
         | (PExpired r, es) \<Rightarrow>
             (let st1 = st\<lparr>br_tokens := es\<rparr>
              in (Err (with_details EcExpired
                    [(''credential'', JStr (ir_credential r)), (''expires_at'', JStr (ir_expires_at r))]),
                  snd (broker_audit E (q_actor (requester_of E p st1)) ACTION_CREDENTIAL_EXPIRE (ir_credential r)
                         Allow ''expired'' [POLICY_PERSONAL_DEFAULTS] st1)))
         | (PUnknown, es) \<Rightarrow> (Err unknown_token, st\<lparr>br_tokens := es\<rparr>))"

definition handle_revoke ::
  "broker_env \<Rightarrow> peer \<Rightarrow> string \<Rightarrow> 'd broker \<Rightarrow> (ipc_error, string \<times> string) result \<times> 'd broker" where
  "handle_revoke E p token st =
     (case store_revoke token (br_tokens st) of
        (None, es) \<Rightarrow> (Err unknown_token, st\<lparr>br_tokens := es\<rparr>)
      | (Some r, es) \<Rightarrow>
          (let st1 = st\<lparr>br_tokens := es\<rparr>
           in case broker_audit E (q_actor (requester_of E p st1)) ACTION_CREDENTIAL_REVOKE (ir_credential r)
                     Allow ''revoked'' [POLICY_PERSONAL_DEFAULTS] st1 of
                (event_id, st2) \<Rightarrow> (Ok (ir_credential r, event_id), st2)))"

record class_row =
  cw_id :: string
  cw_display :: string
  cw_risk :: string
  cw_default_ttl :: nat
  cw_max_ttl :: nat
  cw_decision :: string
  cw_policy_name :: string
  cw_policy_id :: string

definition handle_classes :: "broker_env \<Rightarrow> class_row list" where
  "handle_classes E =
     map (\<lambda>class. let authority = credential_decision_for (br_policy E) (cc_policy_key class)
            in \<lparr>cw_id = cc_id class, cw_display = cc_display class, cw_risk = risk_str (cc_risk class),
                cw_default_ttl = cc_default_ttl class, cw_max_ttl = cc_max_ttl class,
                cw_decision = credential_grant_str (ca_grant authority),
                cw_policy_name = ca_policy_name authority, cw_policy_id = ca_policy_id authority\<rparr>)
       (cat_classes (br_catalog E))"

record broker_status =
  bs_provider :: string
  bs_attestation :: string
  bs_classes :: nat
  bs_issued :: nat
  bs_persisted :: bool

definition handle_status :: "broker_env \<Rightarrow> 'd broker \<Rightarrow> broker_status" where
  "handle_status E st =
     \<lparr>bs_provider = PROVIDER_MOCK, bs_attestation = ATTESTATION_SIMULATED,
      bs_classes = length (cat_classes (br_catalog E)),
      bs_issued = store_live (br_tokens st) (broker_now E st), bs_persisted = False\<rparr>"

section \<open>Lemmas on the broker's own state\<close>

lemma broker_tick [simp]:
  "br_engine (tick st) = br_engine st" "br_tokens (tick st) = br_tokens st"
  by (simp_all add: tick_def)

lemma broker_append [simp]:
  "br_engine (snd (append_event E e st)) = br_engine st" "br_tokens (snd (append_event E e st)) = br_tokens st"
  by (auto simp: append_event_def rotate_if_needed_def Let_def split: sum.splits option.splits rotation.splits)

lemma broker_event_keeps [simp]:
  "br_engine (snd (broker_event E a act res dec r ps st)) = br_engine st"
  "br_tokens (snd (broker_event E a act res dec r ps st)) = br_tokens st"
  by (auto simp: broker_event_def next_event_id_def broker_device_id_def split: option.splits)

lemma write_event_keeps [simp]:
  "br_engine (snd (write_event E a act res dec r ps st)) = br_engine st"
  "br_tokens (snd (write_event E a act res dec r ps st)) = br_tokens st"
  by (simp_all add: write_event_def case_prod_beta)

lemma audit_keeps [simp]:
  "br_engine (snd (broker_audit E a act res dec r ps st)) = br_engine st"
  "br_tokens (snd (broker_audit E a act res dec r ps st)) = br_tokens st"
  "br_engine (snd (try_audit E a act res dec r ps st)) = br_engine st"
  "br_tokens (snd (try_audit E a act res dec r ps st)) = br_tokens st"
  by (simp_all add: broker_audit_def try_audit_def case_prod_beta)

lemma try_audit_keeps:
  "try_audit E a act res dec r ps st0 = (x, st1) \<Longrightarrow> br_engine st1 = br_engine st0 \<and> br_tokens st1 = br_tokens st0"
  using audit_keeps(3,4) [of E a act res dec r ps st0] by simp

lemma upstream_keeps [simp]:
  "br_engine (snd (upstream_failure E c q a st)) = br_engine st"
  "br_tokens (snd (upstream_failure E c q a st)) = br_tokens st"
  by (simp_all add: upstream_failure_def)

lemma raise_keeps:
  "br_tokens (snd (raise_approval E EN c ps q a st)) = br_tokens st"
  "br_engine (snd (raise_approval E EN c ps q a st)) = snd (client_create EN (args_of c ps q a) (br_engine st))"
  by (auto simp: raise_approval_def split: prod.splits sum.splits approval_error.splits)

lemma issue_engine [simp]: "br_engine (snd (broker_issue E c ttl q pid aid st)) = br_engine st"
  by (auto simp: broker_issue_def Let_def split: prod.splits sum.splits issue_error.splits option.splits
      dest!: try_audit_keeps)

lemma issue_engine_of: "broker_issue E c ttl q pid aid st = (r, st') \<Longrightarrow> br_engine st' = br_engine st"
  using issue_engine [of E c ttl q pid aid st] by simp

text \<open>What a successful issue did.\<close>

lemma issue_Ok:
  assumes "broker_issue E c ttl q pid aid st = (Ok r, st')"
  obtains rec es where
    "store_issue MAX_LIVE_TOKENS (broker_entropy E st) c (effective_ttl c ttl) (q_uid q) (q_agent_session_id q)
       (broker_now E st) (br_tokens st) = (Ok (is_value r, rec), es)"
    "br_tokens st' = es" "is_credential r = cc_id c" "is_ttl r = effective_ttl c ttl" "is_approval_id r = aid"
    "is_expires_at r = ir_expires_at rec"
    "try_audit E (q_actor q) ACTION_CREDENTIAL_REQUEST (cc_id c) Allow ''issued'' [pid]
       (tick (st\<lparr>br_tokens := es\<rparr>)) = (Some (is_audit_event_id r), st')"
proof -
  obtain token rec es where s: "store_issue MAX_LIVE_TOKENS (broker_entropy E st) c (effective_ttl c ttl) (q_uid q)
      (q_agent_session_id q) (broker_now E st) (br_tokens st) = (Ok (token, rec), es)"
    using assms by (auto simp: broker_issue_def Let_def split: prod.splits sum.splits issue_error.splits)
  obtain i where t: "try_audit E (q_actor q) ACTION_CREDENTIAL_REQUEST (cc_id c) Allow ''issued'' [pid]
      (tick (st\<lparr>br_tokens := es\<rparr>)) = (Some i, st')"
    using assms s by (auto simp: broker_issue_def Let_def split: prod.splits option.splits)
  have "ir_credential rec = cc_id c"
    using s by (auto elim!: store_issue_Ok simp: issued_record_of_def)
  moreover have "br_tokens st' = es" using try_audit_keeps [OF t] by simp
  ultimately show ?thesis
    using assms s t by (intro that [of rec es]) (auto simp: broker_issue_def Let_def)
qed

definition digests :: "token_entries \<Rightarrow> string set" where
  "digests es = ir_token_sha256 ` set es"

lemma digests_revoke:
  assumes "store_issue m fill c ttl uid session now es0 = (Ok (token, r), es)"
  shows "digests (snd (store_revoke token es)) \<subseteq> digests es0"
proof -
  obtain kept where es: "es = kept @ [r]" and k: "set kept \<subseteq> set es0" and r: "ir_token_sha256 r = sha256_hex token"
    using assms reclaim_subset(1) [of m now es0] by (auto elim!: store_issue_Ok simp: issued_record_of_def)
  show ?thesis
  proof (cases "\<exists>e \<in> set kept. ir_token_sha256 e = sha256_hex token")
    case True
    then have "digests es \<subseteq> digests es0" using k r by (force simp: digests_def es)
    moreover have "digests (snd (store_revoke token es)) \<subseteq> digests es"
      using set_remove_at [of _ es] by (auto simp: digests_def store_revoke_def split: option.splits)
    ultimately show ?thesis by blast
  next
    case False
    then have "position (\<lambda>e. ir_token_sha256 e = sha256_hex token) es = Some (length kept)"
      unfolding es using r by (intro position_fresh) simp_all
    then show ?thesis using k by (auto simp: store_revoke_def es digests_def)
  qed
qed

lemma issue_Err:
  assumes "broker_issue E c ttl q pid aid st = (Err e, st')"
  shows "digests (br_tokens st') \<subseteq> digests (br_tokens st)"
proof -
  obtain r es where s: "store_issue MAX_LIVE_TOKENS (broker_entropy E st) c (effective_ttl c ttl) (q_uid q)
      (q_agent_session_id q) (broker_now E st) (br_tokens st) = (r, es)" by fastforce
  show ?thesis
  proof (cases r)
    case (Inl err)
    have "set es \<subseteq> set (br_tokens st)"
      using s reclaim_subset(1) [of MAX_LIVE_TOKENS "broker_now E st" "br_tokens st"] Inl
      by (auto simp: store_issue_def Let_def split: if_splits option.splits)
    moreover have "br_tokens st' = es"
      using assms s Inl by (cases err) (auto simp: broker_issue_def Let_def)
    ultimately show ?thesis by (auto simp: digests_def)
  next
    case (Inr x)
    obtain token rec where x: "x = (token, rec)" by fastforce
    have "br_tokens st' = snd (store_revoke token es)"
      using assms s Inr x
      by (auto simp: broker_issue_def Let_def split: prod.splits option.splits dest!: try_audit_keeps)
    then show ?thesis using digests_revoke [of MAX_LIVE_TOKENS] s Inr x by simp
  qed
qed

lemma handle_request_cases:
  assumes "handle_request E EN p ps st = (r, st')"
  obtains (unknown) "catalog_get (br_catalog E) (crq_credential ps) = None" "st' = st" "\<not> is_ok r"
    | (denied) c where "catalog_get (br_catalog E) (crq_credential ps) = Some c"
        "ca_grant (credential_decision_for (br_policy E) (cc_policy_key c)) = GrantDeny"
        "br_tokens st' = br_tokens st" "br_engine st' = br_engine st" "\<not> is_ok r"
    | (allowed) c where "catalog_get (br_catalog E) (crq_credential ps) = Some c"
        "ca_grant (credential_decision_for (br_policy E) (cc_policy_key c)) = GrantAllow"
        "broker_issue E c (crq_ttl ps) (requester_of E p st)
           (ca_policy_id (credential_decision_for (br_policy E) (cc_policy_key c))) None st = (r, st')"
    | (gated) c where "catalog_get (br_catalog E) (crq_credential ps) = Some c"
        "ca_grant (credential_decision_for (br_policy E) (cc_policy_key c)) = GrantRequest"
        "gated_request E EN c ps (requester_of E p st)
           (credential_decision_for (br_policy E) (cc_policy_key c)) st = (r, st')"
proof (cases "catalog_get (br_catalog E) (crq_credential ps)")
  case None
  with assms show thesis by (intro unknown) (auto simp: handle_request_def is_ok_def)
next
  case (Some c)
  show thesis
  proof (cases "ca_grant (credential_decision_for (br_policy E) (cc_policy_key c))")
    case GrantAllow
    with assms Some show thesis by (intro allowed [of c]) (auto simp: handle_request_def Let_def)
  next
    case GrantDeny
    with assms Some show thesis by (intro denied [of c]) (auto simp: handle_request_def Let_def is_ok_def)
  next
    case GrantRequest
    with assms Some show thesis by (intro gated [of c]) (auto simp: handle_request_def Let_def)
  qed
qed

lemma gated_cases:
  assumes "gated_request E EN c ps q a st = (r, st')"
  obtains (failed) d where "br_tokens st' = br_tokens st" "br_engine st' = d" "\<not> is_ok r"
      "d = snd (client_candidates EN (cc_id c) (snd (principal q)) (br_engine st)) \<or>
       (\<exists>ids d0. client_candidates EN (cc_id c) (snd (principal q)) (br_engine st) = (Ok ids, d0) \<and>
          (d = snd (spend_first EN ids d0) \<or>
           d = snd (client_create EN (args_of c ps q a) (snd (spend_first EN ids d0)))))"
    | (spent) ids d0 i d1 where
      "client_candidates EN (cc_id c) (snd (principal q)) (br_engine st) = (Ok ids, d0)"
      "spend_first EN ids d0 = (Ok (Some i), d1)"
      "broker_issue E c (crq_ttl ps) q (ca_policy_id a) (Some i) (st\<lparr>br_engine := d1\<rparr>) = (r, st')"
proof -
  obtain x d0 where c: "client_candidates EN (cc_id c) (snd (principal q)) (br_engine st) = (x, d0)" by fastforce
  show thesis
  proof (cases x)
    case (Inl e)
    with assms c show thesis
      by (intro failed [of d0]) (auto simp: gated_request_def upstream_failure_def is_ok_def)
  next
    case (Inr ids)
    obtain y d1 where s: "spend_first EN ids d0 = (y, d1)" by fastforce
    consider e where "y = Err e" | "y = Ok None" | i where "y = Ok (Some i)" by (metis not_None_eq sum.exhaust)
    then show thesis
    proof cases
      case 1
      with assms c s Inr show thesis
        by (intro failed [of d1]) (auto simp: gated_request_def upstream_failure_def is_ok_def)
    next
      case 2
      with assms c s Inr show thesis
        using raise_keeps [of E EN c ps q a "st\<lparr>br_engine := d1\<rparr>"]
        by (intro failed [of "snd (client_create EN (args_of c ps q a) d1)"])
           (auto simp: gated_request_def is_ok_def split: prod.splits)
    next
      case 3
      with assms c s Inr show thesis by (intro spent) (auto simp: gated_request_def)
    qed
  qed
qed

lemma validate_engine [simp]: "br_engine (snd (handle_validate E p c t st)) = br_engine st"
  by (auto simp: handle_validate_def Let_def split: prod.splits presented.splits)

lemma revoke_engine [simp]: "br_engine (snd (handle_revoke E p t st)) = br_engine st"
  by (auto simp: handle_revoke_def Let_def case_prod_beta split: option.splits)

section \<open>Runs of the broker\<close>

text \<open>Any sequence of requests, with what was issued in order; a restart forgets every token.\<close>

inductive broker_run ::
  "broker_env \<Rightarrow> 'd approval_engine \<Rightarrow> 'd broker \<Rightarrow> issue_result list \<Rightarrow> 'd broker \<Rightarrow> bool" for E EN st where
  started: "broker_run E EN st [] st"
| issued: "broker_run E EN st out s \<Longrightarrow> handle_request E EN p ps s = (Ok r, s') \<Longrightarrow> broker_run E EN st (out @ [r]) s'"
| refused: "broker_run E EN st out s \<Longrightarrow> handle_request E EN p ps s = (Err e, s') \<Longrightarrow> broker_run E EN st out s'"
| validated: "broker_run E EN st out s \<Longrightarrow> broker_run E EN st out (snd (handle_validate E p c t s))"
| revoked: "broker_run E EN st out s \<Longrightarrow> broker_run E EN st out (snd (handle_revoke E p t s))"
| restarted: "broker_run E EN st out s \<Longrightarrow> broker_run E EN st out 
    (s\<lparr>event_counter := 0, trail_detached := False, br_tokens := [], br_device_id := None\<rparr>)"

end
