(* ===== verification/Approval_Link.thy ===== *)
theory Approval_Link
  imports Credential_Broker
begin

text \<open>
  The broker and punard together. \<open>approval_service\<close> is what the broker relies on of an approval
  engine: answers only ever move forward, a spent approval stays spent until its identifier is used
  again, and what is spent was approved. \<open>punard_engine\<close> is punard's own handlers of \<open>approvals.list\<close>, \<open>approvals.consume\<close> and
  \<open>approvals.create\<close> behind a socket, with any number of requests of other clients served in between
  and any request or answer lost; it is shown to be such a service. Where nothing is lost and no one
  interferes, an approval that can be spent is found and spent.
\<close>

section \<open>What the broker relies on\<close>

text \<open>
  \<open>reused d d' i\<close> stands for the reuse of the identifier \<open>i\<close> between two states of the service: the laws
  on one question hold as long as its identifier is not given to another.
\<close>

locale approval_service = state_order le
  for le :: "'d \<Rightarrow> 'd \<Rightarrow> bool" +
  fixes EN :: "'d approval_engine"
    and inv :: "'d \<Rightarrow> bool"
    and reused :: "'d \<Rightarrow> 'd \<Rightarrow> string \<Rightarrow> bool"
    and spent :: "'d \<Rightarrow> string \<Rightarrow> bool"
    and asks :: "'d \<Rightarrow> string \<Rightarrow> (string \<times> string) option"
    and approved :: "'d \<Rightarrow> string \<Rightarrow> bool"
  assumes inv_le: "inv d \<Longrightarrow> le d d' \<Longrightarrow> inv d'"
    and list_step: "le d (snd (call_list EN d))"
    and consume_step: "le d (snd (call_consume EN i d))"
    and create_step: "le d (snd (call_create EN ps d))"
    and reused_wider: "inv a \<Longrightarrow> le a b \<Longrightarrow> le b c \<Longrightarrow> le c d \<Longrightarrow> reused b c i \<Longrightarrow> reused a d i"
    and list_asks: "inv d \<Longrightarrow> call_list EN d = (Ok rows, d') \<Longrightarrow> row \<in> set rows \<Longrightarrow>
      asks d' (la_approval_id row) = Some (la_resource row, la_requester_id row)"
    and list_approved: "inv d \<Longrightarrow> call_list EN d = (Ok rows, d') \<Longrightarrow> row \<in> set rows \<Longrightarrow>
      candidate_row cls who row \<Longrightarrow> approved d' (la_approval_id row)"
    and asks_agree: "inv d \<Longrightarrow> le d d' \<Longrightarrow> asks d i = Some x \<Longrightarrow> asks d' i = Some y \<Longrightarrow> y = x \<or> reused d d' i"
    and spent_stays: "inv d \<Longrightarrow> le d d' \<Longrightarrow> spent d i \<Longrightarrow> spent d' i \<or> reused d d' i"
    and approved_unspent: "approved d i \<Longrightarrow> \<not> spent d i"
    and consume_spends: "inv d \<Longrightarrow> call_consume EN i d = (Ok t, d') \<Longrightarrow>
      spent d' i \<and> (\<exists>m x. le d m \<and> le m d' \<and> asks m i = Some x \<and> approved m i)"
begin

lemma spend_step: "le d (snd (spend_first EN is d))"
proof (induction "is" arbitrary: d)
  case (Cons i "is")
  let ?d = "snd (call_consume EN i d)"
  have "le d ?d" by (rule consume_step)
  moreover from this have "le d (snd (spend_first EN is ?d))" using Cons.IH le_trans by blast
  ultimately show ?case by (auto split: prod.splits sum.splits approval_error.splits)
qed (simp add: le_refl)

lemma spend_Some:
  assumes "inv d" "spend_first EN is d = (Ok (Some i), d')"
  shows "i \<in> set is \<and> spent d' i \<and> (\<exists>m x. le d m \<and> le m d' \<and> asks m i = Some x \<and> approved m i)"
  using assms
proof (induction "is" arbitrary: d)
  case (Cons j "is")
  obtain r d1 where c: "call_consume EN j d = (r, d1)" by fastforce
  have s: "inv d1" "le d d1" using inv_le [OF Cons.prems(1)] consume_step [of d j] c by simp_all
  show ?case
  proof (cases r)
    case (Inr t)
    then show ?thesis using Cons.prems c consume_spends [OF Cons.prems(1), of j t d1] by auto
  next
    case (Inl e)
    then have n: "spend_first EN is d1 = (Ok (Some i), d')"
      using Cons.prems(2) c by (auto split: approval_error.splits)
    then show ?thesis using Cons.IH [OF s(1) n] le_trans [OF s(2)] by auto
  qed
qed simp

lemma candidates_step: "le d (snd (client_candidates EN c r d))"
  using list_step [of d] by (auto simp: client_candidates_def split: prod.splits sum.splits)

lemma candidates_ask:
  assumes "inv d" "client_candidates EN c r d = (Ok ids, d')" "i \<in> set ids"
  shows "asks d' i = Some (c, r) \<and> approved d' i"
proof -
  obtain rows where l: "call_list EN d = (Ok rows, d')"
    and ids: "ids = map la_approval_id (filter (candidate_row c r) rows)"
    using assms(2) by (auto simp: client_candidates_def split: prod.splits sum.splits)
  then obtain row where "row \<in> set rows" "candidate_row c r row" "i = la_approval_id row" using assms(3) by auto
  then show ?thesis using list_asks [OF assms(1) l] list_approved [OF assms(1) l] by (auto simp: candidate_row_def)
qed

lemma client_create_step: "le d (snd (client_create EN args d))"
  using create_step [of d "create_params args"] by (auto simp: client_create_def split: prod.splits sum.splits)

lemma request_step: "le (br_engine st) (br_engine (snd (handle_request E EN p ps st)))"
proof -
  obtain r st' where h: "handle_request E EN p ps st = (r, st')" by fastforce
  have "le (br_engine st) (br_engine st')"
    using h
  proof (cases rule: handle_request_cases)
    case (allowed c)
    then show ?thesis using le_refl issue_engine_of [OF allowed(3)] by simp
  next
    case (gated c)
    define q where "q = requester_of E p st"
    define a where "a = credential_decision_for (br_policy E) (cc_policy_key c)"
    have s: "le (br_engine st) d0" "le (br_engine st) (snd (spend_first EN ids d0))"
      "le (br_engine st) (snd (client_create EN args (snd (spend_first EN ids d0))))"
      if "client_candidates EN (cc_id c) (snd (principal q)) (br_engine st) = (x, d0)" for x d0 ids args
    proof -
      show d0: "le (br_engine st) d0"
        using candidates_step [of "br_engine st" "cc_id c" "snd (principal q)"] that by simp
      show d1: "le (br_engine st) (snd (spend_first EN ids d0))" using le_trans [OF d0 spend_step] .
      show "le (br_engine st) (snd (client_create EN args (snd (spend_first EN ids d0))))"
        using le_trans [OF d1 client_create_step] .
    qed
    show ?thesis using gated(3) unfolding q_def [symmetric] a_def [symmetric]
    proof (cases rule: gated_cases)
      case (failed d)
      from failed(4) have "le (br_engine st) d" using candidates_step s by blast
      then show ?thesis using failed(2) by simp
    next
      case (spent ids d0 i d1)
      then show ?thesis using issue_engine_of [OF spent(3)] s(2) [OF spent(1), of ids] by simp
    qed
  qed (use le_refl in auto)
  with h show ?thesis by simp
qed

lemma request_spends:
  assumes "inv (br_engine st)" "handle_request E EN p ps st = (Ok r, st')" "is_approval_id r = Some i"
  shows "\<exists>c l m x. catalog_get (br_catalog E) (crq_credential ps) = Some c \<and>
    le (br_engine st) l \<and> le l m \<and> le m (br_engine st') \<and>
    asks l i = Some (cc_id c, snd (principal (requester_of E p st))) \<and> approved l i \<and>
    asks m i = Some x \<and> approved m i \<and> (asks m i = asks l i \<or> reused l m i) \<and> spent (br_engine st') i"
  using assms(2)
proof (cases rule: handle_request_cases)
  case (allowed c)
  then show ?thesis using assms(3) by (auto elim: issue_Ok)
next
  case (gated c)
  let ?q = "requester_of E p st"
  show ?thesis using gated(3)
  proof (cases rule: gated_cases)
    case (spent ids d0 j d1)
    have j: "j = i" using spent(3) assms(3) by (auto elim: issue_Ok)
    have e: "br_engine st' = d1" using issue_engine_of [OF spent(3)] by simp
    have d0: "le (br_engine st) d0" "inv d0"
      using candidates_step [of "br_engine st" "cc_id c" "snd (principal ?q)"] spent(1) inv_le [OF assms(1)] by simp_all
    from spend_Some [OF d0(2) spent(2)] obtain m x where
      m: "i \<in> set ids" "spent d1 i" "le d0 m" "le m d1" "asks m i = Some x" "approved m i" using j by auto
    have l: "asks d0 i = Some (cc_id c, snd (principal ?q))" "approved d0 i"
      using candidates_ask [OF assms(1) spent(1) m(1)] by simp_all
    have "asks m i = asks d0 i \<or> reused d0 m i" using asks_agree [OF d0(2) m(3) l(1) m(5)] l(1) m(5) by auto
    then show ?thesis using gated(1) d0(1) m e l by blast
  qed (simp add: is_ok_def)
qed (simp_all add: is_ok_def)

lemma run_step: "broker_run E EN st out s \<Longrightarrow> le (br_engine st) (br_engine s)"
proof (induction rule: broker_run.induct)
  case (issued out s p ps r s')
  then show ?case using request_step [of s E p ps] le_trans by fastforce
next
  case (refused out s p ps e s')
  then show ?case using request_step [of s E p ps] le_trans by fastforce
qed (simp_all add: le_refl)

text \<open>What is spent is cited again only after its identifier was given to another question.\<close>

lemma request_respends:
  assumes "inv (br_engine st)" "handle_request E EN p ps st = (Ok r, st')" "is_approval_id r = Some i"
    and "spent (br_engine st) i"
  shows "reused (br_engine st) (br_engine st') i"
proof -
  obtain l m where m: "le (br_engine st) l" "le l m" "le m (br_engine st')" "approved m i"
    using request_spends [OF assms(1-3)] by blast
  have "reused (br_engine st) m i"
    using spent_stays [OF assms(1) le_trans [OF m(1,2)] assms(4)] approved_unspent [OF m(4)] by blast
  then show ?thesis using reused_wider [OF assms(1) le_refl le_trans [OF m(1,2)] m(3)] by blast
qed

lemma run_respends:
  assumes "broker_run E EN st out s" "inv (br_engine st)" "spent (br_engine st) i"
  shows "reused (br_engine st) (br_engine s) i \<or> spent (br_engine s) i \<and> Some i \<notin> is_approval_id ` set out"
  using assms
proof (induction rule: broker_run.induct)
  case (issued out s p ps r s')
  have step: "le (br_engine st) (br_engine s)" "le (br_engine s) (br_engine s')" "inv (br_engine s)"
    using run_step [OF issued.hyps(1)] request_step [of s E p ps] issued.hyps(2) inv_le [OF issued.prems(1)] by auto
  note wider = reused_wider [OF issued.prems(1) le_refl step(1,2)]
    reused_wider [OF issued.prems(1) step(1,2) le_refl]
  have "reused (br_engine s) (br_engine s') i" if "is_approval_id r = Some i" "spent (br_engine s) i"
    using request_respends [OF step(3) issued.hyps(2) that] .
  then show ?case using issued.IH issued.prems spent_stays [OF step(3,2)] wider by (auto simp: image_iff)
next
  case (refused out s p ps e s')
  have step: "le (br_engine st) (br_engine s)" "le (br_engine s) (br_engine s')" "inv (br_engine s)"
    using run_step [OF refused.hyps(1)] request_step [of s E p ps] refused.hyps(2) inv_le [OF refused.prems(1)] by auto
  note wider = reused_wider [OF refused.prems(1) le_refl step(1,2)]
    reused_wider [OF refused.prems(1) step(1,2) le_refl]
  then show ?case using refused.IH refused.prems spent_stays [OF step(3,2)] by blast
qed simp_all

end

section \<open>punard as the approval engine\<close>

text \<open>
  A call opens a connection, sends one line and reads one line. The request may never arrive, or
  the answer may never come back; before a call is served, punard serves any requests of others.
\<close>

datatype link_fault = LfUnreachable | LfProtocol

fun fault_error :: "link_fault \<Rightarrow> approval_error" where
  "fault_error LfUnreachable = Unreachable"
| "fault_error LfProtocol = Protocol"

datatype link_outcome = Delivered | NotSent link_fault | ReplyLost link_fault

record link_env =
  le_daemon :: daemon_env
  le_peer :: peer
  le_others :: "nat \<Rightarrow> request list"
  le_link :: "nat \<Rightarrow> link_outcome"

record punard_link =
  lk_daemon :: daemon
  lk_calls :: nat

definition served :: "link_env \<Rightarrow> punard_link \<Rightarrow> daemon" where
  "served L s = fold (dispatch (le_daemon L)) (le_others L (lk_calls s)) (lk_daemon s)"

definition punard_call ::
  "link_env \<Rightarrow> (daemon \<Rightarrow> (ipc_error, 'a) result \<times> daemon) \<Rightarrow> punard_link
   \<Rightarrow> (approval_error, 'a) result \<times> punard_link" where
  "punard_call L f s =
     (let reached = (\<lambda>d. \<lparr>lk_daemon = d, lk_calls = Suc (lk_calls s)\<rparr>)
      in case le_link L (lk_calls s) of
           NotSent x \<Rightarrow> (Err (fault_error x), reached (served L s))
         | ReplyLost x \<Rightarrow> (Err (fault_error x), reached (snd (f (served L s))))
         | Delivered \<Rightarrow>
             (case f (served L s) of
                (Err e, d) \<Rightarrow> (Err (Refused e), reached d)
              | (Ok v, d) \<Rightarrow> (Ok v, reached d)))"

definition listed_of :: "approval_envelope \<Rightarrow> listed_approval" where
  "listed_of env =
     \<lparr>la_approval_id = env_id env, la_requester_id = rq_id (a_requester (e_approval env)),
      la_resource = a_resource (e_approval env), la_status = Some (approval_status_str (env_status env)),
      la_expires_at = a_expires_at (e_approval env), la_kind = Some (approval_kind_str (e_kind env)),
      la_consumed_at = e_consumed_at env\<rparr>"

definition list_answer :: "daemon_env \<Rightarrow> daemon \<Rightarrow> (ipc_error, listed_approval list) result \<times> daemon" where
  "list_answer E d = (case handle_approvals_list E d of ((envs, _), d1) \<Rightarrow> (Ok (map listed_of envs), d1))"

definition consume_answer :: "daemon_env \<Rightarrow> peer \<Rightarrow> string \<Rightarrow> daemon \<Rightarrow> (ipc_error, string) result \<times> daemon" where
  "consume_answer E p i d =
     (case handle_approvals_consume E p i d of
        (Err e, d1) \<Rightarrow> (Err e, d1) | (Ok (_, consumed_at), d1) \<Rightarrow> (Ok consumed_at, d1))"

definition create_answer ::
  "daemon_env \<Rightarrow> peer \<Rightarrow> approvals_create_params \<Rightarrow> daemon \<Rightarrow> (ipc_error, listed_approval) result \<times> daemon" where
  "create_answer E p ps d =
     (case handle_approvals_create E p ps d of
        (Err e, d1) \<Rightarrow> (Err e, d1) | (Ok env, d1) \<Rightarrow> (Ok (listed_of env), d1))"

definition punard_engine :: "link_env \<Rightarrow> punard_link approval_engine" where
  "punard_engine L =
     \<lparr>call_list = punard_call L (list_answer (le_daemon L)),
      call_consume = (\<lambda>i. punard_call L (consume_answer (le_daemon L) (le_peer L) i)),
      call_create = (\<lambda>ps. punard_call L (create_answer (le_daemon L) (le_peer L) ps))\<rparr>"

lemma answers_dispatch:
  "snd (list_answer E d) = dispatch E ApprovalsList d"
  "snd (consume_answer E p i d) = dispatch E (ApprovalsConsume p i) d"
  "snd (create_answer E p ps d) = dispatch E (ApprovalsCreate p ps) d"
  by (auto simp: list_answer_def consume_answer_def create_answer_def split: prod.splits sum.splits)

lemma run_served: "run (le_daemon L) (lk_daemon s) (served L s)"
proof -
  have "run E d (fold (dispatch E) reqs d)" for E d reqs
    by (induction reqs rule: rev_induct) (auto intro: run.intros)
  then show ?thesis by (simp add: served_def)
qed

lemma run_call:
  assumes "\<And>d. \<exists>req. snd (f d) = dispatch (le_daemon L) req d"
  shows "run (le_daemon L) (lk_daemon s) (lk_daemon (snd (punard_call L f s)))"
proof -
  have "run (le_daemon L) (lk_daemon s) (snd (f (served L s)))"
    using assms [of "served L s"] run_served [of L s] by (metis run.run_step)
  then show ?thesis using run_served [of L s]
    by (auto simp: punard_call_def Let_def split: link_outcome.splits prod.splits sum.splits)
qed

lemma call_Ok:
  assumes "punard_call L f s = (Ok v, s')"
  shows "f (served L s) = (Ok v, lk_daemon s')"
  using assms by (auto simp: punard_call_def Let_def split: link_outcome.splits prod.splits sum.splits)

text \<open>The interface's notions, on the state of punard.\<close>

definition link_le :: "link_env \<Rightarrow> punard_link \<Rightarrow> punard_link \<Rightarrow> bool" where
  "link_le L s s' \<longleftrightarrow> run (le_daemon L) (lk_daemon s) (lk_daemon s')"

definition link_ok :: "punard_link \<Rightarrow> bool" where
  "link_ok s \<longleftrightarrow> gate_ok (lk_daemon s)"

text \<open>Between two states the random device of punard yields the identifier once more.\<close>

definition link_drawn :: "link_env \<Rightarrow> punard_link \<Rightarrow> punard_link \<Rightarrow> string \<Rightarrow> bool" where
  "link_drawn L s s' i \<longleftrightarrow> drawn (le_daemon L) (lk_daemon s) (lk_daemon s') i"

text \<open>Nothing under this identifier can be spent: the record is marked spent, or is not there.\<close>

definition link_spent :: "punard_link \<Rightarrow> string \<Rightarrow> bool" where
  "link_spent s i \<longleftrightarrow>
     (case bt_get (records (lk_daemon s)) i of None \<Rightarrow> True | Some e \<Rightarrow> e_consumed_at e \<noteq> None)"

definition link_asks :: "punard_link \<Rightarrow> string \<Rightarrow> (string \<times> string) option" where
  "link_asks s i = map_option (\<lambda>e. (a_resource (e_approval e), rq_id (a_requester (e_approval e))))
     (bt_get (records (lk_daemon s)) i)"

definition link_approved :: "punard_link \<Rightarrow> string \<Rightarrow> bool" where
  "link_approved s i \<longleftrightarrow> (\<exists>e b. bt_get (records (lk_daemon s)) i = Some e \<and> e_kind e = CredentialRequest \<and>
     env_status e = Approved \<and> e_consumed_at e = None \<and> e_resolved_by e = Some b)"

lemma link_ok_run: "link_ok s \<Longrightarrow> link_le L s s' \<Longrightarrow> link_ok s'"
  using run_moves by (auto simp: link_ok_def link_le_def)

lemma link_drawn_wider:
  assumes "link_ok a" "link_le L a b" "link_le L b c" "link_le L c d" "link_drawn L b c i"
  shows "link_drawn L a d i"
proof -
  have "link_ok b" "link_ok c" using link_ok_run assms(1-3) by blast+
  then have "ticks (lk_daemon a) \<le> ticks (lk_daemon b)" "ticks (lk_daemon c) \<le> ticks (lk_daemon d)"
    using assms(1,2,4) run_moves unfolding link_ok_def link_le_def by blast+
  then show ?thesis using assms(5) drawn_mono unfolding link_drawn_def by blast
qed

lemma question_keeps [simp]:
  "a_resource (e_approval (question_of e)) = a_resource (e_approval e)"
  "a_requester (e_approval (question_of e)) = a_requester (e_approval e)"
  by (simp_all add: question_of_def set_status_def)

lemma question_fields:
  "question_of e = question_of e' \<Longrightarrow>
   a_resource (e_approval e) = a_resource (e_approval e') \<and> a_requester (e_approval e) = a_requester (e_approval e')"
  by (metis question_keeps)

lemma link_spent_stays:
  assumes "link_ok s" "link_le L s s'" "link_spent s i"
  shows "link_spent s' i \<or> link_drawn L s s' i"
proof (cases "link_drawn L s s' i")
  case False
  then have q: "life_le (life_of (lk_daemon s) i) (life_of (lk_daemon s') i)"
    using run_question assms(1,2) by (auto simp: link_ok_def link_le_def link_drawn_def)
  have "e_consumed_at e' \<noteq> None" if e': "bt_get (records (lk_daemon s')) i = Some e'" for e'
  proof -
    obtain e where e: "bt_get (records (lk_daemon s)) i = Some e" "phase_le (phase_of e) (phase_of e')"
      using q e' by (auto simp: life_le_def life_of_def)
    obtain t where t: "e_consumed_at e = Some t" using assms(3) e(1) by (auto simp: link_spent_def)
    moreover have "envelope_ok e" using assms(1) e(1) by (auto simp: link_ok_def gate_ok_def)
    ultimately have "phase_of e' = phase_of e"
      using e(2) by (auto simp: envelope_ok_def phase_of_def Let_def)
    then show ?thesis using t \<open>envelope_ok e\<close>
      by (auto simp: envelope_ok_def phase_of_def Let_def split: approval_status.splits option.splits)
  qed
  then show ?thesis by (auto simp: link_spent_def split: option.splits)
qed simp

lemma link_asks_agree:
  assumes "link_ok s" "link_le L s s'" "link_asks s i = Some x" "link_asks s' i = Some y"
  shows "y = x \<or> link_drawn L s s' i"
proof (cases "link_drawn L s s' i")
  case False
  obtain e e' where e: "bt_get (records (lk_daemon s)) i = Some e" "bt_get (records (lk_daemon s')) i = Some e'"
    "x = (a_resource (e_approval e), rq_id (a_requester (e_approval e)))"
    "y = (a_resource (e_approval e'), rq_id (a_requester (e_approval e')))"
    using assms(3,4) by (auto simp: link_asks_def)
  have "life_le (life_of (lk_daemon s) i) (life_of (lk_daemon s') i)"
    using run_question assms(1,2) False by (auto simp: link_ok_def link_le_def link_drawn_def)
  then have "question_of e' = question_of e" using e(1,2) by (auto simp: life_le_def life_of_def)
  then show ?thesis using question_fields e(3,4) by metis
qed simp

lemma link_consume_Ok:
  assumes "link_ok s" "call_consume (punard_engine L) i s = (Ok t, s')"
  shows "link_spent s' i \<and>
    (\<exists>m x. link_le L s m \<and> link_le L m s' \<and> link_asks m i = Some x \<and> link_approved m i)"
proof -
  let ?E = "le_daemon L" and ?d = "served L s" and ?m = "\<lparr>lk_daemon = served L s, lk_calls = lk_calls s\<rparr>"
  have h: "consume_answer ?E (le_peer L) i ?d = (Ok t, lk_daemon s')"
    by (rule call_Ok) (use assms(2) in \<open>simp add: punard_engine_def\<close>)
  then obtain c where c: "handle_approvals_consume ?E (le_peer L) i ?d = (Ok (c, t), lk_daemon s')"
    by (auto simp: consume_answer_def split: prod.splits sum.splits)
  have r1: "run ?E (lk_daemon s) ?d" by (rule run_served)
  have r2: "run ?E ?d (lk_daemon s')"
    using run.run_step [OF run.run_refl, of ?E ?d "ApprovalsConsume (le_peer L) i"] c by simp
  have m: "link_ok ?m" using link_ok_run [OF assms(1), of L ?m] r1 by (simp add: link_le_def)
  then have ok: "store_ok ?d" by (simp add: link_ok_def gate_ok_def daemon_ok_def)
  obtain env st2 where env: "bt_get (records (sweep_approvals ?E ?d)) i = Some env" "e_kind env = CredentialRequest"
    "env_status env = Approved" "e_consumed_at env = None" "c = env\<lparr>e_consumed_at := Some t\<rparr>"
    "put ?E c (sweep_approvals ?E ?d) = (Ok (), st2)" "records (lk_daemon s') = records st2"
    using c by (rule consume_Ok)
  have d: "bt_get (records ?d) i = Some env"
    using swept_pending [OF sweep_approvals_spec(2) [OF ok] env(1)] env(3) by simp
  have "link_approved ?m i"
    using m d env(2-4) by (auto simp: link_approved_def link_ok_def gate_ok_def envelope_ok_def)
  moreover have "\<exists>x. link_asks ?m i = Some x" using d by (simp add: link_asks_def)
  moreover have "link_spent s' i"
  proof -
    have "env_id c = i" using store_ok_id [OF sweep_approvals_spec(1) [OF ok] env(1)] env(5) by (simp add: env_id_def)
    from put_by_key [OF sweep_approvals_spec(1) [OF ok] this, of ?E ?E] env(6,7)
    have "bt_get (records (lk_daemon s')) i = Some c \<or> bt_get (records (lk_daemon s')) i = None" by auto
    then show ?thesis using env(5) by (auto simp: link_spent_def)
  qed
  ultimately show ?thesis using r1 r2 by (auto simp: link_le_def intro!: exI [of _ ?m])
qed

lemma link_list:
  assumes "link_ok s" "call_list (punard_engine L) s = (Ok rows, s')" "row \<in> set rows"
  shows "link_asks s' (la_approval_id row) = Some (la_resource row, la_requester_id row)"
    and "candidate_row c r row \<Longrightarrow> link_approved s' (la_approval_id row)"
proof -
  let ?d = "served L s"
  have "list_answer (le_daemon L) ?d = (Ok rows, lk_daemon s')"
    by (rule call_Ok) (use assms(2) in \<open>simp add: punard_engine_def\<close>)
  then have d: "lk_daemon s' = sweep_approvals (le_daemon L) ?d" and rows: "rows = map listed_of (store_list (lk_daemon s'))"
    by (auto simp: list_answer_def handle_approvals_list_def Let_def)
  have g: "gate_ok (lk_daemon s')"
    using link_ok_run [OF assms(1), of L s'] run.run_step [OF run_served, of L s ApprovalsList] d
    by (simp add: handle_approvals_list_def Let_def link_le_def link_ok_def)
  then have ok: "store_ok (lk_daemon s')" by (simp add: gate_ok_def daemon_ok_def)
  obtain e where e: "e \<in> set (bt_values (records (lk_daemon s')))" "row = listed_of e"
    using assms(3) rows by (auto simp: store_list_def)
  then obtain k where k: "bt_get (records (lk_daemon s')) k = Some e"
    using bt_values_iff [OF store_ok_bt(1) [OF ok]] by blast
  have i: "la_approval_id row = k" using store_ok_id [OF ok k] e(2) by (simp add: listed_of_def)
  show "link_asks s' (la_approval_id row) = Some (la_resource row, la_requester_id row)"
    using i k e(2) by (simp add: link_asks_def listed_of_def)
  assume "candidate_row c r row"
  then have "e_kind e = CredentialRequest" "env_status e = Approved" "e_consumed_at e = None"
    using e(2) by (cases "e_kind e"; cases "env_status e"; simp add: candidate_row_def listed_of_def)+
  then show "link_approved s' (la_approval_id row)"
    using g k i by (auto simp: link_approved_def gate_ok_def envelope_ok_def)
qed

lemma link_approved_unspent: "link_approved s i \<Longrightarrow> \<not> link_spent s i"
  by (auto simp: link_approved_def link_spent_def)

lemma link_steps:
  "link_le L s (snd (call_list (punard_engine L) s))"
  "link_le L s (snd (call_consume (punard_engine L) i s))"
  "link_le L s (snd (call_create (punard_engine L) ps s))"
  unfolding link_le_def punard_engine_def
  by (simp_all, (rule run_call, metis answers_dispatch)+)

interpretation pd: approval_service "link_le L" "punard_engine L" link_ok "link_drawn L" link_spent link_asks link_approved
  for L
proof unfold_locales
  show "link_le L s s" for s by (simp add: link_le_def run.run_refl)
  show "link_le L a c" if "link_le L a b" "link_le L b c" for a b c
    using that run_trans by (auto simp: link_le_def)
qed (fact link_steps link_ok_run link_drawn_wider link_list link_asks_agree link_spent_stays link_approved_unspent
    link_consume_Ok)+

section \<open>When nothing is in the way\<close>

lemma evict_loop_disk: "\<forall>t. env_disk E t \<Longrightarrow> fst (evict_loop E n st)"
  by (induction n arbitrary: st) (auto simp: remove_synced_def split: option.splits)

lemma put_disk:
  assumes "\<forall>t. env_disk E t"
  shows "validate_approval_schema (e_approval env) = Ok () \<Longrightarrow>
      length (ser_envelope E env) \<le> APPROVAL_RECORD_MAX_BYTES \<Longrightarrow> fst (put E env st) = Ok ()"
    and "put E env st = (Err e, st') \<Longrightarrow> st' = st"
  using assms
  by (auto simp: put_def write_atomic_synced_def evict_if_needed_def write_index_def Let_def
      split: sum.splits prod.splits if_splits bool.splits) (metis fst_conv evict_loop_disk [OF assms])+

text \<open>A store inside its bound evicts nothing, so sweeping it only expires.\<close>

lemma bt_insert_present: "bt_ok m \<Longrightarrow> bt_get m k \<noteq> None \<Longrightarrow> length (bt_insert k v m) = length m"
  by (induction k v m rule: bt_insert.induct) (auto simp: bt_ok_Cons bt_get_def split: if_splits dest!: map_of_SomeD)

lemma put_within:
  assumes "bt_get (records st) (env_id env) \<noteq> None" "bt_ok (records st)" "length (records st) \<le> MAX_APPROVAL_RECORDS"
  shows "records (snd (put E env st)) \<in> {records st, bt_insert (env_id env) env (records st)}"
proof -
  have "length (bt_insert (env_id env) env (records st)) \<le> MAX_APPROVAL_RECORDS"
    using assms by (simp add: bt_insert_present)
  then have "evict_loop E n (tick (st\<lparr>rec_files := f, records := bt_insert (env_id env) env (records st)\<rparr>)) =
      (True, tick (st\<lparr>rec_files := f, records := bt_insert (env_id env) env (records st)\<rparr>))" for n f
    by (cases n) simp_all
  then show ?thesis
    by (simp add: put_def write_atomic_synced_def evict_if_needed_def write_index_def Let_def split: sum.split)
qed

lemma sweep_within:
  assumes "store_ok (snd acc)" "length (records (snd acc)) \<le> MAX_APPROVAL_RECORDS"
  shows "store_ok (snd (fold (sweep_step E) ids acc)) \<and>
    length (records (snd (fold (sweep_step E) ids acc))) = length (records (snd acc)) \<and>
    (k \<notin> set ids \<longrightarrow> bt_get (records (snd (fold (sweep_step E) ids acc))) k = bt_get (records (snd acc)) k)"
  using assms
proof (induction ids arbitrary: acc)
  case (Cons i ids)
  let ?st = "snd acc"
  have ok: "bt_ok (records ?st)" using Cons.prems(1) by (simp add: store_ok_def)
  have "store_ok (snd (sweep_step E i acc)) \<and> length (records (snd (sweep_step E i acc))) = length (records ?st) \<and>
      (k \<noteq> i \<longrightarrow> bt_get (records (snd (sweep_step E i acc))) k = bt_get (records ?st) k)"
  proof (cases "bt_get (records ?st) i")
    case None
    then show ?thesis using Cons.prems(1) by (simp add: sweep_step_def)
  next
    case (Some e)
    have i: "env_id e = i" using Cons.prems(1) Some by (simp add: store_ok_def)
    let ?p = "snd (put E (set_status Expired e) ?st)"
    have "records ?p \<in> {records ?st, bt_insert i (set_status Expired e) (records ?st)}"
      using put_within [of ?st "set_status Expired e" E] Some ok Cons.prems(2) i by simp
    then have "length (records ?p) = length (records ?st)" "k \<noteq> i \<longrightarrow> bt_get (records ?p) k = bt_get (records ?st) k"
      using ok Some by (auto simp: bt_insert_present bt_get_insert)
    moreover have "snd (sweep_step E i acc) = ?p"
      using sweep_step_simp [OF Some, of E "fst acc"] by simp
    ultimately show ?thesis using put_store_ok [OF Cons.prems(1)] by simp
  qed
  with Cons.IH [of "sweep_step E i acc"] Cons.prems(2) show ?case by simp
qed simp

lemma sweep_approvals_records: "records (sweep_approvals E st) = records (snd (sweep E (now_secs E st) st))"
proof -
  obtain ex st1 where sw: "sweep E (now_secs E st) st = (ex, st1)" by fastforce
  define st2 where "st2 = fold (log_expired_approval E) ex st1"
  obtain gone st3 where sg: "sweep_grants E (now_secs E st) st2 = (gone, st3)" by fastforce
  have "records (fold (log_expired_grant E) gone st3) = records st1"
    using audit_frame_fields(1) [OF fold_log_frame(1) [of st1 E ex], folded st2_def]
      grant_frame_fields(1) [OF sweep_grants_frame [of st2 E "now_secs E st"]]
      audit_frame_fields(1) [OF fold_log_frame(2) [of st3 E gone]] sg by simp
  then show ?thesis
    by (auto simp: sweep_approvals_def Let_def sw sg st2_def [symmetric])
qed

lemma sweep_approvals_within:
  assumes "store_ok st" "length (records st) \<le> MAX_APPROVAL_RECORDS"
  shows "length (records (sweep_approvals E st)) \<le> MAX_APPROVAL_RECORDS"
    and "bt_get (records st) k = Some e \<Longrightarrow> env_status e \<noteq> Pending \<Longrightarrow> bt_get (records (sweep_approvals E st)) k = Some e"
proof -
  let ?now = "now_secs E st"
  note w = sweep_within [of "([], st)", simplified, OF assms]
  show "length (records (sweep_approvals E st)) \<le> MAX_APPROVAL_RECORDS"
    using w [of E "lapsed_ids st ?now"] assms(2) by (simp add: sweep_approvals_records sweep_def)
  assume e: "bt_get (records st) k = Some e" "env_status e \<noteq> Pending"
  then have "k \<notin> set (lapsed_ids st ?now)" using lapsed_ids_props(2) [OF assms(1)] by fastforce
  with w [of E "lapsed_ids st ?now" k] e(1) show "bt_get (records (sweep_approvals E st)) k = Some e"
    by (simp add: sweep_approvals_records sweep_def)
qed

lemma consume_disk:
  assumes "\<forall>t. env_disk E t" "peer_uid p = 0" "handle_approvals_consume E p i st = (Err e, st')"
  shows "st' = sweep_approvals E st"
  using assms(2,3)
  by (auto simp: handle_approvals_consume_def Let_def dest: put_disk(2) [OF assms(1)]
      split: sum.splits prod.splits option.splits if_splits)

lemma consume_possible:
  assumes "\<forall>t. env_disk E t" "peer_uid p = 0" "store_ok st" "bt_get (records st) i = Some e"
    "length (records st) \<le> MAX_APPROVAL_RECORDS"
    "e_kind e = CredentialRequest" "env_status e = Approved" "e_consumed_at e = None"
    "\<forall>s :: daemon. \<not> has_lapsed e (now_secs E s)"
    "\<forall>t. length (ser_envelope E (e\<lparr>e_consumed_at := t\<rparr>)) \<le> APPROVAL_RECORD_MAX_BYTES"
  shows "is_ok (fst (handle_approvals_consume E p i st))"
proof -
  let ?s = "sweep_approvals E st"
  let ?c = "e\<lparr>e_consumed_at := Some (utc_now_rfc3339 E ?s)\<rparr>"
  have g: "bt_get (records ?s) i = Some e"
    using sweep_approvals_within(2) [OF assms(3,5,4)] assms(7) by simp
  have "fst (put E ?c ?s) = Ok ()"
    using assms(3,4,10) by (intro put_disk(1) [OF assms(1)]) (auto simp: store_ok_def)
  then show ?thesis
    using g assms by (simp add: handle_approvals_consume_def Let_def store_get_def is_ok_def case_prod_beta
        split: sum.splits)
qed

text \<open>A link that delivers every call at once, to a punard whose disk works.\<close>

definition quiet_link :: "link_env \<Rightarrow> bool" where
  "quiet_link L \<longleftrightarrow> (\<forall>k. le_link L k = Delivered \<and> le_others L k = []) \<and> peer_uid (le_peer L) = 0 \<and>
     (\<forall>t. env_disk (le_daemon L) t)"

text \<open>An approval that can be spent now, and for the rest of the request.\<close>

definition spendable :: "link_env \<Rightarrow> string \<Rightarrow> string \<Rightarrow> string \<Rightarrow> punard_link \<Rightarrow> bool" where
  "spendable L i resource requester s \<longleftrightarrow>
     store_ok (lk_daemon s) \<and> length (records (lk_daemon s)) \<le> MAX_APPROVAL_RECORDS \<and>
     (\<exists>e. bt_get (records (lk_daemon s)) i = Some e \<and> e_kind e = CredentialRequest \<and>
        env_status e = Approved \<and> e_consumed_at e = None \<and> a_resource (e_approval e) = resource \<and>
        rq_id (a_requester (e_approval e)) = requester \<and> (\<forall>d :: daemon. \<not> has_lapsed e (now_secs (le_daemon L) d)) \<and>
        (\<forall>t. length (ser_envelope (le_daemon L) (e\<lparr>e_consumed_at := t\<rparr>)) \<le> APPROVAL_RECORD_MAX_BYTES))"

lemma served_quiet: "quiet_link L \<Longrightarrow> served L s = lk_daemon s"
  by (simp add: served_def quiet_link_def)

lemma spendable_swept:
  assumes "spendable L i resource requester s"
  shows "spendable L i resource requester \<lparr>lk_daemon = sweep_approvals (le_daemon L) (lk_daemon s), lk_calls = k\<rparr>"
proof -
  have ok: "store_ok (lk_daemon s)" "length (records (lk_daemon s)) \<le> MAX_APPROVAL_RECORDS"
    using assms by (simp_all add: spendable_def)
  from assms sweep_approvals_spec(1) [OF ok(1), of "le_daemon L"] sweep_approvals_within [where E = "le_daemon L", OF ok]
  show ?thesis unfolding spendable_def by fastforce
qed

lemma spend_finds:
  assumes "quiet_link L" "spendable L i resource requester d" "i \<in> set ids"
  shows "\<exists>j d'. spend_first (punard_engine L) ids d = (Ok (Some j), d')"
  using assms(2,3)
proof (induction ids arbitrary: d)
  case (Cons j ids)
  let ?E = "le_daemon L"
  let ?h = "handle_approvals_consume ?E (le_peer L) j (lk_daemon d)"
  have q: "\<forall>t. env_disk ?E t" "peer_uid (le_peer L) = 0" "le_link L k = Delivered" for k
    using assms(1) by (auto simp: quiet_link_def)
  show ?case
  proof (cases "fst ?h")
    case (Inr v)
    then show ?thesis
      by (cases ?h; cases v) (auto simp: punard_engine_def punard_call_def q(3) served_quiet [OF assms(1)] consume_answer_def)
  next
    case (Inl e)
    then have st: "?h = (Err e, sweep_approvals ?E (lk_daemon d))"
      using consume_disk [OF q(1,2)] by (metis prod.collapse)
    have "j \<noteq> i"
    proof
      assume "j = i"
      then have "is_ok (fst ?h)"
        using Cons.prems(1) by (auto simp: spendable_def intro!: consume_possible [OF q(1,2)])
      then show False by (simp add: Inl is_ok_def)
    qed
    then have "i \<in> set ids" using Cons.prems(2) by simp
    from Cons.IH [OF spendable_swept [OF Cons.prems(1)] this] st show ?thesis
      by (simp add: punard_engine_def punard_call_def q(3) served_quiet [OF assms(1)] consume_answer_def)
  qed
qed simp

lemma candidates_find:
  assumes "quiet_link L" "spendable L i resource requester d"
  shows "\<exists>ids d'. client_candidates (punard_engine L) resource requester d = (Ok ids, d') \<and>
    spendable L i resource requester d' \<and> i \<in> set ids"
proof -
  let ?s = "sweep_approvals (le_daemon L) (lk_daemon d)"
  let ?d = "\<lparr>lk_daemon = ?s, lk_calls = Suc (lk_calls d)\<rparr>"
  have sp: "spendable L i resource requester ?d" by (rule spendable_swept [OF assms(2)])
  then obtain e where e: "bt_get (records ?s) i = Some e" "e_kind e = CredentialRequest" "env_status e = Approved"
    "e_consumed_at e = None" "a_resource (e_approval e) = resource" "rq_id (a_requester (e_approval e)) = requester"
    and ok: "store_ok ?s" by (auto simp: spendable_def)
  have "e \<in> set (store_list ?s)"
    using e(1,3) by (auto simp: store_list_def sort_desc_def bt_values_def bt_get_def dest!: map_of_SomeD intro: rev_image_eqI)
  moreover have "candidate_row resource requester (listed_of e)" "la_approval_id (listed_of e) = i"
    using ok e by (auto simp: candidate_row_def listed_of_def store_ok_def)
  ultimately have "i \<in> set (map la_approval_id (filter (candidate_row resource requester) (map listed_of (store_list ?s))))"
    by force
  moreover have "call_list (punard_engine L) d = (Ok (map listed_of (store_list ?s)), ?d)"
    using assms(1)
    by (simp add: punard_engine_def punard_call_def served_quiet list_answer_def handle_approvals_list_def
        quiet_link_def served_def Let_def)
  ultimately show ?thesis using sp by (simp add: client_candidates_def)
qed

end
