(* ===== verification/Credential_Gate.thy ===== *)
theory Credential_Gate
  imports Approval_Link
begin

text \<open>
  The broker in front of punard. The properties follow a token back to the person who approved it:
  a token of a class that needs approval spends an approval a person gave, each approval at most
  once; a request that fails leaves no token behind; and an approval that was given does get its
  requester a token when nothing is in the way.
\<close>

section \<open>Lemmas on single requests\<close>

lemma request_gated_Ok:
  assumes "handle_request E EN p ps st = (Ok r, st')" "catalog_get (br_catalog E) (crq_credential ps) = Some c"
    and "ca_grant (credential_decision_for (br_policy E) (cc_policy_key c)) = GrantRequest"
  obtains ids d0 i d1 where
    "client_candidates EN (cc_id c) (snd (principal (requester_of E p st))) (br_engine st) = (Ok ids, d0)"
    "spend_first EN ids d0 = (Ok (Some i), d1)" "is_approval_id r = Some i"
    "broker_issue E c (crq_ttl ps) (requester_of E p st)
       (ca_policy_id (credential_decision_for (br_policy E) (cc_policy_key c))) (Some i) (st\<lparr>br_engine := d1\<rparr>) = (Ok r, st')"
  using assms(1)
proof (cases rule: handle_request_cases)
  case (gated c')
  then have c: "c' = c" using assms(2) by simp
  from gated(3) show thesis unfolding c
  proof (cases rule: gated_cases)
    case (spent ids d0 i d1)
    then show thesis using that by (auto elim: issue_Ok)
  qed (simp add: is_ok_def)
qed (use assms in \<open>simp_all add: is_ok_def\<close>)

lemma spend_first_Ok:
  "spend_first EN ids d = (Ok (Some i), d') \<Longrightarrow> \<exists>d0 t. call_consume EN i d0 = (Ok t, d')"
  by (induction ids arbitrary: d) (auto split: prod.splits sum.splits approval_error.splits)

lemma try_audit_Some:
  assumes "try_audit E actor action resource dec res ps st = (Some i, st')"
  shows "\<exists>ev before. trail_live st' = before @ ser_event E ev @ [CHR 0x0A] \<and> ev_event_id ev = i \<and>
    ev_action ev = action \<and> ev_resource ev = Some resource \<and> ev_decision ev = dec \<and> ev_result ev = res \<and>
    ev_policy_ids ev = ps \<and> ev_user_id ev = Some (aa_user_id actor)"
proof -
  obtain ev st1 where ev: "broker_event E actor action resource dec res ps st = (ev, st1)" by fastforce
  then have "append_event E ev st1 = (Ok (), st')" "ev_event_id ev = i"
    using assms by (auto simp: try_audit_def write_event_def is_ok_def split: prod.splits if_splits sum.splits)
  moreover from this(1) have "\<exists>before. trail_live st' = before @ ser_event E ev @ [CHR 0x0A]"
    by (auto simp: append_event_def tick_def Let_def split: sum.splits option.splits prod.splits bool.splits)
  ultimately show ?thesis
    using ev by (auto simp: broker_event_def split: prod.splits)
qed

lemma append_ignores_tokens:
  "append_event E e (st\<lparr>br_tokens := x\<rparr>) = apsnd (\<lambda>s. s\<lparr>br_tokens := x\<rparr>) (append_event E e st)"
  by (simp add: append_event_def rotate_if_needed_def tick_def Let_def split: sum.split option.split rotation.split)

lemma event_ignores_tokens:
  "broker_event E actor action resource dec res ps (st\<lparr>br_tokens := x\<rparr>) =
   apsnd (\<lambda>s. s\<lparr>br_tokens := x\<rparr>) (broker_event E actor action resource dec res ps st)"
  by (simp add: broker_event_def next_event_id_def broker_device_id_def unix_now_millis_def utc_now_rfc3339_def
      split: option.split)

lemma audit_ignores_tokens:
  "fst (try_audit E actor action resource dec res ps (st\<lparr>br_tokens := x\<rparr>)) =
   fst (try_audit E actor action resource dec res ps st)"
  by (simp add: try_audit_def write_event_def event_ignores_tokens append_ignores_tokens apsnd_def map_prod_def
      case_prod_beta)

section \<open>When nothing is in the way\<close>

lemma broker_event_valid:
  assumes "actor_ok actor" "br_device_id st = Some dev" "prefixed_id ''dev_'' dev" "action_pattern_ok action"
    "resource \<noteq> []" "res \<noteq> []" "[] \<notin> set ps" "env_clock E (ticks st) div 1000 < 253402300800"
  shows "event_violations (fst (broker_event E actor action resource dec res ps st)) = []"
proof -
  have "prefixed_id ''agt_'' (unwrap_or (aa_agent_session_id actor) AGENT_SESSION_NONE)"
  proof (cases "aa_agent_session_id actor")
    case None
    moreover have "prefixed_id ''agt_'' ''agt_none''" by code_simp
    ultimately show ?thesis by (simp add: AGENT_SESSION_NONE_def)
  qed (use assms(1) in \<open>simp add: actor_ok_def\<close>)
  moreover have "is_rfc3339_timestamp (utc_now_rfc3339 E st)"
    unfolding utc_now_rfc3339_def by (rule stamp_inverse(2) [OF assms(8)])
  moreover have "filter (\<lambda>p. p = []) ps = []" using assms(7) by (auto simp: filter_empty_conv)
  moreover have "br_device_id (snd (next_event_id E st)) = Some dev"
    using assms(2) by (simp add: next_event_id_def)
  ultimately show ?thesis
    using assms event_id_shape [of E st]
    by (simp add: broker_event_def broker_device_id_def event_violations_def actor_ok_def case_prod_unfold Let_def
        PROJECT_ID_SYSTEM_def)
qed

text \<open>The trail takes every line, the clock is before the year 10000 and the device has its name.\<close>

definition broker_ready :: "broker_env \<Rightarrow> 'd broker \<Rightarrow> bool" where
  "broker_ready E st \<longleftrightarrow>
     (\<forall>t. env_append E t = None \<and> env_rotate E t = Rotated \<and> env_clock E t div 1000 < 253402300800) \<and>
     (\<exists>dev. br_device_id st = Some dev \<and> prefixed_id ''dev_'' dev)"

lemma try_audit_ready:
  assumes "broker_ready E st" "actor_ok actor" "action_pattern_ok action" "resource \<noteq> []" "res \<noteq> []" "[] \<notin> set ps"
  shows "\<exists>i st'. try_audit E actor action resource dec res ps st = (Some i, st')"
proof -
  obtain dev where "br_device_id st = Some dev" "prefixed_id ''dev_'' dev" "env_clock E (ticks st) div 1000 < 253402300800"
    using assms(1) by (auto simp: broker_ready_def)
  then have "event_violations (fst (broker_event E actor action resource dec res ps st)) = []"
    using assms(2-6) by (intro broker_event_valid)
  moreover have "fst (append_event E e s) = Ok ()" if "event_violations e = []" for e and s :: "'a broker"
    using that assms(1)
    by (simp add: append_event_def validate_event_schema_def rotate_if_needed_def broker_ready_def Let_def)
  ultimately show ?thesis by (simp add: try_audit_def write_event_def case_prod_beta is_ok_def)
qed

lemma issue_ready:
  assumes "broker_ready E st" "actor_ok (q_actor q)" "pid \<noteq> []" "cc_id c \<noteq> []" "issuable c"
    and "env_urandom E (ticks st) TOKEN_ENTROPY_BYTES \<noteq> None"
    and "length (reclaim MAX_LIVE_TOKENS (broker_now E st) (br_tokens st)) < MAX_LIVE_TOKENS"
  shows "\<exists>r st'. broker_issue E c ttl q pid aid st = (Ok r, st') \<and> is_approval_id r = aid"
proof -
  have "0 < effective_ttl c ttl"
    using effective_ttl_bounds(2) [of c ttl] assms(5) by (auto simp: issuable_def TTL_MIN_SECS_def)
  then obtain token rec es where i: "store_issue MAX_LIVE_TOKENS (broker_entropy E st) c (effective_ttl c ttl) (q_uid q)
      (q_agent_session_id q) (broker_now E st) (br_tokens st) = (Ok (token, rec), es)"
    using assms(5-7) by (auto simp: store_issue_def broker_entropy_def Let_def)
  have "broker_ready E (tick (st\<lparr>br_tokens := es\<rparr>))" using assms(1) by (simp add: broker_ready_def tick_def)
  moreover have "action_pattern_ok ACTION_CREDENTIAL_REQUEST" by code_simp
  ultimately obtain ev st' where "try_audit E (q_actor q) ACTION_CREDENTIAL_REQUEST (cc_id c) Allow ''issued'' [pid]
      (tick (st\<lparr>br_tokens := es\<rparr>)) = (Some ev, st')"
    using try_audit_ready [of E "tick (st\<lparr>br_tokens := es\<rparr>)" "q_actor q" ACTION_CREDENTIAL_REQUEST "cc_id c"
        "''issued''" "[pid]" Allow] assms(2-4) by auto
  with i show ?thesis by (simp add: broker_issue_def Let_def)
qed

lemma request_served:
  assumes "quiet_link L" "spendable L i (cc_id c) (snd (principal (requester_of E p st))) (br_engine st)"
    and "catalog_get (br_catalog E) (crq_credential ps) = Some c" "cc_id c \<noteq> []" "issuable c"
    and "ca_grant (credential_decision_for (br_policy E) (cc_policy_key c)) = GrantRequest"
    and "ca_policy_id (credential_decision_for (br_policy E) (cc_policy_key c)) \<noteq> []"
    and "broker_ready E st" "actor_ok (q_actor (requester_of E p st))"
    and "env_urandom E (ticks st) TOKEN_ENTROPY_BYTES \<noteq> None"
    and "length (reclaim MAX_LIVE_TOKENS (broker_now E st) (br_tokens st)) < MAX_LIVE_TOKENS"
  shows "\<exists>r st' j. handle_request E (punard_engine L) p ps st = (Ok r, st') \<and> is_approval_id r = Some j"
proof -
  let ?q = "requester_of E p st" and ?a = "credential_decision_for (br_policy E) (cc_policy_key c)"
  obtain ids d0 where c: "client_candidates (punard_engine L) (cc_id c) (snd (principal ?q)) (br_engine st) = (Ok ids, d0)"
    "spendable L i (cc_id c) (snd (principal ?q)) d0" "i \<in> set ids"
    using candidates_find [OF assms(1,2)] by blast
  obtain j d1 where s: "spend_first (punard_engine L) ids d0 = (Ok (Some j), d1)"
    using spend_finds [OF assms(1) c(2,3)] by blast
  have "broker_ready E (st\<lparr>br_engine := d1\<rparr>)" using assms(8) by (simp add: broker_ready_def)
  moreover have "broker_now E (st\<lparr>br_engine := d1\<rparr>) = broker_now E st"
    by (simp add: broker_now_def unix_now_millis_def)
  ultimately obtain r st' where "broker_issue E c (crq_ttl ps) ?q (ca_policy_id ?a) (Some j) (st\<lparr>br_engine := d1\<rparr>) = (Ok r, st')"
    "is_approval_id r = Some j"
    using issue_ready [of E "st\<lparr>br_engine := d1\<rparr>" ?q "ca_policy_id ?a" c "crq_ttl ps" "Some j"] assms(4,5,7,9-11) by auto
  then show ?thesis using assms(3,6) c(1) s by (simp add: handle_request_def gated_request_def Let_def)
qed

text \<open>The lifetime asked for decides nothing but the lifetime.\<close>

lemma issue_any_ttl:
  assumes "broker_issue E c t1 q pid aid st = (Ok r, st')"
  shows "\<exists>r' st''. broker_issue E c t2 q pid aid st = (Ok r', st'') \<and> is_approval_id r' = aid \<and>
    is_ttl r' = effective_ttl c t2"
  using assms
proof (rule issue_Ok)
  fix rec es
  let ?issue = "\<lambda>t. store_issue MAX_LIVE_TOKENS (broker_entropy E st) c (effective_ttl c t) (q_uid q)
    (q_agent_session_id q) (broker_now E st) (br_tokens st)"
  let ?audit = "\<lambda>es. try_audit E (q_actor q) ACTION_CREDENTIAL_REQUEST (cc_id c) Allow ''issued'' [pid]
    (tick (st\<lparr>br_tokens := es\<rparr>))"
  assume i: "?issue t1 = (Ok (is_value r, rec), es)" and a: "?audit es = (Some (is_audit_event_id r), st')"
  from i obtain bytes where b: "broker_entropy E st = Some bytes" "issuable c"
    "length (reclaim MAX_LIVE_TOKENS (broker_now E st) (br_tokens st)) < MAX_LIVE_TOKENS"
    by (auto elim: store_issue_Ok)
  have "0 < effective_ttl c t2"
    using effective_ttl_bounds(2) [of c t2] b(2) by (auto simp: issuable_def TTL_MIN_SECS_def)
  with b obtain rec2 es2 where i2: "?issue t2 = (Ok (token_text (cc_id c) bytes, rec2), es2)"
    by (simp add: store_issue_def Let_def)
  have "tick (st\<lparr>br_tokens := x\<rparr>) = (tick st)\<lparr>br_tokens := x\<rparr>" for x by (simp add: tick_def)
  then have "fst (?audit es2) = fst (?audit es)" by (simp only: audit_ignores_tokens)
  with a obtain st2 where "?audit es2 = (Some (is_audit_event_id r), st2)" by (metis fst_conv prod.collapse)
  with i2 show ?thesis by (simp add: broker_issue_def Let_def)
qed

text \<open>Every branch of a request leaves a store it could have got by issuing.\<close>

lemma issue_typed:
  assumes "store_typed cat (br_tokens st)" "c \<in> set (cat_classes cat)"
  shows "store_typed cat (br_tokens (snd (broker_issue E c ttl q pid aid st)))"
proof -
  obtain x es where i: "store_issue MAX_LIVE_TOKENS (broker_entropy E st) c (effective_ttl c ttl) (q_uid q)
      (q_agent_session_id q) (broker_now E st) (br_tokens st) = (x, es)" by fastforce
  have "store_typed cat es" using store_typed_issue [OF assms] i by (metis snd_conv)
  then show ?thesis
    using i by (auto simp: broker_issue_def Let_def store_typed_ops
        split: sum.split issue_error.split prod.split option.split dest!: try_audit_keeps)
qed

lemma request_typed:
  assumes "store_typed (br_catalog E) (br_tokens st)" "handle_request E EN p ps st = (r, st')"
  shows "store_typed (br_catalog E) (br_tokens st')"
  using assms(2)
proof (cases rule: handle_request_cases)
  case (allowed c)
  then show ?thesis using issue_typed [OF assms(1)] catalog_get_Some by (metis snd_conv)
next
  case (gated c)
  show ?thesis using gated(3)
  proof (cases rule: gated_cases)
    case (spent ids d0 i d1)
    have "store_typed (br_catalog E) (br_tokens (st\<lparr>br_engine := d1\<rparr>))" using assms(1) by simp
    from issue_typed [OF this] show ?thesis using spent(3) gated(1) catalog_get_Some by (metis snd_conv)
  qed (use assms(1) in simp)
qed (use assms(1) in simp_all)

lemma others_typed:
  assumes "store_typed cat (br_tokens st)"
  shows "store_typed cat (br_tokens (snd (handle_validate E p c t st)))"
    "store_typed cat (br_tokens (snd (handle_revoke E p t st)))"
proof -
  have v: "br_tokens (snd (handle_validate E p c t st)) = snd (store_present t c (broker_now E st) (br_tokens st))"
    by (auto simp: handle_validate_def Let_def split: prod.split presented.split)
  have r: "br_tokens (snd (handle_revoke E p t st)) = snd (store_revoke t (br_tokens st))"
    by (auto simp: handle_revoke_def Let_def case_prod_beta split: prod.split option.split)
  show "store_typed cat (br_tokens (snd (handle_validate E p c t st)))"
    "store_typed cat (br_tokens (snd (handle_revoke E p t st)))"
    using store_typed_ops [OF assms] by (simp_all add: v r)
qed

section \<open>A worked example\<close>

text \<open>The shipped catalog, a layer that asks about \<open>aws_dev\<close>, and one approval given to the user 1000.\<close>

definition demo_broker_env :: broker_env where
  "demo_broker_env =
     \<lparr>env_clock = (\<lambda>_. 1767225600000), env_disk = (\<lambda>_. True), env_urandom = (\<lambda>t n. Some (replicate n 7)),
      env_cgroup = (\<lambda>_ _. None), env_passwd = (\<lambda>_. None), ser_event = (\<lambda>e. unwrap_or (ev_resource e) []),
      de_event = (\<lambda>s. Some (demo_event s)), env_append = (\<lambda>_. None), env_rotate = (\<lambda>_. Rotated),
      rotate_bytes = 100, br_catalog = shipped_catalog,
      br_policy = \<lparr>ps_layers = [defaults_layer [(''aws_dev'', GrantRequest)]], ps_broken = [], ps_warnings = []\<rparr>,
      br_device_file = (\<lambda>_. Some ''dev_1'')\<rparr>"

definition demo_yes :: approval_envelope where
  "demo_yes = demo_credential
     \<lparr>e_approval := (e_approval demo_credential)\<lparr>a_resource := ''aws-dev'',
        a_requester := \<lparr>rq_kind = Human, rq_id = ''uid:1000''\<rparr>\<rparr>,
      e_resolved_at := Some ''2026-08-24T11:59:00Z'', e_resolved_by := Some \<lparr>rb_uid = 1000, rb_user = ''alice'', rb_pid = None, rb_cgroup = None\<rparr>\<rparr>"

definition demo_link :: link_env where
  "demo_link = \<lparr>le_daemon = demo_entropy, le_peer = demo_root, le_others = (\<lambda>_. []), le_link = (\<lambda>_. Delivered)\<rparr>"

definition demo_broker :: "punard_link broker" where
  "demo_broker =
     \<lparr>ticks = 0, event_counter = 0, trail_live = [], trail_rotated = [], trail_detached = False, audit_events = 0, br_tokens = [],
      br_device_id = Some ''dev_1'', br_engine = \<lparr>lk_daemon = demo_daemon [demo_yes] [], lk_calls = 0\<rparr>\<rparr>"

definition demo_user :: peer where
  "demo_user = \<lparr>peer_uid = 1000, peer_gid = 1000, peer_pid = None\<rparr>"

abbreviation demo_ask :: credential_request_params where
  "demo_ask \<equiv> \<lparr>crq_credential = ''aws-dev'', crq_ttl = Some 60\<rparr>"

lemma demo_yes_fields:
  "env_id demo_yes = ''apr_cccc3333''" "env_status demo_yes = Approved" "e_consumed_at demo_yes = None"
  "e_kind demo_yes = CredentialRequest" "\<not> has_lapsed demo_yes 1767225600"
  by (simp_all add: demo_yes_def demo_credential_def demo_envelope_def env_id_def env_status_def has_lapsed_def)

lemma demo_entropy_env:
  "env_disk demo_entropy t" "clock_in_range demo_entropy" "now_secs demo_entropy d = 1767225600"
  "length (ser_envelope demo_entropy e) = Suc (length (env_id e))"
proof -
  show "env_disk demo_entropy t" by (simp add: demo_entropy_def demo_clock)
  show r: "clock_in_range demo_entropy" by (simp add: demo_entropy_def clock_in_range_def demo_clock)
  show "now_secs demo_entropy d = 1767225600"
    by (simp add: now_secs_exact [OF r]) (simp add: demo_entropy_def demo_clock)
  show "length (ser_envelope demo_entropy e) = Suc (length (env_id e))"
    by (simp add: demo_entropy_def demo_denv_def demo_store_env_def store_env.defs daemon_env.defs)
qed

lemma demo_request_facts:
  "requester_of demo_broker_env demo_user demo_broker =
     \<lparr>q_actor = cli_peer ''uid:1000'', q_user = ''uid:1000'', q_agent_session_id = None, q_uid = 1000\<rparr>"
  "catalog_get (br_catalog demo_broker_env) ''aws-dev'' = Some demo_class"
  "ca_grant (credential_decision_for (br_policy demo_broker_env) ''aws_dev'') = GrantRequest"
  "ca_policy_id (credential_decision_for (br_policy demo_broker_env) ''aws_dev'') \<noteq> []"
proof -
  have "show_nat 1000 = ''1000''" by code_simp
  then show "requester_of demo_broker_env demo_user demo_broker =
     \<lparr>q_actor = cli_peer ''uid:1000'', q_user = ''uid:1000'', q_agent_session_id = None, q_uid = 1000\<rparr>"
    by (simp add: requester_of_def lookup_username_def agent_session_of_peer_def agent_session_of_pid_def
        peer_cgroup_def demo_broker_env_def demo_user_def Let_def)
  show "catalog_get (br_catalog demo_broker_env) ''aws-dev'' = Some demo_class"
    by (simp add: catalog_get_def demo_broker_env_def shipped_catalog_def demo_class_def)
  let ?s = "\<lparr>ps_layers = [defaults_layer [(''aws_dev'', GrantRequest)]], ps_broken = [], ps_warnings = []\<rparr>"
  have "ca_grant (credential_decision_for ?s ''aws_dev'') = GrantRequest"
    "ca_policy_id (credential_decision_for ?s ''aws_dev'') \<noteq> []" by code_simp+
  then show "ca_grant (credential_decision_for (br_policy demo_broker_env) ''aws_dev'') = GrantRequest"
    "ca_policy_id (credential_decision_for (br_policy demo_broker_env) ''aws_dev'') \<noteq> []"
    by (simp_all add: demo_broker_env_def)
qed

lemma demo_approved:
  "link_ok (br_engine demo_broker)"
  "spendable demo_link ''apr_cccc3333'' ''aws-dev'' ''uid:1000'' (br_engine demo_broker)"
proof -
  have v: "validate_approval_schema (e_approval demo_yes) = Ok ()" by code_simp
  note d = demo_single [OF v, unfolded demo_yes_fields(2), simplified]
  have "envelope_ok demo_yes"
    using demo_yes_fields by (simp add: envelope_ok_def) (simp add: demo_yes_def demo_credential_def demo_envelope_def)
  then show "link_ok (br_engine demo_broker)"
    using d(1,3) by (auto simp: link_ok_def gate_ok_def demo_broker_def demo_yes_fields split: if_splits)
  have "a_resource (e_approval demo_yes) = ''aws-dev''" "rq_id (a_requester (e_approval demo_yes)) = ''uid:1000''"
    by (simp_all add: demo_yes_def)
  moreover have "env_id (demo_yes\<lparr>e_consumed_at := t\<rparr>) = ''apr_cccc3333''" for t
    using demo_yes_fields(1) by (simp add: env_id_def)
  ultimately show "spendable demo_link ''apr_cccc3333'' ''aws-dev'' ''uid:1000'' (br_engine demo_broker)"
    using d(1,3) demo_yes_fields
    by (simp add: spendable_def demo_broker_def daemon_ok_def demo_link_def demo_entropy_env
        APPROVAL_RECORD_MAX_BYTES_def) (simp add: demo_store_def MAX_APPROVAL_RECORDS_def)
qed

lemma demo_ready:
  "quiet_link demo_link" "broker_ready demo_broker_env demo_broker" "actor_ok (cli_peer ''uid:1000'')"
  "env_urandom demo_broker_env t n \<noteq> None" "reclaim m now (br_tokens demo_broker) = []"
  "issuable demo_class" "cc_id demo_class = ''aws-dev''" "cc_policy_key demo_class = ''aws_dev''"
proof -
  have "prefixed_id ''dev_'' ''dev_1''" by code_simp
  then show "broker_ready demo_broker_env demo_broker"
    by (simp add: broker_ready_def demo_broker_env_def demo_broker_def)
  show "quiet_link demo_link" by (simp add: quiet_link_def demo_link_def demo_entropy_env)
  show "actor_ok (cli_peer ''uid:1000'')" by (simp add: actor_ok_def cli_peer_def)
qed (simp_all add: demo_broker_env_def demo_broker_def reclaim_def demo_class_def issuable_def)

lemma demo_request:
  obtains r st' i where "handle_request demo_broker_env (punard_engine demo_link) demo_user demo_ask demo_broker = (Ok r, st')"
    "is_approval_id r = Some i"
proof -
  have "snd (principal (requester_of demo_broker_env demo_user demo_broker)) = ''uid:1000''"
    "actor_ok (q_actor (requester_of demo_broker_env demo_user demo_broker))"
    using demo_ready(3) by (simp_all add: demo_request_facts(1) principal_def)
  then show thesis
    using that request_served [of demo_link "''apr_cccc3333''" demo_class demo_broker_env demo_user demo_broker demo_ask]
      demo_ready demo_approved(2) demo_request_facts(2-4) by (auto simp: MAX_LIVE_TOKENS_def)
qed

section \<open>Properties\<close>

text \<open>
  C2. A person approved it. When the policy of a class is to ask, a token of that class is issued only
  by spending an approval. When the broker listed the approvals, punard held under the cited
  identifier a credential approval, answered yes by a named resolver and not yet spent, for this very
  class and this very requester; when the broker spent it, punard still held such an approval under
  that identifier; and when the request returns it is spent or no longer stored. What was spent is
  the approval that was listed, unless punard's random device yields its identifier once more between
  the two calls. This holds whatever other clients do in between and whichever requests and answers
  are lost on the way.
\<close>

theorem gated_token_was_approved:
  assumes "gate_ok (lk_daemon (br_engine st))"
    and "handle_request E (punard_engine L) p ps st = (Ok r, st')"
    and "catalog_get (br_catalog E) (crq_credential ps) = Some c"
    and "ca_grant (credential_decision_for (br_policy E) (cc_policy_key c)) = GrantRequest"
  shows "\<exists>i d0 e0 b0 d e b. is_approval_id r = Some i \<and>
    run (le_daemon L) (lk_daemon (br_engine st)) d0 \<and> run (le_daemon L) d0 d \<and>
    run (le_daemon L) d (lk_daemon (br_engine st')) \<and>
    bt_get (records d0) i = Some e0 \<and> e_kind e0 = CredentialRequest \<and> env_status e0 = Approved \<and>
    e_resolved_by e0 = Some b0 \<and> e_consumed_at e0 = None \<and> a_resource (e_approval e0) = cc_id c \<and>
    rq_id (a_requester (e_approval e0)) = snd (principal (requester_of E p st)) \<and>
    bt_get (records d) i = Some e \<and> e_kind e = CredentialRequest \<and> env_status e = Approved \<and>
    e_resolved_by e = Some b \<and> e_consumed_at e = None \<and>
    (a_resource (e_approval e) = cc_id c \<and> rq_id (a_requester (e_approval e)) = snd (principal (requester_of E p st)) \<or>
     drawn (le_daemon L) d0 d i) \<and>
    (\<forall>e'. bt_get (records (lk_daemon (br_engine st'))) i = Some e' \<longrightarrow> e_consumed_at e' \<noteq> None)"
proof -
  obtain i where i: "is_approval_id r = Some i" using assms(2-4) by (rule request_gated_Ok)
  have "link_ok (br_engine st)" using assms(1) by (simp add: link_ok_def)
  from pd.request_spends [OF this assms(2) i] assms(3) obtain l m where
    m: "link_le L (br_engine st) l" "link_le L l m" "link_le L m (br_engine st')"
      "link_asks l i = Some (cc_id c, snd (principal (requester_of E p st)))" "link_approved l i" "link_approved m i"
      "link_asks m i = link_asks l i \<or> link_drawn L l m i" "link_spent (br_engine st') i"
    by auto
  obtain e0 b0 e b where e: "bt_get (records (lk_daemon l)) i = Some e0" "e_kind e0 = CredentialRequest"
    "env_status e0 = Approved" "e_consumed_at e0 = None" "e_resolved_by e0 = Some b0"
    "bt_get (records (lk_daemon m)) i = Some e" "e_kind e = CredentialRequest"
    "env_status e = Approved" "e_consumed_at e = None" "e_resolved_by e = Some b"
    using m(5,6) by (auto simp: link_approved_def)
  have "\<forall>e'. bt_get (records (lk_daemon (br_engine st'))) i = Some e' \<longrightarrow> e_consumed_at e' \<noteq> None"
    using m(8) by (simp add: link_spent_def split: option.splits)
  with i e m show ?thesis
    by (intro exI [of _ i] exI [of _ "lk_daemon l"] exI [of _ e0] exI [of _ b0] exI [of _ "lk_daemon m"] exI [of _ e]
        exI [of _ b]) (simp add: link_le_def link_asks_def link_drawn_def)
qed

theorem gated_token_was_approved_witness:
  "\<exists>r st' i d e b. handle_request demo_broker_env (punard_engine demo_link) demo_user demo_ask demo_broker = (Ok r, st') \<and>
     is_approval_id r = Some i \<and> run demo_entropy (demo_daemon [demo_yes] []) d \<and>
     bt_get (records d) i = Some e \<and> env_status e = Approved \<and> e_resolved_by e = Some b"
proof -
  obtain r st' i where h: "handle_request demo_broker_env (punard_engine demo_link) demo_user demo_ask demo_broker = (Ok r, st')"
    by (rule demo_request)
  have g: "gate_ok (lk_daemon (br_engine demo_broker))" using demo_approved(1) by (simp add: link_ok_def)
  have c: "catalog_get (br_catalog demo_broker_env) (crq_credential demo_ask) = Some demo_class"
    "ca_grant (credential_decision_for (br_policy demo_broker_env) (cc_policy_key demo_class)) = GrantRequest"
    using demo_request_facts(2,3) demo_ready(8) by simp_all
  have l: "le_daemon demo_link = demo_entropy" "lk_daemon (br_engine demo_broker) = demo_daemon [demo_yes] []"
    by (simp_all add: demo_link_def demo_broker_def)
  from gated_token_was_approved [OF g h c] h show ?thesis unfolding l by blast
qed

text \<open>
  C6. One approval, one token. Take any run of the broker, restarts included, with any interleaved work of
  punard's other clients and any lost messages, in which a request is answered with a token that cites
  an approval. When that request returns, the approval is spent or forgotten; and from there on, along
  any further run, it stays so and no token cites it, unless punard's random device yields the
  identifier once more after the request. Nor was it spent or missing when the run began, unless the
  device yielded the identifier during that run.
\<close>

theorem one_approval_one_token:
  assumes "broker_run E (punard_engine L) st before s0" "link_ok (br_engine st)"
    and "handle_request E (punard_engine L) p ps s0 = (Ok r, s)" "is_approval_id r = Some i"
    and "broker_run E (punard_engine L) s after s'"
  shows "link_spent (br_engine s) i \<and>
    (link_spent (br_engine s') i \<and> Some i \<notin> is_approval_id ` set after \<or> link_drawn L (br_engine s) (br_engine s') i) \<and>
    (\<not> link_spent (br_engine st) i \<or> link_drawn L (br_engine st) (br_engine s) i)"
proof (intro conjI)
  have ok: "link_ok (br_engine s0)" "link_ok (br_engine s)"
    using pd.inv_le [OF assms(2) pd.run_step [OF assms(1)]] pd.request_step [of L s0 E p ps] pd.inv_le assms(3) by fastforce+
  show sp: "link_spent (br_engine s) i" using pd.request_spends [OF ok(1) assms(3,4)] by blast
  show "link_spent (br_engine s') i \<and> Some i \<notin> is_approval_id ` set after \<or> link_drawn L (br_engine s) (br_engine s') i"
    using pd.run_respends [OF assms(5) ok(2) sp] by blast
  have "broker_run E (punard_engine L) st (before @ [r]) s" using broker_run.issued [OF assms(1,3)] .
  from pd.run_respends [OF this assms(2)] assms(4)
  show "\<not> link_spent (br_engine st) i \<or> link_drawn L (br_engine st) (br_engine s) i" by force
qed

theorem one_approval_one_token_witness:
  "\<exists>r s s' i. broker_run demo_broker_env (punard_engine demo_link) demo_broker [r] s \<and> is_approval_id r = Some i \<and>
     broker_run demo_broker_env (punard_engine demo_link) s [] s' \<and> br_tokens s' = [] \<and> link_spent (br_engine s') i"
proof -
  obtain r s i where h: "handle_request demo_broker_env (punard_engine demo_link) demo_user demo_ask demo_broker = (Ok r, s)"
    and i: "is_approval_id r = Some i" by (rule demo_request)
  let ?s = "s\<lparr>event_counter := 0, trail_detached := False, br_tokens := [], br_device_id := None\<rparr>"
  have run: "broker_run demo_broker_env (punard_engine demo_link) demo_broker [r] s"
    using broker_run.issued [OF broker_run.started h] by simp
  have restart: "broker_run demo_broker_env (punard_engine demo_link) s [] ?s"
    by (rule broker_run.restarted [OF broker_run.started])
  from one_approval_one_token [OF broker_run.started demo_approved(1) h i restart]
  have "link_spent (br_engine ?s) i" by (simp add: link_drawn_def drawn_def)
  with run i restart show ?thesis by (intro exI [of _ r] exI [of _ s] exI [of _ ?s] exI [of _ i]) simp
qed

lemma failed_request_keeps_store:
  assumes h: "handle_request E EN p ps st = (Err e, st')"
  shows "digests (br_tokens st') \<subseteq> digests (br_tokens st)"
  using h
proof (cases rule: handle_request_cases)
  case (allowed c)
  then show ?thesis using issue_Err by blast
next
  case (gated c)
  show ?thesis using gated(3)
  proof (cases rule: gated_cases)
    case (spent ids d0 i d1)
    then show ?thesis using issue_Err [OF spent(3)] by simp
  qed simp
qed simp_all

lemma request_issues:
  assumes h: "handle_request E EN p ps st = (Ok r, st')"
  obtains c aid pid s0 where "catalog_get (br_catalog E) (crq_credential ps) = Some c"
    "case ca_grant (credential_decision_for (br_policy E) (cc_policy_key c)) of
       GrantAllow \<Rightarrow> aid = None
     | GrantRequest \<Rightarrow> (\<exists>i d t. aid = Some i \<and> call_consume EN i d = (Ok t, br_engine st'))
     | GrantDeny \<Rightarrow> False"
    "broker_issue E c (crq_ttl ps) (requester_of E p st) pid aid s0 = (Ok r, st')"
    "broker_now E s0 = broker_now E st" "br_tokens s0 = br_tokens st"
  using h
proof (cases rule: handle_request_cases)
  case (allowed c)
  show ?thesis by (rule that [OF allowed(1) _ allowed(3)]) (simp_all add: allowed(2))
next
  case (gated c)
  obtain ids d0 d1 i where sp: "spend_first EN ids d0 = (Ok (Some i), d1)" and bi: "broker_issue E c (crq_ttl ps) (requester_of E p st)
      (ca_policy_id (credential_decision_for (br_policy E) (cc_policy_key c))) (Some i) (st\<lparr>br_engine := d1\<rparr>) = (Ok r, st')"
    using h gated(1,2) by (rule request_gated_Ok)
  show ?thesis
    using spend_first_Ok [OF sp] issue_engine_of [OF bi]
    by (intro that [OF gated(1) _ bi]) (simp_all add: gated(2) broker_now_def unix_now_millis_def)
qed (simp_all add: is_ok_def)

lemma issue_recorded:
  assumes b: "broker_issue E c ttl q pid aid s0 = (Ok r, st')"
  shows "is_approval_id r = aid \<and> is_ttl r = effective_ttl c ttl \<and> 0 < is_ttl r \<and> issuable c \<and>
    (\<exists>rec ev before. br_tokens st' = reclaim MAX_LIVE_TOKENS (broker_now E s0) (br_tokens s0) @ [rec] \<and>
       ir_token_sha256 rec = sha256_hex (is_value r) \<and> ir_credential rec = cc_id c \<and>
       trail_live st' = before @ ser_event E ev @ [CHR 0x0A] \<and> ev_event_id ev = is_audit_event_id r \<and>
       ev_resource ev = Some (cc_id c) \<and> ev_decision ev = Allow \<and> ev_result ev = ''issued'')"
  using b
proof (rule issue_Ok)
  fix rec es
  assume i: "store_issue MAX_LIVE_TOKENS (broker_entropy E s0) c (effective_ttl c ttl) (q_uid q) (q_agent_session_id q)
        (broker_now E s0) (br_tokens s0) = (Ok (is_value r, rec), es)"
    and t: "br_tokens st' = es" "is_ttl r = effective_ttl c ttl" "is_approval_id r = aid"
    and a: "try_audit E (q_actor q) ACTION_CREDENTIAL_REQUEST (cc_id c) Allow ''issued'' [pid]
      (tick (s0\<lparr>br_tokens := es\<rparr>)) = (Some (is_audit_event_id r), st')"
  from i have r: "rec = issued_record_of c (is_value r) (effective_ttl c ttl) (q_uid q) (q_agent_session_id q) (broker_now E s0)"
    "es = reclaim MAX_LIVE_TOKENS (broker_now E s0) (br_tokens s0) @ [rec]" "issuable c" "0 < effective_ttl c ttl"
    by (auto elim: store_issue_Ok)
  moreover obtain ev before where "trail_live st' = before @ ser_event E ev @ [CHR 0x0A]"
    "ev_event_id ev = is_audit_event_id r" "ev_resource ev = Some (cc_id c)" "ev_decision ev = Allow"
    "ev_result ev = ''issued''"
    using try_audit_Some [OF a] by blast
  moreover have "ir_token_sha256 rec = sha256_hex (is_value r)" "ir_credential rec = cc_id c"
    by (simp_all add: r issued_record_of_def)
  ultimately show ?thesis using t by simp blast
qed

text \<open>
  C9. Nothing is issued without authority, or without a record. If a request is answered with a token,
  the class is in the catalog, and the policy in force allows it, or asks and the approval the answer
  cites was consumed: the last thing the approval engine did was to answer its consumption with yes. The
  lifetime is the class's own clamp of what was asked and is not zero, the store has gained exactly
  the hash of that token, and the last line of the audit trail says it was issued. If the answer is an
  error, for whatever reason, the store holds no hash it did not hold before.
\<close>

theorem issued_only_with_authority:
  "case handle_request E EN p ps st of
     (Err _, st') \<Rightarrow> digests (br_tokens st') \<subseteq> digests (br_tokens st)
   | (Ok r, st') \<Rightarrow> \<exists>c rec ev before.
       catalog_get (br_catalog E) (crq_credential ps) = Some c \<and>
       (case ca_grant (credential_decision_for (br_policy E) (cc_policy_key c)) of
          GrantAllow \<Rightarrow> is_approval_id r = None
        | GrantRequest \<Rightarrow> (\<exists>i d t. is_approval_id r = Some i \<and> call_consume EN i d = (Ok t, br_engine st'))
        | GrantDeny \<Rightarrow> False) \<and>
       is_ttl r = effective_ttl c (crq_ttl ps) \<and> 0 < is_ttl r \<and> issuable c \<and>
       br_tokens st' = reclaim MAX_LIVE_TOKENS (broker_now E st) (br_tokens st) @ [rec] \<and>
       ir_token_sha256 rec = sha256_hex (is_value r) \<and> ir_credential rec = cc_id c \<and>
       trail_live st' = before @ ser_event E ev @ [CHR 0x0A] \<and> ev_event_id ev = is_audit_event_id r \<and>
       ev_resource ev = Some (cc_id c) \<and> ev_decision ev = Allow \<and> ev_result ev = ''issued''"
proof -
  obtain x st' where h: "handle_request E EN p ps st = (x, st')" by fastforce
  show ?thesis
  proof (cases x)
    case (Inl e)
    then show ?thesis using h failed_request_keeps_store by fastforce
  next
    case (Inr r)
    obtain c aid pid s0 where c: "catalog_get (br_catalog E) (crq_credential ps) = Some c"
      "case ca_grant (credential_decision_for (br_policy E) (cc_policy_key c)) of
         GrantAllow \<Rightarrow> aid = None
       | GrantRequest \<Rightarrow> (\<exists>i d t. aid = Some i \<and> call_consume EN i d = (Ok t, br_engine st'))
       | GrantDeny \<Rightarrow> False"
      and b: "broker_issue E c (crq_ttl ps) (requester_of E p st) pid aid s0 = (Ok r, st')"
      and s0: "broker_now E s0 = broker_now E st" "br_tokens s0 = br_tokens st"
      using h [unfolded Inr] by (rule request_issues)
    show ?thesis using issue_recorded [OF b] c s0 h Inr by simp blast
  qed
qed



text \<open>
  C38. The lifetime a person approved is not the lifetime issued. Whatever lifetime the request that
  spent an approval named, the same request with any other lifetime would have spent the same
  approval for a token of that other lifetime, as far as the class allows it: the approval records
  the lifetime that was asked for, and nothing compares the two.
\<close>

theorem approved_lifetime_is_not_bound:
  assumes "handle_request E EN p \<lparr>crq_credential = k, crq_ttl = asked\<rparr> st = (Ok r, st')" "is_approval_id r = Some i"
  shows "\<exists>c r' st''. catalog_get (br_catalog E) k = Some c \<and>
    handle_request E EN p \<lparr>crq_credential = k, crq_ttl = other\<rparr> st = (Ok r', st'') \<and>
    is_approval_id r' = Some i \<and> is_ttl r' = effective_ttl c other"
  using assms(1)
proof (cases rule: handle_request_cases)
  case (allowed c)
  then show ?thesis using assms(2) by (auto elim: issue_Ok)
next
  case (gated c)
  let ?a = "credential_decision_for (br_policy E) (cc_policy_key c)" and ?q = "requester_of E p st"
  obtain ids d0 j d1 where j: "client_candidates EN (cc_id c) (snd (principal ?q)) (br_engine st) = (Ok ids, d0)"
    "spend_first EN ids d0 = (Ok (Some j), d1)" "is_approval_id r = Some j"
    "broker_issue E c (crq_ttl \<lparr>crq_credential = k, crq_ttl = asked\<rparr>) ?q (ca_policy_id ?a) (Some j) (st\<lparr>br_engine := d1\<rparr>) = (Ok r, st')"
    using assms(1) gated(1,2) by (rule request_gated_Ok)
  then obtain r' st'' where "broker_issue E c other ?q (ca_policy_id ?a) (Some i) (st\<lparr>br_engine := d1\<rparr>) = (Ok r', st'')"
    "is_approval_id r' = Some i" "is_ttl r' = effective_ttl c other"
    using issue_any_ttl [OF j(4), of other] assms(2) by auto
  then show ?thesis
    using gated(1,2) j(1-3) assms(2) by (simp add: handle_request_def gated_request_def Let_def)
qed (simp_all add: is_ok_def)

theorem approved_lifetime_is_not_bound_witness:
  "\<exists>r st'. handle_request demo_broker_env (punard_engine demo_link) demo_user
       \<lparr>crq_credential = ''aws-dev'', crq_ttl = Some 3600\<rparr> demo_broker = (Ok r, st') \<and> is_ttl r = 3600"
proof -
  obtain r st' i where "handle_request demo_broker_env (punard_engine demo_link) demo_user demo_ask demo_broker = (Ok r, st')"
    "is_approval_id r = Some i" by (rule demo_request)
  from approved_lifetime_is_not_bound [OF this, of "Some 3600"] demo_request_facts(2) show ?thesis
    by (auto simp: demo_class_def effective_ttl_def TTL_MIN_SECS_def clamp_def)
qed

text \<open>
  C21. The broker's store stays well-typed. In every state a run of the broker reaches from a typed store,
  whatever the approval engine answers, the store holds at most \<open>MAX_LIVE_TOKENS\<close> entries; each is of
  a class of the catalog that may be issued, is known only by the 64 lower-case hexadecimal digits of a
  hash, is not revoked, and has an expiry that fits 64 bits and is written the same way twice.
\<close>

theorem broker_store_is_typed:
  assumes "broker_run E EN st out s" "store_typed (br_catalog E) (br_tokens st)"
  shows "store_typed (br_catalog E) (br_tokens s) \<and> bs_issued (handle_status E s) \<le> MAX_LIVE_TOKENS"
proof -
  have "store_typed (br_catalog E) (br_tokens s)"
    using assms
  proof (induction rule: broker_run.induct)
    case (issued out s p ps r s')
    then show ?case using request_typed by blast
  next
    case (refused out s p ps e s')
    then show ?case using request_typed by blast
  qed (auto simp: others_typed store_typed_def [of _ "[]"])
  moreover from this have "store_live (br_tokens s) (broker_now E s) \<le> MAX_LIVE_TOKENS"
    by (auto simp: store_live_def store_typed_def intro: le_trans [OF length_filter_le])
  ultimately show ?thesis by (simp add: handle_status_def)
qed

theorem broker_store_is_typed_witness:
  "\<exists>r st'. broker_run demo_broker_env (punard_engine demo_link) demo_broker [r] st' \<and>
     store_typed shipped_catalog (br_tokens st')"
proof -
  obtain r st' i where h: "handle_request demo_broker_env (punard_engine demo_link) demo_user demo_ask demo_broker = (Ok r, st')"
    and "is_approval_id r = Some i" by (rule demo_request)
  then have run: "broker_run demo_broker_env (punard_engine demo_link) demo_broker [r] st'"
    using broker_run.issued [OF broker_run.started h] by simp
  have "store_typed (br_catalog demo_broker_env) (br_tokens demo_broker)" by (simp add: demo_broker_def store_typed_def)
  from broker_store_is_typed [OF run this] run show ?thesis by (auto simp: demo_broker_env_def)
qed

end
