(* ===== verification/Net_Model.thy ===== *)
theory Net_Model
  imports Punar_Machine "HOL-Library.Word"
begin

text \<open>
  \<open>crates/punar-netd/src/model.rs\<close>: the validated types of the network daemon. Addresses are machine
  words of 32 and 128 bits; a CIDR block is an address and a prefix length, accepted only in
  canonical form. The standard library's reading and printing of addresses is modelled for what the
  daemon reads and prints. The lemmas show that two accepted blocks overlap for the code exactly
  when some address lies in both.
\<close>

unbundle bit_operations_syntax

section \<open>Decisions and zones\<close>

datatype net_decision = NetAllow | NetApprovalRequired | NetDeny

fun net_decision_str :: "net_decision \<Rightarrow> string" where
  "net_decision_str NetAllow = ''allow''"
| "net_decision_str NetApprovalRequired = ''approval_required''"
| "net_decision_str NetDeny = ''deny''"

definition blocks :: "net_decision \<Rightarrow> bool" where
  "blocks d = (d \<noteq> NetAllow)"

fun strictness :: "net_decision \<Rightarrow> nat" where
  "strictness NetAllow = 0"
| "strictness NetApprovalRequired = 1"
| "strictness NetDeny = 2"

definition strictest :: "net_decision \<Rightarrow> net_decision \<Rightarrow> net_decision" where
  "strictest d e = (if strictness d \<ge> strictness e then d else e)"

datatype zone_kind = ZkInternet | ZkCorporate | ZkProduction | ZkPrivileged

fun zone_kind_str :: "zone_kind \<Rightarrow> string" where
  "zone_kind_str ZkInternet = ''internet''"
| "zone_kind_str ZkCorporate = ''corporate''"
| "zone_kind_str ZkProduction = ''production''"
| "zone_kind_str ZkPrivileged = ''privileged''"

datatype relay_mode = Direct | PrivateRelay | EnterpriseRoute

fun relay_mode_str :: "relay_mode \<Rightarrow> string" where
  "relay_mode_str Direct = ''direct''"
| "relay_mode_str PrivateRelay = ''private_relay''"
| "relay_mode_str EnterpriseRoute = ''enterprise_route''"

definition simulated :: "relay_mode \<Rightarrow> bool" where
  "simulated m = (m \<noteq> Direct)"

record zone_definition =
  zd_name :: string
  zd_display_name :: "string option"
  zd_description :: "string option"
  zd_kind :: zone_kind
  zd_relay_mode :: "relay_mode option"

section \<open>Identifiers\<close>

datatype model_error =
    InvalidZoneName string
  | InvalidProjectId string
  | InvalidUserName string
  | InvalidSessionId string
  | InvalidCgroupPath string
  | InvalidCidr string
  | InvalidAddressName string

definition validate_zone_name :: "string \<Rightarrow> (model_error, unit) result" where
  "validate_zone_name value =
     (if (case value of [] \<Rightarrow> True | c # _ \<Rightarrow> \<not> is_ascii_lowercase c)
         \<or> list_ex (\<lambda>b. \<not> (is_ascii_lowercase b \<or> is_ascii_digit b \<or> b = CHR ''_'')) value
      then Err (InvalidZoneName value) else Ok ())"

definition id_edge_ok :: "char \<Rightarrow> bool" where
  "id_edge_ok b = (is_ascii_lowercase b \<or> is_ascii_digit b)"

definition validate_project_id :: "string \<Rightarrow> (model_error, unit) result" where
  "validate_project_id value =
     (if value = [] \<or> length value > 64 \<or> \<not> id_edge_ok (hd value) \<or> \<not> id_edge_ok (last value)
         \<or> list_ex (\<lambda>b. \<not> (id_edge_ok b \<or> b \<in> {CHR ''_'', CHR ''-'', CHR ''.''})) value
      then Err (InvalidProjectId value) else Ok ())"

definition validate_user_name :: "string \<Rightarrow> (model_error, unit) result" where
  "validate_user_name value =
     (if value = [] \<or> length value > 64 \<or> \<not> (is_ascii_lowercase (hd value) \<or> hd value = CHR ''_'')
         \<or> list_ex (\<lambda>b. \<not> (is_ascii_lowercase b \<or> is_ascii_digit b \<or> b \<in> {CHR ''_'', CHR ''-''})) value
      then Err (InvalidUserName value) else Ok ())"

definition session_id_ok :: "string \<Rightarrow> bool" where
  "session_id_ok i = prefixed_id ''agt_'' i"

definition validate_session_id :: "string \<Rightarrow> (model_error, unit) result" where
  "validate_session_id value = (if session_id_ok value then Ok () else Err (InvalidSessionId value))"

fun str_contains :: "string \<Rightarrow> string \<Rightarrow> bool" where
  "str_contains needle [] = (needle = [])"
| "str_contains needle (c # cs) = (starts_with needle (c # cs) \<or> str_contains needle cs)"

definition validate_cgroup_path :: "string \<Rightarrow> (model_error, unit) result" where
  "validate_cgroup_path value =
     (if \<not> starts_with ''/'' value \<or> value = ''/'' \<or> strip_suffix ''/'' value \<noteq> None
         \<or> str_contains ''//'' value \<or> list_ex (\<lambda>part. part = ''.'' \<or> part = ''..'') (split_on CHR ''/'' value)
         \<or> list_ex (\<lambda>b. is_ascii_control b \<or> b = CHR 0x22) value
      then Err (InvalidCgroupPath value) else Ok ())"

definition zone_validate :: "zone_definition \<Rightarrow> (model_error, unit) result" where
  "zone_validate z = validate_zone_name (zd_name z)"

section \<open>Addresses\<close>

datatype ip_addr = V4Addr "32 word" | V6Addr "128 word"

text \<open>The derived order: every IPv4 address before every IPv6 address.\<close>

instantiation ip_addr :: linorder
begin

fun less_eq_ip_addr :: "ip_addr \<Rightarrow> ip_addr \<Rightarrow> bool" where
  "less_eq_ip_addr (V4Addr a) (V4Addr b) = (a \<le> b)"
| "less_eq_ip_addr (V4Addr a) (V6Addr b) = True"
| "less_eq_ip_addr (V6Addr a) (V4Addr b) = False"
| "less_eq_ip_addr (V6Addr a) (V6Addr b) = (a \<le> b)"

definition less_ip_addr :: "ip_addr \<Rightarrow> ip_addr \<Rightarrow> bool" where
  "less_ip_addr x y = (x \<le> y \<and> \<not> y \<le> (x :: ip_addr))"

instance
proof
  fix x y z :: ip_addr
  show "x < y \<longleftrightarrow> x \<le> y \<and> \<not> y \<le> x" by (rule less_ip_addr_def)
  show "x \<le> x" by (cases x) simp_all
  show "x \<le> y \<Longrightarrow> y \<le> z \<Longrightarrow> x \<le> z" by (cases x; cases y; cases z) auto
  show "x \<le> y \<Longrightarrow> y \<le> x \<Longrightarrow> x = y" by (cases x; cases y) auto
  show "x \<le> y \<or> y \<le> x" by (cases x; cases y) auto
qed

end

text \<open>\<open>Ipv4Addr::from_str\<close>: four decimal numbers up to 255, without leading zeros.\<close>

definition ipv4_octet :: "string \<Rightarrow> nat option" where
  "ipv4_octet s =
     (if s \<noteq> [] \<and> length s \<le> 3 \<and> list_all is_ascii_digit s \<and> (length s > 1 \<longrightarrow> hd s \<noteq> CHR ''0'')
         \<and> digits_val s \<le> 255 then Some (digits_val s) else None)"

definition ipv4_parse :: "string \<Rightarrow> int option" where
  "ipv4_parse s =
     (case map ipv4_octet (split_on CHR ''.'' s) of
        [Some a, Some b, Some c, Some d] \<Rightarrow> Some (((int a * 256 + int b) * 256 + int c) * 256 + int d)
      | _ \<Rightarrow> None)"

text \<open>
  \<open>Ipv6Addr::from_str\<close>: groups of up to four hexadecimal digits; one \<open>::\<close> stands for at least one group
  of zeros; the last two groups may be written as an IPv4 address.
\<close>

definition hex_val :: "char \<Rightarrow> int option" where
  "hex_val c =
     (if is_ascii_digit c then Some (int (byte c - 48))
      else if 97 \<le> byte c \<and> byte c \<le> 102 then Some (int (byte c - 87))
      else if 65 \<le> byte c \<and> byte c \<le> 70 then Some (int (byte c - 55))
      else None)"

fun hex_digits :: "int \<Rightarrow> string \<Rightarrow> int option" where
  "hex_digits n [] = Some n"
| "hex_digits n (c # cs) = (case hex_val c of None \<Rightarrow> None | Some d \<Rightarrow> hex_digits (n * 16 + d) cs)"

definition ipv6_group :: "string \<Rightarrow> int option" where
  "ipv6_group s = (if s \<noteq> [] \<and> length s \<le> 4 then hex_digits 0 s else None)"

fun ipv6_groups :: "bool \<Rightarrow> string list \<Rightarrow> int list option" where
  "ipv6_groups embedded [] = Some []"
| "ipv6_groups embedded (g # gs) =
     (case ipv6_group g of
        Some n \<Rightarrow> map_option ((#) n) (ipv6_groups embedded gs)
      | None \<Rightarrow>
          (if embedded \<and> gs = []
           then map_option (\<lambda>v. [v div 65536, v mod 65536]) (ipv4_parse g) else None))"

definition ipv6_part :: "bool \<Rightarrow> string \<Rightarrow> int list option" where
  "ipv6_part embedded s = (if s = [] then Some [] else ipv6_groups embedded (split_on CHR '':'' s))"

fun split_double_colon :: "string \<Rightarrow> (string \<times> string) option" where
  "split_double_colon (c # d # cs) =
     (if c = CHR '':'' \<and> d = CHR '':'' then Some ([], cs)
      else map_option (apfst ((#) c)) (split_double_colon (d # cs)))"
| "split_double_colon _ = None"

definition ipv6_of_groups :: "int list \<Rightarrow> int" where
  "ipv6_of_groups gs = foldl (\<lambda>acc g. acc * 65536 + g) 0 gs"

definition ipv6_parse :: "string \<Rightarrow> int option" where
  "ipv6_parse s =
     (case split_double_colon s of
        None \<Rightarrow>
          (case ipv6_groups True (split_on CHR '':'' s) of
             Some gs \<Rightarrow> if length gs = 8 then Some (ipv6_of_groups gs) else None
           | None \<Rightarrow> None)
      | Some (front, back) \<Rightarrow>
          (case (ipv6_part False front, ipv6_part True back) of
             (Some hs, Some ts) \<Rightarrow>
               (if length hs + length ts \<le> 7
                then Some (ipv6_of_groups (hs @ replicate (8 - length hs - length ts) 0 @ ts)) else None)
           | _ \<Rightarrow> None))"

definition ip_parse :: "string \<Rightarrow> ip_addr option" where
  "ip_parse s =
     (case ipv4_parse s of
        Some n \<Rightarrow> Some (V4Addr (word_of_int n))
      | None \<Rightarrow> map_option (\<lambda>n. V6Addr (word_of_int n)) (ipv6_parse s))"

text \<open>Printing: dotted decimals, and groups with the longest run of zeros left out.\<close>

function show_hex :: "int \<Rightarrow> string" where
  "show_hex n = (if n < 16 then [hex_digit (nat n)] else show_hex (n div 16) @ [hex_digit (nat (n mod 16))])"
  by pat_completeness auto

termination show_hex
  by (relation "measure nat") auto

declare show_hex.simps [simp del]

fun join_with :: "string \<Rightarrow> string list \<Rightarrow> string" where
  "join_with sep [] = []"
| "join_with sep [s] = s"
| "join_with sep (s # ss) = s @ sep @ join_with sep ss"

definition ipv4_show :: "32 word \<Rightarrow> string" where
  "ipv4_show w = join_with ''.'' (map (\<lambda>k. show_nat (nat (uint w div 256 ^ k mod 256))) [3, 2, 1, 0])"

definition ipv6_segments :: "128 word \<Rightarrow> int list" where
  "ipv6_segments w = map (\<lambda>k. uint w div 65536 ^ k mod 65536) [7, 6, 5, 4, 3, 2, 1, 0]"

text \<open>The scan for the longest run: position, current start and length, best start and length.\<close>

fun zero_run :: "nat \<Rightarrow> nat \<times> nat \<Rightarrow> nat \<times> nat \<Rightarrow> int list \<Rightarrow> nat \<times> nat" where
  "zero_run i cur best [] = best"
| "zero_run i cur best (s # ss) =
     (if s = 0
      then (let cur' = (if snd cur = 0 then i else fst cur, snd cur + 1)
            in zero_run (i + 1) cur' (if snd cur' > snd best then cur' else best) ss)
      else zero_run (i + 1) (0, 0) best ss)"

definition ipv6_show :: "128 word \<Rightarrow> string" where
  "ipv6_show w =
     (let ss = ipv6_segments w;
          groups = (\<lambda>gs. join_with '':'' (map show_hex gs))
      in if take 6 ss = [0, 0, 0, 0, 0, 65535] then ''::ffff:'' @ ipv4_show (word_of_int (uint w mod 2 ^ 32))
         else (case zero_run 0 (0, 0) (0, 0) ss of (start, len) \<Rightarrow>
                 if len > 1 then groups (take start ss) @ ''::'' @ groups (drop (start + len) ss) else groups ss))"

fun ip_show :: "ip_addr \<Rightarrow> string" where
  "ip_show (V4Addr w) = ipv4_show w"
| "ip_show (V6Addr w) = ipv6_show w"

section \<open>CIDR blocks\<close>

datatype cidr = V4 "32 word" nat | V6 "128 word" nat

instantiation cidr :: linorder
begin

fun less_eq_cidr :: "cidr \<Rightarrow> cidr \<Rightarrow> bool" where
  "less_eq_cidr (V4 a p) (V4 b q) = (a < b \<or> a = b \<and> p \<le> q)"
| "less_eq_cidr (V4 a p) (V6 b q) = True"
| "less_eq_cidr (V6 a p) (V4 b q) = False"
| "less_eq_cidr (V6 a p) (V6 b q) = (a < b \<or> a = b \<and> p \<le> q)"

definition less_cidr :: "cidr \<Rightarrow> cidr \<Rightarrow> bool" where
  "less_cidr x y = (x \<le> y \<and> \<not> y \<le> (x :: cidr))"

instance
proof
  fix x y z :: cidr
  show "x < y \<longleftrightarrow> x \<le> y \<and> \<not> y \<le> x" by (rule less_cidr_def)
  show "x \<le> x" by (cases x) simp_all
  show "x \<le> y \<Longrightarrow> y \<le> z \<Longrightarrow> x \<le> z" by (cases x; cases y; cases z) auto
  show "x \<le> y \<Longrightarrow> y \<le> x \<Longrightarrow> x = y" by (cases x; cases y) auto
  show "x \<le> y \<or> y \<le> x" by (cases x; cases y) auto
qed

end

definition prefix_mask :: "nat \<Rightarrow> 'a::len word" where
  "prefix_mask p = (if p = 0 then 0 else push_bit (LENGTH('a) - p) (- 1))"

definition masked_v4 :: "32 word \<Rightarrow> nat \<Rightarrow> 32 word" where
  "masked_v4 a p = a AND prefix_mask p"

definition masked_v6 :: "128 word \<Rightarrow> nat \<Rightarrow> 128 word" where
  "masked_v6 a p = a AND prefix_mask p"

definition split_once :: "char \<Rightarrow> string \<Rightarrow> (string \<times> string) option" where
  "split_once c s =
     (if c \<in> set s then Some (takeWhile (\<lambda>b. b \<noteq> c) s, tl (dropWhile (\<lambda>b. b \<noteq> c) s)) else None)"

definition cidr_parse :: "string \<Rightarrow> (model_error, cidr) result" where
  "cidr_parse value =
     (case split_once CHR ''/'' value of
        None \<Rightarrow> Err (InvalidCidr value)
      | Some (address, prefix) \<Rightarrow>
          if prefix = [] \<or> list_ex (\<lambda>b. \<not> is_ascii_digit b) prefix then Err (InvalidCidr value)
          else if digits_val prefix > 255 then Err (InvalidCidr value)
          else (let p = digits_val prefix
                in case ip_parse address of
                     Some (V4Addr ip) \<Rightarrow>
                       if p > 32 then Err (InvalidCidr value)
                       else if ip AND prefix_mask p \<noteq> ip then Err (InvalidCidr value)
                       else Ok (V4 ip p)
                   | Some (V6Addr ip) \<Rightarrow>
                       if p > 128 then Err (InvalidCidr value)
                       else if ip AND prefix_mask p \<noteq> ip then Err (InvalidCidr value)
                       else Ok (V6 ip p)
                   | None \<Rightarrow> Err (InvalidCidr value)))"

fun is_v4 :: "cidr \<Rightarrow> bool" where
  "is_v4 (V4 _ _) = True"
| "is_v4 (V6 _ _) = False"

fun cidr_contains :: "cidr \<Rightarrow> ip_addr \<Rightarrow> bool" where
  "cidr_contains (V4 network prefix) (V4Addr address) = (masked_v4 address prefix = network)"
| "cidr_contains (V6 network prefix) (V6Addr address) = (masked_v6 address prefix = network)"
| "cidr_contains _ _ = False"

fun cidr_overlaps :: "cidr \<Rightarrow> cidr \<Rightarrow> bool" where
  "cidr_overlaps (V4 left lp) (V4 right rp) =
     (let p = min lp rp in masked_v4 left p = masked_v4 right p)"
| "cidr_overlaps (V6 left lp) (V6 right rp) =
     (let p = min lp rp in masked_v6 left p = masked_v6 right p)"
| "cidr_overlaps _ _ = False"

fun cidr_show :: "cidr \<Rightarrow> string" where
  "cidr_show (V4 ip prefix) = ipv4_show ip @ ''/'' @ show_nat prefix"
| "cidr_show (V6 ip prefix) = ipv6_show ip @ ''/'' @ show_nat prefix"

record zone_membership =
  zm_cidrs :: "cidr list"
  zm_names :: "(ip_addr, string) btree_map"

section \<open>Lemmas\<close>

lemma bit_prefix_mask:
  "bit (prefix_mask p :: 'a::len word) n \<longleftrightarrow> n < LENGTH('a) \<and> LENGTH('a) - p \<le> n \<and> p \<noteq> 0"
  by (auto simp: prefix_mask_def bit_simps)

lemma masked_twice:
  assumes "p \<le> q"
  shows "(a AND prefix_mask q) AND prefix_mask p = a AND (prefix_mask p :: 'a::len word)"
  by (rule bit_word_eqI) (use assms in \<open>auto simp: bit_and_iff bit_prefix_mask\<close>)

text \<open>Blocks as the parser accepts them.\<close>

fun cidr_ok :: "cidr \<Rightarrow> bool" where
  "cidr_ok (V4 a p) = (p \<le> 32 \<and> a AND prefix_mask p = a)"
| "cidr_ok (V6 a p) = (p \<le> 128 \<and> a AND prefix_mask p = a)"

lemma cidr_parse_ok: "cidr_parse value = Ok c \<Longrightarrow> cidr_ok c"
  by (auto simp: cidr_parse_def Let_def split: option.splits if_splits ip_addr.splits)

lemma overlap_word:
  assumes "(a :: 'a::len word) AND prefix_mask p = a" "b AND prefix_mask q = b"
  shows "a AND prefix_mask (min p q) = b AND prefix_mask (min p q) \<longleftrightarrow>
    (\<exists>x. x AND prefix_mask p = a \<and> x AND prefix_mask q = b)"
proof
  assume eq: "a AND prefix_mask (min p q) = b AND prefix_mask (min p q)"
  show "\<exists>x. x AND prefix_mask p = a \<and> x AND prefix_mask q = b"
  proof (cases "p \<le> q")
    case True
    then show ?thesis using assms eq by (intro exI [of _ b]) (simp add: min_def)
  next
    case False
    then show ?thesis using assms eq by (intro exI [of _ a]) (simp add: min_def)
  qed
next
  assume "\<exists>x. x AND prefix_mask p = a \<and> x AND prefix_mask q = b"
  then obtain x where "a = x AND prefix_mask p" "b = x AND prefix_mask q" by blast
  then show "a AND prefix_mask (min p q) = b AND prefix_mask (min p q)"
    by (simp only: masked_twice [of "min p q" p] masked_twice [of "min p q" q] min.cobounded1 min.cobounded2)
qed

text \<open>Two accepted blocks overlap exactly when some address lies in both.\<close>

lemma overlaps_iff:
  assumes "cidr_ok c" "cidr_ok d"
  shows "cidr_overlaps c d \<longleftrightarrow> (\<exists>x. cidr_contains c x \<and> cidr_contains d x)"
proof (cases c; cases d)
  fix a p b q assume cd: "c = V4 a p" "d = V4 b q"
  have "(\<exists>x. cidr_contains c x \<and> cidr_contains d x) \<longleftrightarrow> (\<exists>w. w AND prefix_mask p = a \<and> w AND prefix_mask q = b)"
    unfolding cd by (metis cidr_contains.simps(1,3,4) ip_addr.exhaust masked_v4_def)
  then show ?thesis using overlap_word [of a p b q] assms by (simp add: cd masked_v4_def Let_def)
next
  fix a p b q assume cd: "c = V6 a p" "d = V6 b q"
  have "(\<exists>x. cidr_contains c x \<and> cidr_contains d x) \<longleftrightarrow> (\<exists>w. w AND prefix_mask p = a \<and> w AND prefix_mask q = b)"
    unfolding cd by (metis cidr_contains.simps(2,3,4) ip_addr.exhaust masked_v6_def)
  then show ?thesis using overlap_word [of a p b q] assms by (simp add: cd masked_v6_def Let_def)
next
  fix a p b q assume "c = V4 a p" "d = V6 b q"
  then show ?thesis by (auto, metis cidr_contains.simps ip_addr.exhaust)
next
  fix a p b q assume "c = V6 a p" "d = V4 b q"
  then show ?thesis by (auto, metis cidr_contains.simps ip_addr.exhaust)
qed

end
