(* ===== verification/Net_Policy.thy ===== *)
theory Net_Policy
  imports Net_Model Punar_Time
begin

text \<open>
  \<open>crates/punar-netd/src/policy.rs\<close> and the compile fall-back of \<open>project.rs\<close>: the zone index, the zone
  memberships, and the compilation of a project's manifest and route policy into one decision per
  zone. The serde readers of the three documents are parameters (\<open>net_codec\<close>): they return the
  document or the message of the failure. The lemmas show that accepted memberships are pairwise
  disjoint and that a compiled decision is the strictest one stated.
\<close>

section \<open>Types\<close>

datatype net_policy_error =
    PeManifest string
  | PePolicy string
  | PeMembership string
  | PeModel model_error
  | PeProjectMismatch string string
  | PeUnknownZone string
  | PeDuplicateRule string
  | PeDuplicateZone string
  | PeInternetHasMembers
  | PeAddressNameOutsideZone string ip_addr
  | PeOverlappingZones string string cidr cidr
  | PeInvalidInternetZone
  | PeUnsupportedExpiry
  | PeInvalidExpiry string

datatype bound_by = ProjectNetworkPolicy | Manifest | Both | Residual

record effective_rule =
  er_zone :: string
  er_decision :: net_decision
  er_bound_by :: bound_by
  er_manifest_decision :: "net_decision option"
  er_policy_decision :: "net_decision option"

record container_network =
  cn_mode :: string
  cn_reason :: string

record compiled_project =
  cp_project_id :: string
  cp_rules :: "effective_rule list"
  cp_container_network :: container_network

definition cp_rule :: "compiled_project \<Rightarrow> string \<Rightarrow> effective_rule option" where
  "cp_rule cp zone = find (\<lambda>r. er_zone r = zone) (cp_rules cp)"

record manifest_doc =
  md_project_name :: string
  md_network :: "(string, net_decision) btree_map"

record policy_rule =
  pr_zone :: string
  pr_decision :: net_decision
  pr_expires_at :: "string option"

record policy_doc =
  pd_project_id :: string
  pd_display_name :: "string option"
  pd_rules :: "policy_rule list"

record membership_zone =
  mz_cidrs :: "string list"
  mz_names :: "(string, string) btree_map"

record membership_doc =
  mb_v :: nat
  mb_zones :: "(string, membership_zone) btree_map"

text \<open>The serde readers, with the text of their error.\<close>

record net_codec =
  read_manifest :: "string \<Rightarrow> (string, manifest_doc) result"
  read_policy :: "string \<Rightarrow> (string, policy_doc) result"
  read_membership :: "string \<Rightarrow> (string, membership_doc) result"
  read_zone :: "string \<Rightarrow> (string, zone_definition) result"

type_synonym zones = "(string, zone_definition) btree_map"
type_synonym memberships = "(string, zone_membership) btree_map"

definition contains_key :: "('k, 'v) btree_map \<Rightarrow> 'k \<Rightarrow> bool" where
  "contains_key m k = (bt_get m k \<noteq> None)"

section \<open>The zone index\<close>

fun index_loop :: "zones \<Rightarrow> zone_definition list \<Rightarrow> (net_policy_error, zones) result" where
  "index_loop indexed [] = Ok indexed"
| "index_loop indexed (zone # zs) =
     (case zone_validate zone of
        Err e \<Rightarrow> Err (PeModel e)
      | Ok _ \<Rightarrow>
          if contains_key indexed (zd_name zone) then Err (PeDuplicateZone (zd_name zone))
          else index_loop (bt_insert (zd_name zone) zone indexed) zs)"

definition index_zones :: "zone_definition list \<Rightarrow> (net_policy_error, zones) result" where
  "index_zones zs =
     res_bind (index_loop [] zs) (\<lambda>indexed.
       case bt_get indexed ''internet'' of
         None \<Rightarrow> Err (PeUnknownZone ''internet'')
       | Some internet \<Rightarrow>
           if zd_kind internet \<noteq> ZkInternet
              \<or> list_ex (\<lambda>(name, zone). name \<noteq> ''internet'' \<and> zd_kind zone = ZkInternet) indexed
           then Err PeInvalidInternetZone else Ok indexed)"

section \<open>Zone memberships\<close>

fun parse_cidrs :: "(cidr, unit) btree_map \<Rightarrow> string list \<Rightarrow> (net_policy_error, cidr list) result" where
  "parse_cidrs cidrs [] = Ok (bt_keys cidrs)"
| "parse_cidrs cidrs (value # vs) =
     (case cidr_parse value of
        Err e \<Rightarrow> Err (PeModel e)
      | Ok c \<Rightarrow> parse_cidrs (bt_insert c () cidrs) vs)"

fun parse_names ::
  "string \<Rightarrow> cidr list \<Rightarrow> (ip_addr, string) btree_map \<Rightarrow> (string, string) btree_map \<Rightarrow>
   (net_policy_error, (ip_addr, string) btree_map) result" where
  "parse_names zone cidrs names [] = Ok names"
| "parse_names zone cidrs names ((address, display) # rest) =
     (case ip_parse address of
        None \<Rightarrow> Err (PeModel (InvalidAddressName address))
      | Some parsed \<Rightarrow>
          if display = [] \<or> length display > 255 \<or> has_control display
          then Err (PeMembership (''display name for '' @ [CHR 0x22] @ address @ [CHR 0x22]
                 @ '' is empty, too long, or contains a control character''))
          else if \<not> list_ex (\<lambda>c. cidr_contains c parsed) cidrs
          then Err (PeAddressNameOutsideZone zone parsed)
          else parse_names zone cidrs (bt_insert parsed display names) rest)"

fun membership_loop ::
  "zones \<Rightarrow> memberships \<Rightarrow> (string, membership_zone) btree_map \<Rightarrow> (net_policy_error, memberships) result" where
  "membership_loop zones output [] = Ok output"
| "membership_loop zones output ((name, mz) # rest) =
     (case validate_zone_name name of
        Err e \<Rightarrow> Err (PeModel e)
      | Ok _ \<Rightarrow>
          if \<not> contains_key zones name then Err (PeUnknownZone name)
          else if name = ''internet'' \<and> (mz_cidrs mz \<noteq> [] \<or> mz_names mz \<noteq> []) then Err PeInternetHasMembers
          else
            res_bind (parse_cidrs [] (mz_cidrs mz)) (\<lambda>cidrs.
            res_bind (parse_names name cidrs [] (mz_names mz)) (\<lambda>names.
            membership_loop zones (bt_insert name \<lparr>zm_cidrs = cidrs, zm_names = names\<rparr> output) rest)))"

text \<open>The pairs of blocks of different zones that overlap, in the order the loops meet them.\<close>

fun overlapping :: "memberships \<Rightarrow> (string \<times> string \<times> cidr \<times> cidr) list" where
  "overlapping [] = []"
| "overlapping ((left_name, left) # rest) =
     concat (map (\<lambda>(right_name, right).
       concat (map (\<lambda>l. map (\<lambda>r. (left_name, right_name, l, r)) (filter (cidr_overlaps l) (zm_cidrs right)))
         (zm_cidrs left))) rest)
     @ overlapping rest"

definition parse_zone_memberships ::
  "net_codec \<Rightarrow> string \<Rightarrow> zones \<Rightarrow> (net_policy_error, memberships) result" where
  "parse_zone_memberships S input zones =
     (case read_membership S input of
        Err e \<Rightarrow> Err (PeMembership e)
      | Ok raw \<Rightarrow>
          if mb_v raw \<noteq> 1 then Err (PeMembership (''unsupported membership version '' @ show_nat (mb_v raw)))
          else
            res_bind (membership_loop zones [] (mb_zones raw)) (\<lambda>output.
              case overlapping output of
                [] \<Rightarrow> Ok output
              | (left, right, left_cidr, right_cidr) # _ \<Rightarrow>
                  Err (PeOverlappingZones left right left_cidr right_cidr)))"

section \<open>Compilation of a project\<close>

fun check_manifest_zones :: "zones \<Rightarrow> string list \<Rightarrow> (net_policy_error, unit) result" where
  "check_manifest_zones zones [] = Ok ()"
| "check_manifest_zones zones (zone # rest) =
     (case validate_zone_name zone of
        Err e \<Rightarrow> Err (PeModel e)
      | Ok _ \<Rightarrow>
          if \<not> contains_key zones zone then Err (PeUnknownZone zone) else check_manifest_zones zones rest)"

fun collect_policy_rules ::
  "zones \<Rightarrow> (string, policy_rule) btree_map \<Rightarrow> policy_rule list \<Rightarrow>
   (net_policy_error, (string, policy_rule) btree_map) result" where
  "collect_policy_rules zones acc [] = Ok acc"
| "collect_policy_rules zones acc (rule # rest) =
     (case validate_zone_name (pr_zone rule) of
        Err e \<Rightarrow> Err (PeModel e)
      | Ok _ \<Rightarrow>
          if \<not> contains_key zones (pr_zone rule) then Err (PeUnknownZone (pr_zone rule))
          else if pr_expires_at rule \<noteq> None \<and> pr_decision rule \<noteq> NetApprovalRequired then Err PeUnsupportedExpiry
          else if pr_expires_at rule \<noteq> None \<and> unix_seconds_from_rfc3339 (the (pr_expires_at rule)) = None
          then Err (PeInvalidExpiry (the (pr_expires_at rule)))
          else if contains_key acc (pr_zone rule) then Err (PeDuplicateRule (pr_zone rule))
          else collect_policy_rules zones (bt_insert (pr_zone rule) rule acc) rest)"

fun bind_decision :: "net_decision option \<Rightarrow> net_decision option \<Rightarrow> net_decision \<times> bound_by" where
  "bind_decision (Some left) (Some right) =
     (if left = right then (left, Both)
      else if strictness left > strictness right then (left, Manifest)
      else (right, ProjectNetworkPolicy))"
| "bind_decision (Some left) None = (left, Manifest)"
| "bind_decision None (Some right) = (right, ProjectNetworkPolicy)"
| "bind_decision None None = (NetDeny, Residual)"

definition effective_rule_for ::
  "(string, net_decision) btree_map \<Rightarrow> (string, policy_rule) btree_map \<Rightarrow> string \<Rightarrow> effective_rule" where
  "effective_rule_for manifest policy name =
     (let manifest_decision = bt_get manifest name;
          policy_decision = map_option pr_decision (bt_get policy name);
          (decision, bound) = bind_decision manifest_decision policy_decision
      in \<lparr>er_zone = name, er_decision = decision, er_bound_by = bound,
          er_manifest_decision = manifest_decision, er_policy_decision = policy_decision\<rparr>)"

definition compile_project ::
  "net_codec \<Rightarrow> string \<Rightarrow> string \<Rightarrow> zones \<Rightarrow> (net_policy_error, compiled_project) result" where
  "compile_project S manifest_yaml policy_json zones =
     (case read_manifest S manifest_yaml of Err e \<Rightarrow> Err (PeManifest e) | Ok manifest \<Rightarrow>
     (case read_policy S policy_json of Err e \<Rightarrow> Err (PePolicy e) | Ok policy \<Rightarrow>
     (case validate_project_id (md_project_name manifest) of Err e \<Rightarrow> Err (PeModel e) | Ok _ \<Rightarrow>
     (case validate_project_id (pd_project_id policy) of Err e \<Rightarrow> Err (PeModel e) | Ok _ \<Rightarrow>
      if md_project_name manifest \<noteq> pd_project_id policy
      then Err (PeProjectMismatch (pd_project_id policy) (md_project_name manifest))
      else
        res_bind (check_manifest_zones zones (bt_keys (md_network manifest))) (\<lambda>_.
        res_bind (collect_policy_rules zones [] (pd_rules policy)) (\<lambda>policy_rules.
          let rules = map (effective_rule_for (md_network manifest) policy_rules) (bt_keys zones);
              any_allow = list_ex (\<lambda>r. er_decision r = NetAllow) rules
          in Ok \<lparr>cp_project_id = md_project_name manifest, cp_rules = rules,
                 cp_container_network = \<lparr>cn_mode = ''none'',
                   cn_reason = (if any_allow then ''allow_not_grantable'' else ''deny_by_construction'')\<rparr>\<rparr>))))))"

definition deny_all :: "string \<Rightarrow> zones \<Rightarrow> compiled_project" where
  "deny_all project_id zones =
     \<lparr>cp_project_id = project_id,
      cp_rules = map (\<lambda>zone. \<lparr>er_zone = zone, er_decision = NetDeny, er_bound_by = Residual,
        er_manifest_decision = None, er_policy_decision = None\<rparr>) (bt_keys zones),
      cp_container_network = \<lparr>cn_mode = ''none'', cn_reason = ''deny_by_construction''\<rparr>\<rparr>"

section \<open>The zone index\<close>

text \<open>What the rest of the daemon relies on: keys name their zone, names are valid, \<open>internet\<close> is there.\<close>

definition zones_ok :: "zones \<Rightarrow> bool" where
  "zones_ok zones \<longleftrightarrow> bt_ok zones \<and> contains_key zones ''internet''
     \<and> (\<forall>(k, z) \<in> set zones. k = zd_name z \<and> zone_validate z = Ok ())"

lemma contains_key_iff: "contains_key m k \<longleftrightarrow> k \<in> fst ` set m"
  by (auto simp: contains_key_def bt_get_def map_of_eq_None_iff)

lemma contains_key_keys: "contains_key m k \<longleftrightarrow> k \<in> set (bt_keys m)"
  by (simp add: contains_key_iff bt_keys_def)

lemma set_bt_insert: "set (bt_insert k v m) \<subseteq> insert (k, v) (set m)"
  by (induction k v m rule: bt_insert.induct) auto

lemma index_loop_ok:
  assumes "index_loop indexed zs = Ok zones" "bt_ok indexed"
    and "\<forall>(k, z) \<in> set indexed. k = zd_name z \<and> zone_validate z = Ok ()"
  shows "bt_ok zones \<and> (\<forall>(k, z) \<in> set zones. k = zd_name z \<and> zone_validate z = Ok ())"
  using assms
proof (induction indexed zs rule: index_loop.induct)
  case (2 indexed zone zs)
  from 2(2) have v: "zone_validate zone = Ok ()" and n: "\<not> contains_key indexed (zd_name zone)"
    and rec: "index_loop (bt_insert (zd_name zone) zone indexed) zs = Ok zones"
    by (auto split: sum.splits if_splits)
  show ?case
  proof (rule 2(1) [OF v n rec bt_ok_insert [OF 2(3)]])
    show "\<forall>(k, z) \<in> set (bt_insert (zd_name zone) zone indexed). k = zd_name z \<and> zone_validate z = Ok ()"
      using set_bt_insert [of "zd_name zone" zone indexed] 2(4) v by auto
  qed
qed simp

lemma index_zones_ok: "index_zones zs = Ok zones \<Longrightarrow> zones_ok zones"
  using index_loop_ok [of "[]" zs]
  by (auto simp: index_zones_def res_bind_Ok_iff zones_ok_def contains_key_def split: option.splits if_splits)

section \<open>Memberships\<close>

text \<open>The addresses of a zone.\<close>

definition in_zone :: "memberships \<Rightarrow> string \<Rightarrow> ip_addr \<Rightarrow> bool" where
  "in_zone ms zone x =
     (case bt_get ms zone of None \<Rightarrow> False | Some m \<Rightarrow> list_ex (\<lambda>c. cidr_contains c x) (zm_cidrs m))"

definition membership_ok :: "zones \<Rightarrow> string \<times> zone_membership \<Rightarrow> bool" where
  "membership_ok zones = (\<lambda>(n, m). validate_zone_name n = Ok () \<and> contains_key zones n
     \<and> (n = ''internet'' \<longrightarrow> zm_cidrs m = []) \<and> list_all cidr_ok (zm_cidrs m)
     \<and> list_all (\<lambda>(a, _). list_ex (\<lambda>c. cidr_contains c a) (zm_cidrs m)) (zm_names m))"

lemma parse_cidrs_ok:
  "parse_cidrs acc vs = Ok cs \<Longrightarrow> \<forall>c \<in> fst ` set acc. cidr_ok c \<Longrightarrow> list_all cidr_ok cs"
proof (induction acc vs rule: parse_cidrs.induct)
  case (1 acc)
  then show ?case by (auto simp: bt_keys_def list_all_iff)
next
  case (2 acc v vs)
  then obtain c where c: "cidr_parse v = Ok c" and rec: "parse_cidrs (bt_insert c () acc) vs = Ok cs"
    by (auto split: sum.splits)
  show ?case
    by (rule 2(1) [OF c rec]) (use 2(3) cidr_parse_ok [OF c] in \<open>auto simp: fst_set_bt_insert\<close>)
qed

lemma parse_names_inside:
  "parse_names zone cs acc ns = Ok names \<Longrightarrow> \<forall>a \<in> fst ` set acc. list_ex (\<lambda>c. cidr_contains c a) cs \<Longrightarrow>
   \<forall>a \<in> fst ` set names. list_ex (\<lambda>c. cidr_contains c a) cs"
proof (induction zone cs acc ns rule: parse_names.induct)
  case (2 zone cs acc address display rest)
  from 2(2) obtain a where a: "ip_parse address = Some a"
    and d: "\<not> (display = [] \<or> length display > 255 \<or> has_control display)"
    and inside: "list_ex (\<lambda>c. cidr_contains c a) cs"
    and rec: "parse_names zone cs (bt_insert a display acc) rest = Ok names"
    by (auto split: option.splits if_splits)
  have n: "\<not> \<not> list_ex (\<lambda>c. cidr_contains c a) cs" using inside by simp
  show ?case
    by (rule 2(1) [OF a d n rec]) (use 2(3) inside in \<open>auto simp: fst_set_bt_insert\<close>)
qed simp

lemma membership_loop_ok:
  "membership_loop zones out raw = Ok ms \<Longrightarrow> bt_ok out \<Longrightarrow> list_all (membership_ok zones) out \<Longrightarrow>
   bt_ok ms \<and> list_all (membership_ok zones) ms"
proof (induction zones out raw rule: membership_loop.induct)
  case (2 zones out name mz rest)
  from 2(2) obtain cs ns where v: "validate_zone_name name = Ok ()" and k: "\<not> \<not> contains_key zones name"
    and i: "\<not> (name = ''internet'' \<and> (mz_cidrs mz \<noteq> [] \<or> mz_names mz \<noteq> []))"
    and cs: "parse_cidrs [] (mz_cidrs mz) = Ok cs" and ns: "parse_names name cs [] (mz_names mz) = Ok ns"
    and rec: "membership_loop zones (bt_insert name \<lparr>zm_cidrs = cs, zm_names = ns\<rparr> out) rest = Ok ms"
    by (auto simp: res_bind_Ok_iff split: sum.splits if_splits)
  have new: "membership_ok zones (name, \<lparr>zm_cidrs = cs, zm_names = ns\<rparr>)"
    using v k i parse_cidrs_ok [OF cs] parse_names_inside [OF ns] cs
    by (auto simp: membership_ok_def list_all_iff bt_keys_def)
  show ?case
  proof (rule 2(1) [OF v k i rec bt_ok_insert [OF 2(3)]])
    show "list_all (membership_ok zones) (bt_insert name \<lparr>zm_cidrs = cs, zm_names = ns\<rparr> out)"
      using set_bt_insert [of name "\<lparr>zm_cidrs = cs, zm_names = ns\<rparr>" out] 2(4) new by (auto simp: list_all_iff)
  qed
qed simp

lemma cidr_overlaps_sym: "cidr_overlaps c d = cidr_overlaps d c"
  by (cases c; cases d) (auto simp: Let_def min.commute)

lemma overlapping_Nil:
  assumes "overlapping ms = []" "(l, a) \<in> set ms" "(r, b) \<in> set ms" "l \<noteq> r"
    and "c \<in> set (zm_cidrs a)" "d \<in> set (zm_cidrs b)"
  shows "\<not> cidr_overlaps c d"
  using assms
proof (induction ms rule: overlapping.induct)
  case (2 n m rest)
  have split: "\<forall>(k, y) \<in> set rest. \<forall>e \<in> set (zm_cidrs m). \<forall>f \<in> set (zm_cidrs y). \<not> cidr_overlaps e f"
    using 2(2) by (auto simp: filter_empty_conv)
  consider "(l, a) = (n, m)" "(r, b) \<in> set rest" | "(r, b) = (n, m)" "(l, a) \<in> set rest"
    | "(l, a) \<in> set rest" "(r, b) \<in> set rest" using 2(3-5) by auto
  then show ?case
  proof cases
    case 1
    then show ?thesis using split 2(6,7) by fastforce
  next
    case 2: 2
    then show ?thesis using split assms(5,6) by (fastforce simp: cidr_overlaps_sym [of c])
  next
    case 3
    then show ?thesis using 2(1,2) assms(4-6) by auto
  qed
qed simp

lemma parse_memberships_ok:
  assumes "parse_zone_memberships S input zones = Ok ms"
  shows "bt_ok ms \<and> list_all (membership_ok zones) ms \<and> overlapping ms = []"
proof -
  obtain raw :: membership_doc and out where out: "membership_loop zones [] (mb_zones raw) = Ok out"
    and o: "(case overlapping out of [] \<Rightarrow> Ok out | (l, r, c, d) # _ \<Rightarrow> Err (PeOverlappingZones l r c d)) = Ok ms"
    using assms by (auto simp: parse_zone_memberships_def res_bind_Ok_iff split: sum.splits if_splits)
  have "out = ms \<and> overlapping ms = []"
  proof (cases "overlapping out")
    case (Cons x xs)
    then show ?thesis using o by (cases x) simp
  qed (use o in simp)
  then show ?thesis using membership_loop_ok [OF out] by simp
qed

lemma in_zone_unique:
  assumes "bt_ok ms" "list_all (membership_ok zones) ms" "overlapping ms = []"
    and "in_zone ms left x" "in_zone ms right x"
  shows "left = right"
proof (rule ccontr)
  assume ne: "left \<noteq> right"
  obtain a c where a: "(left, a) \<in> set ms" "c \<in> set (zm_cidrs a)" "cidr_contains c x"
    using assms(1,4) by (auto simp: in_zone_def list_ex_iff bt_entries_get split: option.splits)
  obtain b d where b: "(right, b) \<in> set ms" "d \<in> set (zm_cidrs b)" "cidr_contains d x"
    using assms(1,5) by (auto simp: in_zone_def list_ex_iff bt_entries_get split: option.splits)
  have "cidr_ok c" "cidr_ok d" using assms(2) a b by (auto simp: membership_ok_def list_all_iff)
  moreover have "\<not> cidr_overlaps c d" by (rule overlapping_Nil [OF assms(3) a(1) b(1) ne a(2) b(2)])
  ultimately show False using overlaps_iff a(3) b(3) by blast
qed

lemma in_zone_known:
  assumes "bt_ok ms" "list_all (membership_ok zones) ms" "in_zone ms zone x"
  shows "contains_key zones zone \<and> zone \<noteq> ''internet''"
  using assms by (auto simp: in_zone_def list_ex_iff list_all_iff membership_ok_def bt_entries_get [symmetric]
    split: option.splits)

section \<open>Compilation\<close>

definition stated :: "net_decision option \<Rightarrow> net_decision option \<Rightarrow> net_decision" where
  "stated manifest policy =
     (case (manifest, policy) of
        (Some l, Some r) \<Rightarrow> strictest l r
      | (Some l, None) \<Rightarrow> l
      | (None, Some r) \<Rightarrow> r
      | (None, None) \<Rightarrow> NetDeny)"

lemma bind_decision_stated: "fst (bind_decision m p) = stated m p"
proof (cases m)
  case None
  then show ?thesis by (cases p) (simp_all add: stated_def)
next
  case (Some l)
  show ?thesis
  proof (cases p)
    case None
    then show ?thesis using Some by (simp add: stated_def)
  next
    case (Some r)
    then show ?thesis using \<open>m = Some l\<close> by (cases l; cases r) (simp_all add: stated_def strictest_def)
  qed
qed

lemma effective_rule_zone [simp]: "er_zone (effective_rule_for m p n) = n"
  by (simp add: effective_rule_for_def Let_def split_beta)

lemma effective_rule_decision:
  "er_decision (effective_rule_for m p n) = stated (bt_get m n) (map_option pr_decision (bt_get p n))"
  by (simp add: effective_rule_for_def Let_def split_beta bind_decision_stated)

lemma find_map_zone:
  "(\<And>n. er_zone (f n) = n) \<Longrightarrow> find (\<lambda>r. er_zone r = z) (map f ns) = (if z \<in> set ns then Some (f z) else None)"
  by (induction ns) auto

lemma collect_policy_rules_get:
  "collect_policy_rules zones acc rules = Ok m \<Longrightarrow> bt_ok acc \<Longrightarrow>
   bt_get m z = (case bt_get acc z of Some r \<Rightarrow> Some r | None \<Rightarrow> find (\<lambda>r. pr_zone r = z) rules)"
proof (induction zones acc rules rule: collect_policy_rules.induct)
  case (2 zones acc rule rest)
  from 2(2) have c: "\<not> contains_key acc (pr_zone rule)"
    and rec: "collect_policy_rules zones (bt_insert (pr_zone rule) rule acc) rest = Ok m"
    by (auto split: sum.splits if_splits)
  have "bt_get m z = (case bt_get (bt_insert (pr_zone rule) rule acc) z of
      Some r \<Rightarrow> Some r | None \<Rightarrow> find (\<lambda>r. pr_zone r = z) rest)"
    using 2(2) by (intro 2(1) rec bt_ok_insert 2(3)) (auto split: sum.splits if_splits)
  then show ?case using c 2(3) by (auto simp: bt_get_insert contains_key_def split: option.splits)
qed (simp split: option.splits)

lemma compile_project_Ok:
  assumes "compile_project S m p zones = Ok cp"
  obtains md pd where "read_manifest S m = Ok md" "read_policy S p = Ok pd"
    "cp_project_id cp = md_project_name md" "md_project_name md = pd_project_id pd"
    "\<And>z. \<not> contains_key zones z \<Longrightarrow> cp_rule cp z = None"
    "\<And>z. contains_key zones z \<Longrightarrow> \<exists>r. cp_rule cp z = Some r \<and> er_zone r = z \<and>
       er_decision r = stated (bt_get (md_network md) z)
         (map_option pr_decision (find (\<lambda>r. pr_zone r = z) (pd_rules pd)))"
    "map er_zone (cp_rules cp) = bt_keys zones"
proof -
  from assms obtain md pd pr where d: "read_manifest S m = Ok md" "read_policy S p = Ok pd"
    "md_project_name md = pd_project_id pd"
    and pr: "collect_policy_rules zones [] (pd_rules pd) = Ok pr"
    and cp: "cp_project_id cp = md_project_name md"
      "cp_rules cp = map (effective_rule_for (md_network md) pr) (bt_keys zones)"
    by (auto simp: compile_project_def res_bind_Ok_iff Let_def split: sum.splits if_splits)
  have rule: "cp_rule cp z = (if contains_key zones z then Some (effective_rule_for (md_network md) pr z) else None)"
    for z by (simp add: cp_rule_def cp(2) find_map_zone contains_key_keys)
  have "bt_get pr z = find (\<lambda>r. pr_zone r = z) (pd_rules pd)" for z
    using collect_policy_rules_get [OF pr] by (simp add: bt_get_def)
  then show ?thesis
    using d cp rule by (intro that) (auto simp: effective_rule_decision o_def)
qed

section \<open>Properties\<close>

text \<open>
  An address belongs to at most one zone of an accepted membership document, and that zone is a
  declared one other than the residual \<open>internet\<close>: the document is refused unless the blocks of
  different zones have no address in common.
\<close>

theorem memberships_are_disjoint:
  assumes "parse_zone_memberships S input zones = Ok ms" and "in_zone ms left x"
  shows "contains_key zones left \<and> left \<noteq> ''internet'' \<and> (in_zone ms right x \<longleftrightarrow> right = left)"
  using in_zone_unique [of ms zones right x left] in_zone_known [of ms zones left x]
    parse_memberships_ok [OF assms(1)] assms(2) by auto

text \<open>Two zones and their blocks, one of each family.\<close>

definition demo_zone :: "string \<Rightarrow> zone_kind \<Rightarrow> zone_definition" where
  "demo_zone n k = \<lparr>zd_name = n, zd_display_name = None, zd_description = None, zd_kind = k, zd_relay_mode = None\<rparr>"

definition demo_zones :: zones where
  "demo_zones = [(''corp'', demo_zone ''corp'' ZkCorporate), (''internet'', demo_zone ''internet'' ZkInternet),
     (''prod'', demo_zone ''prod'' ZkProduction)]"

definition demo_codec :: net_codec where
  "demo_codec =
     \<lparr>read_manifest = (\<lambda>_. Ok \<lparr>md_project_name = ''atlas'',
        md_network = [(''corp'', NetAllow), (''internet'', NetAllow)]\<rparr>),
      read_policy = (\<lambda>_. Ok \<lparr>pd_project_id = ''atlas'', pd_display_name = None,
        pd_rules = [\<lparr>pr_zone = ''internet'', pr_decision = NetApprovalRequired, pr_expires_at = None\<rparr>]\<rparr>),
      read_membership = (\<lambda>_. Ok \<lparr>mb_v = 1,
        mb_zones = [(''corp'', \<lparr>mz_cidrs = [''10.20.0.0/16'', ''2001:db8::/32''], mz_names = []\<rparr>),
          (''prod'', \<lparr>mz_cidrs = [''10.30.0.0/16''], mz_names = []\<rparr>)]\<rparr>),
      read_zone = (\<lambda>_. Ok (demo_zone ''internet'' ZkInternet))\<rparr>"

definition demo_memberships :: memberships where
  "demo_memberships =
     [(''corp'', \<lparr>zm_cidrs = [V4 0x0A140000 16, V6 0x20010db8000000000000000000000000 32], zm_names = []\<rparr>),
      (''prod'', \<lparr>zm_cidrs = [V4 0x0A1E0000 16], zm_names = []\<rparr>)]"

lemma demo_parse: "parse_zone_memberships demo_codec ''{}'' demo_zones = Ok demo_memberships"
  by code_simp

theorem memberships_are_disjoint_witness:
  "in_zone demo_memberships ''corp'' (V4Addr 0x0A140105) \<and> contains_key demo_zones ''corp'' \<and>
   \<not> in_zone demo_memberships ''prod'' (V4Addr 0x0A140105)"
proof -
  have x: "in_zone demo_memberships ''corp'' (V4Addr 0x0A140105)" by code_simp
  show ?thesis using memberships_are_disjoint [OF demo_parse x, of "''prod''"] x by auto
qed

text \<open>
  C14. A compiled project has one rule for every declared zone and none for any other. The decision
  is the stricter of the manifest's and the route policy's, the stated one when only one document
  names the zone, and deny when neither does.
\<close>

theorem compiled_decision_is_strictest:
  assumes "compile_project S manifest policy zones = Ok cp"
  shows "\<exists>md pd. read_manifest S manifest = Ok md \<and> read_policy S policy = Ok pd \<and>
     cp_project_id cp = md_project_name md \<and> cp_project_id cp = pd_project_id pd \<and>
     map er_zone (cp_rules cp) = bt_keys zones \<and>
     (\<forall>z. (case cp_rule cp z of
        None \<Rightarrow> \<not> contains_key zones z
      | Some r \<Rightarrow> contains_key zones z \<and> er_zone r = z \<and>
          er_decision r = stated (bt_get (md_network md) z)
            (map_option pr_decision (find (\<lambda>r. pr_zone r = z) (pd_rules pd)))))"
proof (rule compile_project_Ok [OF assms])
  fix md pd
  assume d: "read_manifest S manifest = Ok md" "read_policy S policy = Ok pd"
    "cp_project_id cp = md_project_name md" "md_project_name md = pd_project_id pd"
    and none: "\<And>z. \<not> contains_key zones z \<Longrightarrow> cp_rule cp z = None"
    and some: "\<And>z. contains_key zones z \<Longrightarrow> \<exists>r. cp_rule cp z = Some r \<and> er_zone r = z \<and>
       er_decision r = stated (bt_get (md_network md) z)
         (map_option pr_decision (find (\<lambda>r. pr_zone r = z) (pd_rules pd)))"
    and keys: "map er_zone (cp_rules cp) = bt_keys zones"
  have "case cp_rule cp z of None \<Rightarrow> \<not> contains_key zones z
      | Some r \<Rightarrow> contains_key zones z \<and> er_zone r = z \<and>
          er_decision r = stated (bt_get (md_network md) z)
            (map_option pr_decision (find (\<lambda>r. pr_zone r = z) (pd_rules pd)))" for z
    using none [of z] some [of z] by (cases "contains_key zones z") auto
  then show ?thesis using d keys by auto
qed

definition demo_rule :: "string \<Rightarrow> net_decision \<Rightarrow> bound_by \<Rightarrow> net_decision option \<Rightarrow> net_decision option \<Rightarrow> effective_rule" where
  "demo_rule z d b m p = \<lparr>er_zone = z, er_decision = d, er_bound_by = b, er_manifest_decision = m, er_policy_decision = p\<rparr>"

definition demo_compiled :: compiled_project where
  "demo_compiled =
     \<lparr>cp_project_id = ''atlas'',
      cp_rules = [demo_rule ''corp'' NetAllow Manifest (Some NetAllow) None,
        demo_rule ''internet'' NetApprovalRequired ProjectNetworkPolicy (Some NetAllow) (Some NetApprovalRequired),
        demo_rule ''prod'' NetDeny Residual None None],
      cp_container_network = \<lparr>cn_mode = ''none'', cn_reason = ''allow_not_grantable''\<rparr>\<rparr>"

lemma demo_compile: "compile_project demo_codec ''m'' ''p'' demo_zones = Ok demo_compiled"
  by code_simp

theorem compiled_decision_is_strictest_witness:
  "\<exists>md pd. cp_project_id demo_compiled = pd_project_id pd \<and> read_policy demo_codec ''p'' = Ok pd \<and>
     read_manifest demo_codec ''m'' = Ok md \<and>
     NetApprovalRequired = stated (bt_get (md_network md) ''internet'')
       (map_option pr_decision (find (\<lambda>r. pr_zone r = ''internet'') (pd_rules pd)))"
proof -
  have r: "cp_rule demo_compiled ''internet'' = Some (demo_rule ''internet'' NetApprovalRequired
      ProjectNetworkPolicy (Some NetAllow) (Some NetApprovalRequired))"
    by code_simp
  have d: "er_decision (demo_rule ''internet'' NetApprovalRequired
      ProjectNetworkPolicy (Some NetAllow) (Some NetApprovalRequired)) = NetApprovalRequired"
    by (simp add: demo_rule_def)
  obtain md pd where "read_manifest demo_codec ''m'' = Ok md" "read_policy demo_codec ''p'' = Ok pd"
    "cp_project_id demo_compiled = pd_project_id pd"
    and all: "\<forall>z. (case cp_rule demo_compiled z of
        None \<Rightarrow> \<not> contains_key demo_zones z
      | Some r \<Rightarrow> contains_key demo_zones z \<and> er_zone r = z \<and>
          er_decision r = stated (bt_get (md_network md) z)
            (map_option pr_decision (find (\<lambda>r. pr_zone r = z) (pd_rules pd))))"
    using compiled_decision_is_strictest [OF demo_compile] by blast
  then show ?thesis using spec [OF all, of "''internet''"] by (auto simp: r d)
qed

end
