(* ===== verification/Net_View.thy ===== *)
theory Net_View
  imports Net_Policy "HOL-Library.Product_Lexorder" "HOL-Library.Option_ord"
begin

text \<open>
  \<open>crates/punar-netd/src/view.rs\<close>: the connection view, which joins one observation of the kernel's
  sockets to the managed sessions and names the zone of each destination. The observation itself
  (procfs and netlink reads of \<open>observe.rs\<close>) is an input of the model. The lemmas show that the
  path test that attributes a process to a session is the test on the components of a control
  group path.
\<close>

section \<open>Types\<close>

datatype tcp_state = Established | SynSent | FinWait1 | FinWait2 | CloseWait | LastAck | Closing

fun tcp_state_u8 :: "tcp_state \<Rightarrow> nat" where
  "tcp_state_u8 Established = 0"
| "tcp_state_u8 SynSent = 1"
| "tcp_state_u8 FinWait1 = 2"
| "tcp_state_u8 FinWait2 = 3"
| "tcp_state_u8 CloseWait = 4"
| "tcp_state_u8 LastAck = 5"
| "tcp_state_u8 Closing = 6"

record connection =
  co_destination :: ip_addr
  co_state :: tcp_state

record process_connections =
  pc_name :: string
  pc_pid :: "nat option"
  pc_uid :: nat
  pc_cgroup_path :: "string option"
  pc_cgroup_id :: "nat option"
  pc_connections :: "connection list"

record observation =
  ob_scanned_at :: string
  ob_transport :: string
  ob_limitations :: "string list"
  ob_processes :: "process_connections list"

datatype view_error =
    VeModel model_error
  | VeInvalidPid string
  | VeDuplicateSession string
  | VeDuplicateCgroup string
  | VeOverlappingCgroups string string
  | VeDuplicateCgroupId nat
  | VeConflictingAttribution
  | VeZoneKeyMismatch string string
  | VeUnknownMembership string
  | VeMissingInternet

record managed_session =
  ms_session_id :: string
  ms_project_id :: string
  ms_user :: string
  ms_process_id :: nat
  ms_cgroup_path :: string
  ms_cgroup_id :: "nat option"

datatype process_class = PcAgent | PcApplication | PcUnknown

record session_view =
  sv_id :: string
  sv_project :: string

record connection_view =
  cv_destination :: ip_addr
  cv_name :: "string option"
  cv_zone :: string
  cv_category :: string
  cv_route :: relay_mode
  cv_state :: tcp_state

record denied_view =
  dv_zone :: string
  dv_kind :: zone_kind
  dv_attempts :: nat
  dv_last_destination :: "ip_addr option"
  dv_explain :: string

record process_view =
  pv_name :: string
  pv_pid_class :: process_class
  pv_session :: "session_view option"
  pv_governed :: bool
  pv_connections :: "connection_view list"
  pv_denied :: "denied_view list"
  pv_note :: "string option"

record connection_report =
  rp_scanned_at :: string
  rp_transport :: string
  rp_limitations :: "string list"
  rp_processes :: "process_view list"

section \<open>Operations\<close>

definition within :: "string \<Rightarrow> string \<Rightarrow> bool" where
  "within process_path scope_path =
     (process_path = scope_path
      \<or> (case strip_prefix scope_path process_path of
           None \<Rightarrow> False
         | Some suffix \<Rightarrow> starts_with ''/'' suffix))"

definition classify_member :: "memberships \<Rightarrow> ip_addr \<Rightarrow> (string \<times> zone_membership) option" where
  "classify_member memberships destination =
     find (\<lambda>(_, membership). list_ex (\<lambda>c. cidr_contains c destination) (zm_cidrs membership))
       (filter (\<lambda>(name, _). name \<noteq> ''internet'') memberships)"

definition classify_connection ::
  "ip_addr \<Rightarrow> tcp_state \<Rightarrow> zones \<Rightarrow> memberships \<Rightarrow> (view_error, connection_view) result" where
  "classify_connection destination state zones memberships =
     (let (zone_name, name) =
        (case classify_member memberships destination of
           Some (zone, membership) \<Rightarrow> (zone, bt_get (zm_names membership) destination)
         | None \<Rightarrow> (''internet'', None))
      in case bt_get zones zone_name of
           None \<Rightarrow> Err VeMissingInternet
         | Some zone \<Rightarrow>
             Ok \<lparr>cv_destination = destination, cv_name = name, cv_zone = zd_name zone,
                 cv_category = zone_kind_str (zd_kind zone),
                 cv_route = unwrap_or (zd_relay_mode zone) Direct, cv_state = state\<rparr>)"

fun check_zone_keys :: "zones \<Rightarrow> (view_error, unit) result" where
  "check_zone_keys [] = Ok ()"
| "check_zone_keys ((key, zone) # rest) =
     (case zone_validate zone of
        Err e \<Rightarrow> Err (VeModel e)
      | Ok _ \<Rightarrow> if key \<noteq> zd_name zone then Err (VeZoneKeyMismatch key (zd_name zone)) else check_zone_keys rest)"

definition session_identifiers :: "managed_session \<Rightarrow> (model_error, unit) result" where
  "session_identifiers s =
     res_bind (validate_session_id (ms_session_id s)) (\<lambda>_.
     res_bind (validate_project_id (ms_project_id s)) (\<lambda>_.
     res_bind (validate_user_name (ms_user s)) (\<lambda>_.
     validate_cgroup_path (ms_cgroup_path s))))"

text \<open>The loop over the sessions: the ids, paths and kernel ids met so far; it returns the paths.\<close>

fun check_sessions ::
  "string list \<Rightarrow> (string, unit) btree_map \<Rightarrow> nat list \<Rightarrow> managed_session list \<Rightarrow>
   (view_error, string list) result" where
  "check_sessions ids paths cgroup_ids [] = Ok (bt_keys paths)"
| "check_sessions ids paths cgroup_ids (s # rest) =
     (case session_identifiers s of
        Err e \<Rightarrow> Err (VeModel e)
      | Ok _ \<Rightarrow>
          if ms_process_id s = 0 then Err (VeInvalidPid (ms_session_id s))
          else if ms_session_id s \<in> set ids then Err (VeDuplicateSession (ms_session_id s))
          else if contains_key paths (ms_cgroup_path s) then Err (VeDuplicateCgroup (ms_cgroup_path s))
          else (case ms_cgroup_id s of
                  None \<Rightarrow> check_sessions (ms_session_id s # ids) (bt_insert (ms_cgroup_path s) () paths) cgroup_ids rest
                | Some i \<Rightarrow>
                    if i = 0 \<or> i \<in> set cgroup_ids then Err (VeDuplicateCgroupId i)
                    else check_sessions (ms_session_id s # ids) (bt_insert (ms_cgroup_path s) () paths)
                           (i # cgroup_ids) rest))"

fun check_paths :: "string list \<Rightarrow> (view_error, unit) result" where
  "check_paths [] = Ok ()"
| "check_paths (left # rest) =
     (case find (\<lambda>right. within left right \<or> within right left) rest of
        Some right \<Rightarrow> Err (VeOverlappingCgroups left right)
      | None \<Rightarrow> check_paths rest)"

definition validate_inputs ::
  "zones \<Rightarrow> memberships \<Rightarrow> managed_session list \<Rightarrow> (view_error, unit) result" where
  "validate_inputs zones memberships sessions =
     res_bind (check_zone_keys zones) (\<lambda>_.
       if \<not> contains_key zones ''internet'' then Err VeMissingInternet
       else (case find (\<lambda>name. \<not> contains_key zones name) (bt_keys memberships) of
               Some name \<Rightarrow> Err (VeUnknownMembership name)
             | None \<Rightarrow> res_bind (check_sessions [] [] [] sessions) check_paths))"

definition attribute_session ::
  "managed_session list \<Rightarrow> process_connections \<Rightarrow> (view_error, managed_session option) result" where
  "attribute_session sessions process =
     (let path_session = Option.bind (pc_cgroup_path process)
            (\<lambda>path. find (\<lambda>s. within path (ms_cgroup_path s)) sessions);
          id_session = Option.bind (pc_cgroup_id process)
            (\<lambda>i. find (\<lambda>s. ms_cgroup_id s = Some i) sessions)
      in case (path_session, id_session) of
           (Some l, Some r) \<Rightarrow>
             if ms_session_id l \<noteq> ms_session_id r then Err VeConflictingAttribution else Ok (Some l)
         | (Some s, None) \<Rightarrow> Ok (Some s)
         | (None, Some s) \<Rightarrow> Ok (Some s)
         | (None, None) \<Rightarrow> Ok None)"

fun classify_all ::
  "zones \<Rightarrow> memberships \<Rightarrow> connection list \<Rightarrow> (view_error, connection_view list) result" where
  "classify_all zones memberships [] = Ok []"
| "classify_all zones memberships (c # cs) =
     res_bind (classify_connection (co_destination c) (co_state c) zones memberships) (\<lambda>v.
     res_bind (classify_all zones memberships cs) (\<lambda>vs. Ok (v # vs)))"

definition connection_key :: "connection_view \<Rightarrow> ip_addr \<times> string \<times> nat" where
  "connection_key c = (cv_destination c, cv_zone c, tcp_state_u8 (cv_state c))"

definition process_key :: "process_view \<Rightarrow> bool \<times> string \<times> string option" where
  "process_key p = (\<not> pv_governed p, pv_name p, map_option sv_id (pv_session p))"

fun report_rows ::
  "zones \<Rightarrow> memberships \<Rightarrow> managed_session list \<Rightarrow> process_connections list \<Rightarrow>
   (view_error, process_view list) result" where
  "report_rows zones memberships sessions [] = Ok []"
| "report_rows zones memberships sessions (process # rest) =
     res_bind (attribute_session sessions process) (\<lambda>session.
     res_bind (classify_all zones memberships (pc_connections process)) (\<lambda>connections.
     res_bind (report_rows zones memberships sessions rest) (\<lambda>rows.
       Ok (\<lparr>pv_name = pc_name process,
            pv_pid_class = (if session \<noteq> None then PcAgent
              else if pc_pid process \<noteq> None then PcApplication else PcUnknown),
            pv_session = map_option (\<lambda>s. \<lparr>sv_id = ms_session_id s, sv_project = ms_project_id s\<rparr>) session,
            pv_governed = (session \<noteq> None),
            pv_connections = remdups_adj (sort_asc connection_key connections),
            pv_denied = [], pv_note = None\<rparr> # rows))))"

definition build_report ::
  "observation \<Rightarrow> zones \<Rightarrow> memberships \<Rightarrow> managed_session list \<Rightarrow> (view_error, connection_report) result" where
  "build_report observation zones memberships sessions =
     res_bind (validate_inputs zones memberships sessions) (\<lambda>_.
     res_bind (report_rows zones memberships sessions (ob_processes observation)) (\<lambda>processes.
       Ok \<lparr>rp_scanned_at = ob_scanned_at observation, rp_transport = ob_transport observation,
           rp_limitations = ob_limitations observation, rp_processes = sort_asc process_key processes\<rparr>))"

section \<open>Control group paths\<close>

definition path_components :: "string \<Rightarrow> string list" where
  "path_components p = filter (\<lambda>part. part \<noteq> []) (split_on CHR ''/'' p)"

lemma split_on_append: "split_on c (s @ c # t) = split_on c s @ split_on c t"
  by (induction s) (auto split: list.splits)

lemma concat_split_on: "concat (map ((#) c) (split_on c q)) = c # q"
  by (induction q) (auto split: list.splits)

lemma str_contains_iff: "str_contains n s \<longleftrightarrow> (\<exists>a b. s = a @ n @ b)"
proof (induction s)
  case (Cons c s)
  have "str_contains n (c # s) \<longleftrightarrow> (\<exists>b. c # s = n @ b) \<or> (\<exists>a b. s = a @ n @ b)"
    by (simp add: Cons starts_with_iff)
  also have "\<dots> \<longleftrightarrow> (\<exists>a b. c # s = a @ n @ b)" by (auto simp: Cons_eq_append_conv)
  finally show ?case .
qed simp

lemma split_on_empty_piece:
  assumes "[] \<in> set (split_on c q)"
  shows "(\<exists>a b. c # q = a @ [c, c] @ b) \<or> last (c # q) = c"
proof -
  obtain xs ys where p: "split_on c q = xs @ [] # ys" using assms by (meson split_list)
  have q: "c # q = concat (map ((#) c) xs) @ [c] @ concat (map ((#) c) ys)"
    using concat_split_on [of c q] by (simp add: p)
  show ?thesis
  proof (cases ys)
    case Nil
    then show ?thesis unfolding q by simp
  next
    case (Cons y zs)
    then show ?thesis unfolding q by auto
  qed
qed

lemma path_of_components:
  assumes "validate_cgroup_path p = Ok ()"
  shows "concat (map ((#) CHR ''/'') (path_components p)) = p"
proof -
  have v: "starts_with ''/'' p" "strip_suffix ''/'' p = None" "\<not> str_contains ''//'' p"
    using assms by (simp_all add: validate_cgroup_path_def split: if_splits)
  obtain q where p: "p = CHR ''/'' # q" using v(1) by (auto simp: starts_with_iff)
  have "last p \<noteq> CHR ''/''"
  proof
    assume "last p = CHR ''/''"
    then have "p = butlast p @ ''/''" using p by (metis append_butlast_last_id list.distinct(1))
    then show False using v(2) by (metis option.distinct(1) strip_suffix_Some_iff)
  qed
  moreover have "\<nexists>a b. p = a @ [CHR ''/'', CHR ''/''] @ b" using v(3) by (auto simp: str_contains_iff)
  ultimately have "[] \<notin> set (split_on CHR ''/'' q)" using split_on_empty_piece [of "CHR ''/''" q] p by auto
  then have "path_components p = split_on CHR ''/'' q"
    by (auto simp: path_components_def p filter_id_conv)
  then show ?thesis by (simp add: concat_split_on p)
qed

lemma path_components_append:
  "path_components (s @ CHR ''/'' # t) = path_components s @ path_components t"
  by (simp add: path_components_def split_on_append)

text \<open>The path test of the view is the test on path components: the process is in the scope or below it.\<close>

lemma within_components:
  assumes "validate_cgroup_path process = Ok ()" "validate_cgroup_path scope = Ok ()"
  shows "within process scope \<longleftrightarrow>
    take (length (path_components scope)) (path_components process) = path_components scope"
proof
  assume "within process scope"
  then consider "process = scope" | t where "process = scope @ CHR ''/'' # t"
    by (auto simp: within_def strip_prefix_Some_iff starts_with_iff split: option.splits)
  then show "take (length (path_components scope)) (path_components process) = path_components scope"
    by cases (simp_all add: path_components_append)
next
  let ?n = "length (path_components scope)" and ?text = "\<lambda>ps. concat (map ((#) CHR ''/'') ps)"
  assume "take ?n (path_components process) = path_components scope"
  then have "path_components process = path_components scope @ drop ?n (path_components process)"
    by (metis append_take_drop_id)
  then have p: "process = scope @ ?text (drop ?n (path_components process))"
    by (metis path_of_components assms concat_append map_append)
  show "within process scope"
  proof (cases "drop ?n (path_components process)")
    case Nil
    then show ?thesis using p by (simp add: within_def)
  next
    case (Cons x xs)
    then have "process = scope @ CHR ''/'' # (x @ ?text xs)" using p by simp
    then have "strip_prefix scope process = Some (CHR ''/'' # (x @ ?text xs))"
      by (simp only: strip_prefix_append)
    then show ?thesis by (simp add: within_def starts_with_iff)
  qed
qed

section \<open>The zone of a destination\<close>

text \<open>The zone the view names for a destination.\<close>

definition zone_of :: "memberships \<Rightarrow> ip_addr \<Rightarrow> string" where
  "zone_of ms x = (case classify_member ms x of Some (zone, _) \<Rightarrow> zone | None \<Rightarrow> ''internet'')"

lemma classify_member_zone:
  assumes "bt_ok ms" "list_all (membership_ok zones) ms" "overlapping ms = []"
  shows "in_zone ms z x \<longleftrightarrow> (\<exists>m. classify_member ms x = Some (z, m))"
proof
  assume z: "in_zone ms z x"
  then obtain m where m: "(z, m) \<in> set ms" "list_ex (\<lambda>c. cidr_contains c x) (zm_cidrs m)"
    using assms(1) by (auto simp: in_zone_def bt_entries_get split: option.splits)
  have "z \<noteq> ''internet''" using in_zone_known [OF assms(1,2) z] by simp
  then have "classify_member ms x \<noteq> None" using m by (auto simp: classify_member_def find_None_iff)
  then obtain y k where yk: "classify_member ms x = Some (y, k)" by (cases "classify_member ms x") auto
  then have "(y, k) \<in> set ms \<and> list_ex (\<lambda>c. cidr_contains c x) (zm_cidrs k)"
    by (auto simp: classify_member_def find_Some_iff dest: nth_mem)
  then have "in_zone ms y x" using assms(1) by (simp add: in_zone_def bt_entries_get)
  then show "\<exists>m. classify_member ms x = Some (z, m)" using in_zone_unique [OF assms _ z] yk by blast
next
  assume "\<exists>m. classify_member ms x = Some (z, m)"
  then obtain m where "classify_member ms x = Some (z, m)" by blast
  then have "(z, m) \<in> set ms \<and> list_ex (\<lambda>c. cidr_contains c x) (zm_cidrs m)"
    by (auto simp: classify_member_def find_Some_iff dest: nth_mem)
  then show "in_zone ms z x" using assms(1) by (simp add: in_zone_def bt_entries_get)
qed

lemma zone_of_member:
  assumes "bt_ok ms" "list_all (membership_ok zones) ms" "overlapping ms = []"
  shows "z \<noteq> ''internet'' \<Longrightarrow> zone_of ms x = z \<longleftrightarrow> in_zone ms z x"
  by (auto simp: zone_of_def classify_member_zone [OF assms] split: option.splits)

end
