(* ===== verification/Net_Ruleset.thy ===== *)
theory Net_Ruleset
  imports Net_View
begin

text \<open>
  \<open>crates/punar-netd/src/nft.rs\<close>: the text of the \<open>punar-net\<close> table. The renderers are translated to the
  byte. Beside them stands the syntax of the nftables fragment they write (\<open>nft_table\<close>), its text, and
  the evaluation of a packet by it, as the nftables manual describes chains, jumps, sets and verdicts.
  The lemmas show that the rendered text is the text of one such table and what that table decides.
\<close>

section \<open>Types\<close>

datatype nft_error =
    NeModel model_error
  | NeMissingInternetRule string
  | NeProjectMismatch string string string
  | NeUnknownMembership string
  | NeZoneKeyMismatch string string
  | NeUnknownPolicyZone string
  | NeDuplicatePolicyZone string
  | NeDuplicateSession string
  | NeDuplicateCgroup string

record session_binding =
  sb_session_id :: string
  sb_project_id :: string
  sb_cgroup_path :: string
  sb_policy :: compiled_project

record counter_binding =
  cb_name :: string
  cb_zone :: string
  cb_kind :: zone_kind
  cb_decision :: net_decision

definition TABLE_FAMILY :: string where
  "TABLE_FAMILY = ''inet''"

definition TABLE_NAME :: string where
  "TABLE_NAME = ''punar-net''"

section \<open>Session bindings\<close>

fun check_policy_rules :: "zones \<Rightarrow> string list \<Rightarrow> effective_rule list \<Rightarrow> (nft_error, unit) result" where
  "check_policy_rules zones seen [] = Ok ()"
| "check_policy_rules zones seen (rule # rest) =
     (if \<not> contains_key zones (er_zone rule) then Err (NeUnknownPolicyZone (er_zone rule))
      else if er_zone rule \<in> set seen then Err (NeDuplicatePolicyZone (er_zone rule))
      else check_policy_rules zones (er_zone rule # seen) rest)"

definition binding_validate :: "session_binding \<Rightarrow> zones \<Rightarrow> (nft_error, unit) result" where
  "binding_validate s zones =
     (case validate_session_id (sb_session_id s) of Err e \<Rightarrow> Err (NeModel e) | Ok _ \<Rightarrow>
     (case validate_cgroup_path (sb_cgroup_path s) of Err e \<Rightarrow> Err (NeModel e) | Ok _ \<Rightarrow>
      if sb_project_id s \<noteq> cp_project_id (sb_policy s)
      then Err (NeProjectMismatch (sb_session_id s) (cp_project_id (sb_policy s)) (sb_project_id s))
      else if cp_rule (sb_policy s) ''internet'' = None then Err (NeMissingInternetRule (sb_session_id s))
      else check_policy_rules zones [] (cp_rules (sb_policy s))))"

text \<open>\<open>tag\<close> is called on validated bindings only; its \<open>expect\<close> is the empty string here.\<close>

definition tag :: "session_binding \<Rightarrow> string" where
  "tag s = unwrap_or (strip_prefix ''agt_'' (sb_session_id s)) []"

definition cgroup_level :: "session_binding \<Rightarrow> nat" where
  "cgroup_level s = length (filter (\<lambda>part. part \<noteq> []) (split_on CHR ''/'' (sb_cgroup_path s)))"

fun enforcement_word :: "net_decision \<Rightarrow> string" where
  "enforcement_word NetAllow = ''allow''"
| "enforcement_word NetApprovalRequired = ''deny''"
| "enforcement_word NetDeny = ''deny''"

definition counter_name :: "string \<Rightarrow> string \<Rightarrow> net_decision \<Rightarrow> string" where
  "counter_name t zone decision =
     (let zone = (if zone = ''internet'' then ''residual'' else zone)
      in ''c_'' @ t @ ''_'' @ zone @ ''_'' @ enforcement_word decision)"

fun bind_counters ::
  "zones \<Rightarrow> session_binding \<Rightarrow> effective_rule list \<Rightarrow> (nft_error, counter_binding list) result" where
  "bind_counters zones s [] = Ok []"
| "bind_counters zones s (rule # rest) =
     (case bt_get zones (er_zone rule) of
        None \<Rightarrow> Err (NeUnknownPolicyZone (er_zone rule))
      | Some zone \<Rightarrow>
          res_bind (bind_counters zones s rest) (\<lambda>cs.
            Ok (\<lparr>cb_name = counter_name (tag s) (er_zone rule) (er_decision rule), cb_zone = er_zone rule,
                 cb_kind = zd_kind zone, cb_decision = er_decision rule\<rparr> # cs)))"

definition counter_bindings :: "zones \<Rightarrow> session_binding \<Rightarrow> (nft_error, counter_binding list) result" where
  "counter_bindings zones s =
     res_bind (binding_validate s zones) (\<lambda>_. bind_counters zones s (cp_rules (sb_policy s)))"

section \<open>Rendering\<close>

definition writeln :: "string \<Rightarrow> string" where
  "writeln s = s @ [CHR 0x0A]"

definition quoted :: "string \<Rightarrow> string" where
  "quoted s = [CHR 0x22] @ s @ [CHR 0x22]"

definition join_cidrs :: "cidr list \<Rightarrow> string" where
  "join_cidrs cs = join_with '', '' (map cidr_show cs)"

definition render_sets :: "memberships \<Rightarrow> string" where
  "render_sets ms =
     concat (map (\<lambda>(zone, members).
       let v4 = filter is_v4 (zm_cidrs members);
           v6 = filter (\<lambda>c. \<not> is_v4 c) (zm_cidrs members)
       in (if v4 \<noteq> []
           then writeln (''  set z_'' @ zone @ ''_v4 { type ipv4_addr; flags interval; elements = { ''
                  @ join_cidrs v4 @ '' } }'') else [])
          @ (if v6 \<noteq> []
             then writeln (''  set z_'' @ zone @ ''_v6 { type ipv6_addr; flags interval; elements = { ''
                    @ join_cidrs v6 @ '' } }'') else [])) ms)"

definition render_counters :: "session_binding list \<Rightarrow> string" where
  "render_counters ss =
     concat (map (\<lambda>s. concat (map (\<lambda>rule.
       writeln (''  counter '' @ counter_name (tag s) (er_zone rule) (er_decision rule) @ '' { }''))
       (cp_rules (sb_policy s)))) ss)"

definition escape_backslash :: "string \<Rightarrow> string" where
  "escape_backslash s = concat (map (\<lambda>c. if c = CHR 0x5C then [CHR 0x5C, CHR 0x5C] else [c]) s)"

definition render_egress :: "session_binding list \<Rightarrow> string" where
  "render_egress ss =
     writeln ''  chain egress {''
     @ writeln ''    type filter hook output priority filter - 10; policy accept;''
     @ concat (map (\<lambda>s. writeln (''    socket cgroupv2 level '' @ show_nat (cgroup_level s) @ '' ''
         @ quoted (escape_backslash (sb_cgroup_path s)) @ '' jump s_'' @ tag s)) ss)
     @ writeln ''  }''"

definition render_log :: "string \<Rightarrow> string \<Rightarrow> string" where
  "render_log zone t =
     writeln (''    limit rate 5/minute log prefix '' @ quoted (''punar-net deny '' @ zone @ '' '' @ t @ '' '')
       @ '' level info'')"

definition render_zone_rules :: "memberships \<Rightarrow> string \<Rightarrow> string \<Rightarrow> net_decision \<Rightarrow> string" where
  "render_zone_rules ms t zone decision =
     (case bt_get ms zone of
        None \<Rightarrow> []
      | Some members \<Rightarrow>
          let has_v4 = list_ex is_v4 (zm_cidrs members);
              has_v6 = list_ex (\<lambda>c. \<not> is_v4 c) (zm_cidrs members);
              counter = counter_name t zone decision
          in concat (map (\<lambda>(family, suffix, present).
               if \<not> present then []
               else if blocks decision
               then writeln (''    '' @ family @ '' daddr @z_'' @ zone @ ''_'' @ suffix
                      @ '' limit rate 5/minute log prefix '' @ quoted (''punar-net deny '' @ zone @ '' '' @ t @ '' '')
                      @ '' level info'')
                    @ writeln (''    '' @ family @ '' daddr @z_'' @ zone @ ''_'' @ suffix
                      @ '' counter name '' @ counter @ '' reject with icmpx type admin-prohibited'')
               else writeln (''    '' @ family @ '' daddr @z_'' @ zone @ ''_'' @ suffix
                      @ '' counter name '' @ counter @ '' accept''))
             [(''ip'', ''v4'', has_v4), (''ip6'', ''v6'', has_v6)]))"

definition render_session_chain :: "memberships \<Rightarrow> session_binding \<Rightarrow> (nft_error, string) result" where
  "render_session_chain ms s =
     (let t = tag s;
          rules = cp_rules (sb_policy s);
          zone_text = (\<lambda>r. render_zone_rules ms t (er_zone r) (er_decision r))
      in case cp_rule (sb_policy s) ''internet'' of
           None \<Rightarrow> Err (NeMissingInternetRule (sb_session_id s))
         | Some residual \<Rightarrow>
             let counter = counter_name t ''internet'' (er_decision residual)
             in Ok (writeln (''  chain s_'' @ t @ '' {'')
                  @ concat (map zone_text (filter (\<lambda>r. er_zone r \<noteq> ''internet'' \<and> blocks (er_decision r)) rules))
                  @ concat (map zone_text (filter (\<lambda>r. er_zone r \<noteq> ''internet'' \<and> er_decision r = NetAllow) rules))
                  @ writeln ''    ip daddr 127.0.0.0/8 accept''
                  @ writeln ''    ip6 daddr ::1/128 accept''
                  @ writeln ''    ip daddr 169.254.0.0/16 accept''
                  @ writeln ''    ip6 daddr fe80::/10 accept''
                  @ (if er_decision residual = NetAllow
                     then writeln (''    counter name '' @ counter @ '' accept'')
                     else render_log ''internet'' t
                          @ writeln (''    counter name '' @ counter @ '' reject with icmpx type admin-prohibited''))
                  @ writeln ''  }''))"

fun render_chains :: "memberships \<Rightarrow> session_binding list \<Rightarrow> (nft_error, string) result" where
  "render_chains ms [] = Ok []"
| "render_chains ms (s # ss) =
     res_bind (render_session_chain ms s) (\<lambda>c. res_bind (render_chains ms ss) (\<lambda>cs. Ok (c @ cs)))"

fun check_table_zones :: "zones \<Rightarrow> (nft_error, unit) result" where
  "check_table_zones [] = Ok ()"
| "check_table_zones ((key, zone) # rest) =
     (case zone_validate zone of
        Err e \<Rightarrow> Err (NeModel e)
      | Ok _ \<Rightarrow> if key \<noteq> zd_name zone then Err (NeZoneKeyMismatch key (zd_name zone)) else check_table_zones rest)"

fun check_bindings ::
  "zones \<Rightarrow> string list \<Rightarrow> string list \<Rightarrow> session_binding list \<Rightarrow> (nft_error, unit) result" where
  "check_bindings zones session_ids cgroups [] = Ok ()"
| "check_bindings zones session_ids cgroups (s # rest) =
     res_bind (binding_validate s zones) (\<lambda>_.
       if sb_session_id s \<in> set session_ids then Err (NeDuplicateSession (sb_session_id s))
       else if sb_cgroup_path s \<in> set cgroups then Err (NeDuplicateCgroup (sb_cgroup_path s))
       else check_bindings zones (sb_session_id s # session_ids) (sb_cgroup_path s # cgroups) rest)"

definition destroy_line :: string where
  "destroy_line = writeln (''destroy table '' @ TABLE_FAMILY @ '' '' @ TABLE_NAME)"

definition render_table ::
  "bool \<Rightarrow> zones \<Rightarrow> memberships \<Rightarrow> session_binding list \<Rightarrow> (nft_error, string) result" where
  "render_table replace_existing zones ms ss =
     res_bind (check_table_zones zones) (\<lambda>_.
     (case find (\<lambda>name. \<not> contains_key zones name) (bt_keys ms) of
        Some name \<Rightarrow> Err (NeUnknownMembership name)
      | None \<Rightarrow>
          res_bind (check_bindings zones [] [] ss) (\<lambda>_.
          res_bind (render_chains ms ss) (\<lambda>chains.
            Ok ((if replace_existing then destroy_line else [])
                @ writeln (''table '' @ TABLE_FAMILY @ '' '' @ TABLE_NAME @ '' {'')
                @ render_sets ms @ render_counters ss @ render_egress ss @ chains @ writeln ''}'')))))"

section \<open>The nftables fragment\<close>

datatype nft_family = Ip | Ip6

datatype nft_match = AnyPacket | DaddrSet nft_family string | DaddrNet nft_family cidr

datatype nft_verdict = Accept | Reject

datatype nft_stmt = LogLimited string | Counted string nft_verdict | Plain nft_verdict

type_synonym nft_rule = "nft_match \<times> nft_stmt"

record nft_table =
  nt_sets :: "(string \<times> nft_family \<times> cidr list) list"
  nt_counters :: "string list"
  nt_dispatch :: "(nat \<times> string \<times> string) list"
  nt_chains :: "(string \<times> nft_rule list) list"

subsection \<open>Its text\<close>

fun family_word :: "nft_family \<Rightarrow> string" where
  "family_word Ip = ''ip''"
| "family_word Ip6 = ''ip6''"

fun family_type :: "nft_family \<Rightarrow> string" where
  "family_type Ip = ''ipv4_addr''"
| "family_type Ip6 = ''ipv6_addr''"

fun match_text :: "nft_match \<Rightarrow> string" where
  "match_text AnyPacket = []"
| "match_text (DaddrSet f n) = family_word f @ '' daddr @'' @ n @ '' ''"
| "match_text (DaddrNet f c) = family_word f @ '' daddr '' @ cidr_show c @ '' ''"

fun verdict_text :: "nft_verdict \<Rightarrow> string" where
  "verdict_text Accept = ''accept''"
| "verdict_text Reject = ''reject with icmpx type admin-prohibited''"

fun stmt_text :: "nft_stmt \<Rightarrow> string" where
  "stmt_text (LogLimited p) = ''limit rate 5/minute log prefix '' @ quoted p @ '' level info''"
| "stmt_text (Counted c v) = ''counter name '' @ c @ '' '' @ verdict_text v"
| "stmt_text (Plain v) = verdict_text v"

definition rule_text :: "nft_rule \<Rightarrow> string" where
  "rule_text = (\<lambda>(m, s). ''    '' @ match_text m @ stmt_text s)"

definition set_text :: "string \<times> nft_family \<times> cidr list \<Rightarrow> string" where
  "set_text = (\<lambda>(n, f, cs). ''  set '' @ n @ '' { type '' @ family_type f
     @ ''; flags interval; elements = { '' @ join_cidrs cs @ '' } }'')"

definition dispatch_text :: "nat \<times> string \<times> string \<Rightarrow> string" where
  "dispatch_text = (\<lambda>(level, path, chain).
     ''    socket cgroupv2 level '' @ show_nat level @ '' '' @ quoted (escape_backslash path) @ '' jump '' @ chain)"

definition chain_lines :: "string \<times> nft_rule list \<Rightarrow> string list" where
  "chain_lines = (\<lambda>(n, rules). (''  chain '' @ n @ '' {'') # map rule_text rules @ [''  }''])"

definition table_lines :: "nft_table \<Rightarrow> string list" where
  "table_lines T =
     [''table inet punar-net {'']
     @ map set_text (nt_sets T)
     @ map (\<lambda>c. ''  counter '' @ c @ '' { }'') (nt_counters T)
     @ [''  chain egress {'', ''    type filter hook output priority filter - 10; policy accept;'']
     @ map dispatch_text (nt_dispatch T) @ [''  }'']
     @ concat (map chain_lines (nt_chains T))
     @ [''}'']"

definition lines_text :: "string list \<Rightarrow> string" where
  "lines_text ls = concat (map writeln ls)"

definition table_text :: "nft_table \<Rightarrow> string" where
  "table_text T = lines_text (table_lines T)"

subsection \<open>Its evaluation\<close>

text \<open>
  A packet is the control group path of its socket and its destination. Rules are read in order; a log
  statement goes on to the next rule; a verdict ends the evaluation; a jump whose chain ends without a
  verdict comes back; a packet no rule decides meets the policy of the base chain, which accepts.
\<close>

fun family_of :: "ip_addr \<Rightarrow> nft_family" where
  "family_of (V4Addr _) = Ip"
| "family_of (V6Addr _) = Ip6"

fun match_holds :: "(string \<times> nft_family \<times> cidr list) list \<Rightarrow> nft_match \<Rightarrow> ip_addr \<Rightarrow> bool" where
  "match_holds sets AnyPacket x = True"
| "match_holds sets (DaddrNet f c) x = (family_of x = f \<and> cidr_contains c x)"
| "match_holds sets (DaddrSet f n) x =
     (family_of x = f \<and>
      (case map_of sets n of None \<Rightarrow> False | Some (_, cs) \<Rightarrow> list_ex (\<lambda>c. cidr_contains c x) cs))"

fun stmt_verdict :: "nft_stmt \<Rightarrow> nft_verdict option" where
  "stmt_verdict (LogLimited _) = None"
| "stmt_verdict (Counted _ v) = Some v"
| "stmt_verdict (Plain v) = Some v"

fun chain_verdict ::
  "(string \<times> nft_family \<times> cidr list) list \<Rightarrow> nft_rule list \<Rightarrow> ip_addr \<Rightarrow> nft_verdict option" where
  "chain_verdict sets [] x = None"
| "chain_verdict sets ((m, s) # rules) x =
     (if match_holds sets m x \<and> stmt_verdict s \<noteq> None then stmt_verdict s else chain_verdict sets rules x)"

definition cgroup_selects :: "nat \<Rightarrow> string \<Rightarrow> string \<Rightarrow> bool" where
  "cgroup_selects level path socket = (take level (path_components socket) = path_components path)"

fun egress_verdict :: "nft_table \<Rightarrow> (nat \<times> string \<times> string) list \<Rightarrow> string \<Rightarrow> ip_addr \<Rightarrow> nft_verdict" where
  "egress_verdict T [] socket x = Accept"
| "egress_verdict T ((level, path, chain) # ds) socket x =
     (case (if cgroup_selects level path socket
            then Option.bind (map_of (nt_chains T) chain) (\<lambda>rules. chain_verdict (nt_sets T) rules x)
            else None) of
        Some v \<Rightarrow> v
      | None \<Rightarrow> egress_verdict T ds socket x)"

definition table_verdict :: "nft_table \<Rightarrow> string \<Rightarrow> ip_addr \<Rightarrow> nft_verdict" where
  "table_verdict T socket x = egress_verdict T (nt_dispatch T) socket x"

subsection \<open>The table a policy stands for\<close>

definition sets_of :: "memberships \<Rightarrow> (string \<times> nft_family \<times> cidr list) list" where
  "sets_of ms =
     concat (map (\<lambda>(zone, members).
       let v4 = filter is_v4 (zm_cidrs members); v6 = filter (\<lambda>c. \<not> is_v4 c) (zm_cidrs members)
       in (if v4 \<noteq> [] then [(''z_'' @ zone @ ''_v4'', Ip, v4)] else [])
          @ (if v6 \<noteq> [] then [(''z_'' @ zone @ ''_v6'', Ip6, v6)] else [])) ms)"

definition zone_rules :: "memberships \<Rightarrow> string \<Rightarrow> string \<Rightarrow> net_decision \<Rightarrow> nft_rule list" where
  "zone_rules ms t zone decision =
     (case bt_get ms zone of
        None \<Rightarrow> []
      | Some members \<Rightarrow>
          let counter = counter_name t zone decision;
              rules = (\<lambda>f suffix.
                let m = DaddrSet f (''z_'' @ zone @ ''_'' @ suffix)
                in if blocks decision
                   then [(m, LogLimited (''punar-net deny '' @ zone @ '' '' @ t @ '' '')), (m, Counted counter Reject)]
                   else [(m, Counted counter Accept)])
          in (if list_ex is_v4 (zm_cidrs members) then rules Ip ''v4'' else [])
             @ (if list_ex (\<lambda>c. \<not> is_v4 c) (zm_cidrs members) then rules Ip6 ''v6'' else []))"

definition local_rules :: "nft_rule list" where
  "local_rules =
     [(DaddrNet Ip (V4 0x7F000000 8), Plain Accept), (DaddrNet Ip6 (V6 1 128), Plain Accept),
      (DaddrNet Ip (V4 0xA9FE0000 16), Plain Accept),
      (DaddrNet Ip6 (V6 0xfe800000000000000000000000000000 10), Plain Accept)]"

definition residual_rules :: "string \<Rightarrow> net_decision \<Rightarrow> nft_rule list" where
  "residual_rules t decision =
     (let counter = counter_name t ''internet'' decision
      in if decision = NetAllow then [(AnyPacket, Counted counter Accept)]
         else [(AnyPacket, LogLimited (''punar-net deny internet '' @ t @ '' '')), (AnyPacket, Counted counter Reject)])"

definition session_rules :: "memberships \<Rightarrow> session_binding \<Rightarrow> nft_rule list" where
  "session_rules ms s =
     (let rules = cp_rules (sb_policy s);
          zone = (\<lambda>r. zone_rules ms (tag s) (er_zone r) (er_decision r))
      in concat (map zone (filter (\<lambda>r. er_zone r \<noteq> ''internet'' \<and> blocks (er_decision r)) rules))
         @ concat (map zone (filter (\<lambda>r. er_zone r \<noteq> ''internet'' \<and> er_decision r = NetAllow) rules))
         @ local_rules
         @ residual_rules (tag s) (er_decision (the (cp_rule (sb_policy s) ''internet''))))"

definition table_of :: "memberships \<Rightarrow> session_binding list \<Rightarrow> nft_table" where
  "table_of ms ss =
     \<lparr>nt_sets = sets_of ms,
      nt_counters = concat (map (\<lambda>s. map (\<lambda>r. counter_name (tag s) (er_zone r) (er_decision r))
        (cp_rules (sb_policy s))) ss),
      nt_dispatch = map (\<lambda>s. (cgroup_level s, sb_cgroup_path s, ''s_'' @ tag s)) ss,
      nt_chains = map (\<lambda>s. (''s_'' @ tag s, session_rules ms s)) ss\<rparr>"

section \<open>The rendered text is the text of that table\<close>

lemma lines_text_simps [simp]:
  "lines_text [] = []" "lines_text (l # ls) = writeln l @ lines_text ls"
  "lines_text (ls @ ks) = lines_text ls @ lines_text ks"
  by (simp_all add: lines_text_def)

lemma lines_text_concat: "lines_text (concat lss) = concat (map lines_text lss)"
  by (induction lss) simp_all

lemma render_sets_text: "render_sets ms = lines_text (map set_text (sets_of ms))"
  by (induction ms) (auto simp: render_sets_def sets_of_def set_text_def Let_def)

lemma render_counters_text:
  "render_counters ss = lines_text (map (\<lambda>c. ''  counter '' @ c @ '' { }'') (nt_counters (table_of ms ss)))"
  by (simp add: render_counters_def table_of_def map_concat lines_text_concat o_def)
    (simp add: lines_text_def o_def)

lemma render_egress_text:
  "render_egress ss = lines_text ([''  chain egress {'',
     ''    type filter hook output priority filter - 10; policy accept;'']
     @ map dispatch_text (nt_dispatch (table_of ms ss)) @ [''  }''])"
  by (simp add: render_egress_def table_of_def dispatch_text_def lines_text_def o_def)

lemma render_zone_rules_text:
  "render_zone_rules ms t zone d = lines_text (map rule_text (zone_rules ms t zone d))"
  by (simp add: render_zone_rules_def zone_rules_def rule_text_def Let_def split: option.splits)

lemma local_rules_text:
  "lines_text (map rule_text local_rules) =
     writeln ''    ip daddr 127.0.0.0/8 accept'' @ writeln ''    ip6 daddr ::1/128 accept''
     @ writeln ''    ip daddr 169.254.0.0/16 accept'' @ writeln ''    ip6 daddr fe80::/10 accept''"
  by code_simp

lemma residual_rules_text:
  "lines_text (map rule_text (residual_rules t d)) =
     (if d = NetAllow then writeln (''    counter name '' @ counter_name t ''internet'' d @ '' accept'')
      else render_log ''internet'' t
        @ writeln (''    counter name '' @ counter_name t ''internet'' d @ '' reject with icmpx type admin-prohibited''))"
  by (simp add: residual_rules_def rule_text_def render_log_def Let_def)

lemma render_session_chain_text:
  "render_session_chain ms s = Ok c \<Longrightarrow> c = lines_text (chain_lines (''s_'' @ tag s, session_rules ms s))"
  by (auto simp: render_session_chain_def chain_lines_def session_rules_def Let_def map_concat o_def
      lines_text_concat render_zone_rules_text local_rules_text residual_rules_text split: option.splits if_splits)

lemma render_chains_text:
  "render_chains ms ss = Ok cs \<Longrightarrow>
   cs = lines_text (concat (map chain_lines (map (\<lambda>s. (''s_'' @ tag s, session_rules ms s)) ss)))"
  by (induction ss arbitrary: cs) (auto simp: res_bind_Ok_iff dest!: render_session_chain_text)

lemma render_table_text:
  assumes "render_table replace zones ms ss = Ok text"
  shows "text = (if replace then destroy_line else []) @ table_text (table_of ms ss)"
proof -
  obtain cs where cs: "render_chains ms ss = Ok cs"
    and out: "text = (if replace then destroy_line else [])
      @ writeln (''table '' @ TABLE_FAMILY @ '' '' @ TABLE_NAME @ '' {'')
      @ render_sets ms @ render_counters ss @ render_egress ss @ cs @ writeln ''}''"
    using assms by (auto simp: render_table_def res_bind_Ok_iff split: option.splits)
  have "nt_sets (table_of ms ss) = sets_of ms"
    and "nt_chains (table_of ms ss) = map (\<lambda>s. (''s_'' @ tag s, session_rules ms s)) ss"
    by (simp_all add: table_of_def)
  then show ?thesis
    unfolding out table_text_def table_lines_def
    by (simp add: TABLE_FAMILY_def TABLE_NAME_def render_sets_text render_counters_text [of ss ms]
        render_egress_text [of ss ms] render_chains_text [OF cs])
qed

section \<open>What the table decides\<close>

lemma chain_verdict_append:
  "chain_verdict sets (as @ bs) x =
     (case chain_verdict sets as x of Some v \<Rightarrow> Some v | None \<Rightarrow> chain_verdict sets bs x)"
  by (induction sets as x rule: chain_verdict.induct) (auto split: option.splits)

lemma is_v4_contains: "cidr_contains c x \<Longrightarrow> is_v4 c \<longleftrightarrow> family_of x = Ip"
  by (cases c; cases x) auto

lemma map_of_sets:
  assumes "bt_ok ms"
  shows "map_of (sets_of ms) (''z_'' @ zone @ ''_v4'') =
      (case bt_get ms zone of None \<Rightarrow> None | Some m \<Rightarrow>
         if list_ex is_v4 (zm_cidrs m) then Some (Ip, filter is_v4 (zm_cidrs m)) else None)" (is ?v4)
    and "map_of (sets_of ms) (''z_'' @ zone @ ''_v6'') =
      (case bt_get ms zone of None \<Rightarrow> None | Some m \<Rightarrow>
         if list_ex (\<lambda>c. \<not> is_v4 c) (zm_cidrs m) then Some (Ip6, filter (\<lambda>c. \<not> is_v4 c) (zm_cidrs m)) else None)"
      (is ?v6)
proof -
  have "?v4 \<and> ?v6" using assms
  proof (induction ms)
    case (Cons a ms)
    obtain z m where a: "a = (z, m)" by (cases a)
    have none: "z = zone \<Longrightarrow> bt_get ms zone = None"
      using Cons(2) by (auto simp: a bt_ok_Cons intro!: bt_get_absent)
    have "bt_ok ms" using Cons(2) by (simp add: a bt_ok_Cons)
    then show ?case using Cons(1) none
      by (auto simp: a sets_of_def bt_get_def Let_def list_ex_iff filter_empty_conv map_of_append map_add_def
          split: option.splits)
  qed (simp add: sets_of_def bt_get_def)
  then show ?v4 ?v6 by simp_all
qed

lemma zone_rules_verdict:
  assumes "bt_ok ms"
  shows "chain_verdict (sets_of ms) (zone_rules ms t zone d) x =
    (if in_zone ms zone x then Some (if blocks d then Reject else Accept) else None)"
proof (cases "bt_get ms zone")
  case (Some m)
  show ?thesis
    using map_of_sets [OF assms, of zone] is_v4_contains [of _ x]
    by (cases "family_of x") (auto simp: zone_rules_def in_zone_def Some Let_def list_ex_iff)
qed (simp add: zone_rules_def in_zone_def)

lemma zones_verdict:
  assumes "bt_ok ms" "\<And>r. r \<in> set rules \<Longrightarrow> blocks (er_decision r) = b"
  shows "chain_verdict (sets_of ms) (concat (map (\<lambda>r. zone_rules ms t (er_zone r) (er_decision r)) rules)) x =
    (if \<exists>r \<in> set rules. in_zone ms (er_zone r) x then Some (if b then Reject else Accept) else None)"
  using assms(2)
  by (induction rules) (auto simp: chain_verdict_append zone_rules_verdict [OF assms(1)] split: option.splits)

text \<open>The addresses a session may always reach: loopback and link-local.\<close>

definition local_address :: "ip_addr \<Rightarrow> bool" where
  "local_address x =
     list_ex (\<lambda>c. cidr_contains c x)
       [V4 0x7F000000 8, V6 1 128, V4 0xA9FE0000 16, V6 0xfe800000000000000000000000000000 10]"

text \<open>
  What a policy means for a destination: a blocked zone refuses it, then an allowed zone lets it
  through, then the local addresses, and the \<open>internet\<close> decision settles the rest.
\<close>

definition policy_verdict :: "memberships \<Rightarrow> compiled_project \<Rightarrow> ip_addr \<Rightarrow> nft_verdict" where
  "policy_verdict ms cp x =
     (if list_ex (\<lambda>r. er_zone r \<noteq> ''internet'' \<and> blocks (er_decision r) \<and> in_zone ms (er_zone r) x) (cp_rules cp)
      then Reject
      else if list_ex (\<lambda>r. er_zone r \<noteq> ''internet'' \<and> er_decision r = NetAllow \<and> in_zone ms (er_zone r) x) (cp_rules cp)
      then Accept
      else if local_address x then Accept
      else if blocks (er_decision (the (cp_rule cp ''internet''))) then Reject else Accept)"

lemma local_rules_verdict:
  "chain_verdict sets local_rules x = (if local_address x then Some Accept else None)"
  by (cases x) (simp_all add: local_rules_def local_address_def)

lemma residual_rules_verdict:
  "chain_verdict sets (residual_rules t d) x = Some (if blocks d then Reject else Accept)"
  by (simp add: residual_rules_def Let_def blocks_def)

lemma session_rules_verdict:
  assumes "bt_ok ms"
  shows "chain_verdict (sets_of ms) (session_rules ms s) x = Some (policy_verdict ms (sb_policy s) x)"
proof -
  let ?rules = "cp_rules (sb_policy s)"
  let ?B = "filter (\<lambda>r. er_zone r \<noteq> ''internet'' \<and> blocks (er_decision r)) ?rules"
  let ?A = "filter (\<lambda>r. er_zone r \<noteq> ''internet'' \<and> er_decision r = NetAllow) ?rules"
  have B: "chain_verdict (sets_of ms) (concat (map (\<lambda>r. zone_rules ms (tag s) (er_zone r) (er_decision r)) ?B)) x =
      (if \<exists>r \<in> set ?B. in_zone ms (er_zone r) x then Some Reject else None)"
    by (subst zones_verdict [OF assms, where b = True]) auto
  have A: "chain_verdict (sets_of ms) (concat (map (\<lambda>r. zone_rules ms (tag s) (er_zone r) (er_decision r)) ?A)) x =
      (if \<exists>r \<in> set ?A. in_zone ms (er_zone r) x then Some Accept else None)"
    by (subst zones_verdict [OF assms, where b = False]) (auto simp: blocks_def)
  show ?thesis
    unfolding session_rules_def Let_def chain_verdict_append A B local_rules_verdict residual_rules_verdict
    by (auto simp: policy_verdict_def list_ex_iff)
qed

lemma check_bindings_ok:
  assumes "check_bindings zones ids paths ss = Ok ()"
  shows "list_all (\<lambda>s. binding_validate s zones = Ok ()) ss \<and> distinct (map sb_session_id ss)
    \<and> set (map sb_session_id ss) \<inter> set ids = {}"
  using assms by (induction zones ids paths ss rule: check_bindings.induct) (auto simp: res_bind_Ok_iff split: if_splits)

lemma binding_validate_ok:
  assumes "binding_validate s zones = Ok ()"
  shows "sb_session_id s = ''agt_'' @ tag s" "tag s \<noteq> []" "list_all is_ascii_alphanumeric (tag s)"
    "validate_cgroup_path (sb_cgroup_path s) = Ok ()" "cp_rule (sb_policy s) ''internet'' \<noteq> None"
    "list_all (\<lambda>r. contains_key zones (er_zone r)) (cp_rules (sb_policy s))"
proof -
  have ok: "validate_session_id (sb_session_id s) = Ok ()" "validate_cgroup_path (sb_cgroup_path s) = Ok ()"
    "cp_rule (sb_policy s) ''internet'' \<noteq> None" "check_policy_rules zones [] (cp_rules (sb_policy s)) = Ok ()"
    using assms by (auto simp: binding_validate_def split: sum.splits if_splits)
  have "check_policy_rules zones seen rules = Ok () \<Longrightarrow> list_all (\<lambda>r. contains_key zones (er_zone r)) rules"
    for seen rules by (induction zones seen rules rule: check_policy_rules.induct) (auto split: if_splits)
  then show "validate_cgroup_path (sb_cgroup_path s) = Ok ()" "cp_rule (sb_policy s) ''internet'' \<noteq> None"
    "list_all (\<lambda>r. contains_key zones (er_zone r)) (cp_rules (sb_policy s))" using ok by auto
  have "prefixed_id ''agt_'' (sb_session_id s)"
    using ok(1) by (simp add: validate_session_id_def session_id_ok_def split: if_splits)
  then obtain r where "sb_session_id s = ''agt_'' @ r" "r \<noteq> []" "list_all is_ascii_alphanumeric r"
    unfolding prefixed_id_iff by blast
  moreover from this have "tag s = r" by (simp only: tag_def strip_prefix_append unwrap_or_simps)
  ultimately show "sb_session_id s = ''agt_'' @ tag s" "tag s \<noteq> []" "list_all is_ascii_alphanumeric (tag s)"
    by auto
qed

lemma render_table_checks:
  assumes "render_table replace zones ms ss = Ok text"
  shows "check_table_zones zones = Ok ()" "list_all (\<lambda>s. binding_validate s zones = Ok ()) ss"
    "distinct (map sb_session_id ss)" "\<forall>(n, m) \<in> set ms. contains_key zones n"
  using assms check_bindings_ok [of zones "[]" "[]" ss]
  by (auto simp: render_table_def res_bind_Ok_iff find_None_iff bt_keys_def split: option.splits)

lemma tags_distinct:
  assumes "list_all (\<lambda>s. binding_validate s zones = Ok ()) ss" "distinct (map sb_session_id ss)"
  shows "distinct (map (\<lambda>s. ''s_'' @ tag s) ss)"
proof -
  have "map sb_session_id ss = map (\<lambda>s. ''agt_'' @ tag s) ss"
    using assms(1) binding_validate_ok(1) by (auto simp: list_all_iff)
  then show ?thesis using assms(2) by (auto simp: distinct_map inj_on_def)
qed

lemma egress_verdict_sessions:
  assumes "\<And>s. s \<in> set ss \<Longrightarrow> map_of (nt_chains T) (''s_'' @ tag s) = Some (session_rules ms s)"
    and "nt_sets T = sets_of ms" "bt_ok ms"
    and "\<And>s. s \<in> set ss \<Longrightarrow> validate_cgroup_path (sb_cgroup_path s) = Ok ()"
    and "validate_cgroup_path p = Ok ()"
  shows "egress_verdict T (map (\<lambda>s. (cgroup_level s, sb_cgroup_path s, ''s_'' @ tag s)) ss) p x =
    (case find (\<lambda>s. within p (sb_cgroup_path s)) ss of
       None \<Rightarrow> Accept
     | Some s \<Rightarrow> policy_verdict ms (sb_policy s) x)"
  using assms(1,4)
proof (induction ss)
  case (Cons s ss)
  have "cgroup_selects (cgroup_level s) (sb_cgroup_path s) p \<longleftrightarrow> within p (sb_cgroup_path s)"
    using within_components [OF assms(5)] Cons(3)
    by (simp add: cgroup_selects_def cgroup_level_def path_components_def)
  moreover have "Option.bind (map_of (nt_chains T) (''s_'' @ tag s)) (\<lambda>rules. chain_verdict (nt_sets T) rules x) =
      Some (policy_verdict ms (sb_policy s) x)"
    by (simp only: Cons(2) list.set_intros(1) bind.bind_lunit assms(2) session_rules_verdict [OF assms(3)])
  ultimately show ?case using Cons by simp
qed simp

lemma table_verdict_sessions:
  assumes "list_all (\<lambda>s. binding_validate s zones = Ok ()) ss" "distinct (map sb_session_id ss)"
    and "bt_ok ms" "validate_cgroup_path p = Ok ()"
  shows "table_verdict (table_of ms ss) p x =
    (case find (\<lambda>s. within p (sb_cgroup_path s)) ss of
       None \<Rightarrow> Accept
     | Some s \<Rightarrow> policy_verdict ms (sb_policy s) x)"
proof -
  have chains: "nt_chains (table_of ms ss) = map (\<lambda>s. (''s_'' @ tag s, session_rules ms s)) ss"
    and sets: "nt_sets (table_of ms ss) = sets_of ms"
    and disp: "nt_dispatch (table_of ms ss) = map (\<lambda>s. (cgroup_level s, sb_cgroup_path s, ''s_'' @ tag s)) ss"
    by (simp_all add: table_of_def)
  have d: "distinct (map fst (nt_chains (table_of ms ss)))"
    using tags_distinct [OF assms(1,2)] by (simp add: chains o_def)
  have "map_of (nt_chains (table_of ms ss)) (''s_'' @ tag s) = Some (session_rules ms s)" if "s \<in> set ss" for s
    by (rule map_of_is_SomeI [OF d]) (use that in \<open>auto simp: chains\<close>)
  then show ?thesis unfolding table_verdict_def disp
    by (rule egress_verdict_sessions [OF _ sets assms(3) _ assms(4)])
      (use assms(1) binding_validate_ok(4) in \<open>auto simp: list_all_iff\<close>)
qed

section \<open>Decisions and verdicts\<close>

definition zone_decision :: "compiled_project \<Rightarrow> string \<Rightarrow> net_decision" where
  "zone_decision cp z = (case cp_rule cp z of Some r \<Rightarrow> er_decision r | None \<Rightarrow> NetDeny)"

lemma cp_rule_unique:
  assumes "distinct (map er_zone (cp_rules cp))"
  shows "cp_rule cp z = Some r \<longleftrightarrow> r \<in> set (cp_rules cp) \<and> er_zone r = z"
proof
  assume "cp_rule cp z = Some r"
  then show "r \<in> set (cp_rules cp) \<and> er_zone r = z" by (auto simp: cp_rule_def find_Some_iff)
next
  assume r: "r \<in> set (cp_rules cp) \<and> er_zone r = z"
  then have "cp_rule cp z \<noteq> None" by (auto simp: cp_rule_def find_None_iff)
  then obtain q where q: "cp_rule cp z = Some q" by blast
  then have "q \<in> set (cp_rules cp) \<and> er_zone q = z" by (auto simp: cp_rule_def find_Some_iff)
  then have "q = r" using r assms by (metis distinct_map inj_onD)
  then show "cp_rule cp z = Some r" using q by simp
qed

text \<open>With one rule per declared zone and disjoint zones, the verdict is the decision of the destination's zone.\<close>

lemma policy_verdict_zone:
  assumes ms: "bt_ok ms" "list_all (membership_ok zones) ms" "overlapping ms = []"
    and zones: "bt_ok zones" "contains_key zones ''internet''" and rules: "map er_zone (cp_rules cp) = bt_keys zones"
  shows "policy_verdict ms cp x =
    (if zone_of ms x = ''internet'' \<and> local_address x \<or> \<not> blocks (zone_decision cp (zone_of ms x))
     then Accept else Reject)"
proof -
  have d: "distinct (map er_zone (cp_rules cp))" using zones(1) bt_ok_distinct by (simp add: rules bt_keys_def)
  note unique = cp_rule_unique [OF d]
  have known: "\<exists>r. cp_rule cp z = Some r" if "contains_key zones z" for z
  proof -
    have "z \<in> er_zone ` set (cp_rules cp)" using that arg_cong [OF rules, of set] by (simp add: contains_key_keys)
    then show ?thesis using unique by blast
  qed
  let ?in = "\<lambda>P. list_ex (\<lambda>r. er_zone r \<noteq> ''internet'' \<and> P (er_decision r) \<and> in_zone ms (er_zone r) x) (cp_rules cp)"
  have inz: "?in P \<longleftrightarrow> zone_of ms x \<noteq> ''internet'' \<and> P (zone_decision cp (zone_of ms x))" for P
  proof
    assume "?in P"
    then obtain r where "r \<in> set (cp_rules cp)" "er_zone r \<noteq> ''internet''" "P (er_decision r)" "in_zone ms (er_zone r) x"
      by (auto simp: list_ex_iff)
    moreover from this have "zone_of ms x = er_zone r" using zone_of_member [OF ms] by blast
    ultimately show "zone_of ms x \<noteq> ''internet'' \<and> P (zone_decision cp (zone_of ms x))"
      using unique [of "er_zone r" r] by (simp add: zone_decision_def)
  next
    assume z: "zone_of ms x \<noteq> ''internet'' \<and> P (zone_decision cp (zone_of ms x))"
    then have i: "in_zone ms (zone_of ms x) x" using zone_of_member [OF ms] by blast
    obtain r where r: "cp_rule cp (zone_of ms x) = Some r" using known in_zone_known [OF ms(1,2) i] by blast
    then have "P (er_decision r)" using z by (simp add: zone_decision_def)
    then show "?in P" using z i iffD1 [OF unique r] unfolding list_ex_iff by (intro bexI [of _ r]) simp_all
  qed
  obtain q where q: "cp_rule cp ''internet'' = Some q" using known zones(2) by blast
  show ?thesis using inz [of blocks] inz [of "\<lambda>d. d = NetAllow"]
    unfolding policy_verdict_def by (auto simp: q zone_decision_def blocks_def split: option.splits)
qed

lemma deny_all_rules: "map er_zone (cp_rules (deny_all p zones)) = bt_keys zones"
  by (simp add: deny_all_def o_def)

lemma deny_all_decision: "zone_decision (deny_all p zones) z = NetDeny"
proof -
  have "\<forall>r \<in> set (cp_rules (deny_all p zones)). er_decision r = NetDeny" by (auto simp: deny_all_def)
  then show ?thesis by (auto simp: zone_decision_def cp_rule_def find_Some_iff split: option.splits)
qed

section \<open>Properties\<close>

text \<open>
  What is relied on of \<open>nft\<close> and the kernel for one table: the transaction with that text, after the
  deletion of the old table or without it, makes packets meet the verdict the manual describes. Paths
  with a backslash are left out, because the manual does not say how it reads one in a string.
\<close>

definition nft_reads :: "(string \<Rightarrow> string \<Rightarrow> ip_addr \<Rightarrow> nft_verdict) \<Rightarrow> nft_table \<Rightarrow> bool" where
  "nft_reads V T \<longleftrightarrow>
     ((\<forall>d \<in> set (nt_dispatch T). CHR 0x5C \<notin> set (fst (snd d))) \<longrightarrow>
      V (table_text T) = table_verdict T \<and> V (destroy_line @ table_text T) = table_verdict T)"

lemma loaded_verdict:
  assumes "render_table replace zones ms ss = Ok text" "nft_reads V (table_of ms ss)"
    and "\<forall>s \<in> set ss. CHR 0x5C \<notin> set (sb_cgroup_path s)"
  shows "V text = table_verdict (table_of ms ss)"
proof -
  have "\<forall>d \<in> set (nt_dispatch (table_of ms ss)). CHR 0x5C \<notin> set (fst (snd d))"
    using assms(3) by (simp add: table_of_def)
  then show ?thesis
    using assms(2) render_table_text [OF assms(1)] unfolding nft_reads_def by (cases replace) simp_all
qed

text \<open>
  C8. The file the daemon renders makes the packet filter do what the compiled policies say: a packet
  of a socket inside a session's control group, or below it, meets that session's policy, where a
  blocked zone wins over an allowed one; a packet of any other socket is let through. When two scopes
  contain the socket, the session first in the file decides.
\<close>

theorem ruleset_enforces_policy:
  assumes "render_table replace zones ms ss = Ok text"
    and "bt_ok ms" "validate_cgroup_path p = Ok ()"
    and "\<forall>s \<in> set ss. CHR 0x5C \<notin> set (sb_cgroup_path s)"
    and "nft_reads V (table_of ms ss)"
  shows "V text p x =
    (case find (\<lambda>s. within p (sb_cgroup_path s)) ss of
       None \<Rightarrow> Accept
     | Some s \<Rightarrow> policy_verdict ms (sb_policy s) x)"
  using table_verdict_sessions [OF render_table_checks(2,3) [OF assms(1)] assms(2,3)]
    loaded_verdict [OF assms(1,5,4)] by simp

text \<open>A session of the project compiled above.\<close>

definition demo_scope :: string where
  "demo_scope = ''/user.slice/punar-agent-agt_1.scope''"

definition demo_binding :: session_binding where
  "demo_binding = \<lparr>sb_session_id = ''agt_1'', sb_project_id = ''atlas'', sb_cgroup_path = demo_scope,
     sb_policy = demo_compiled\<rparr>"

lemma demo_render: "is_ok (render_table True demo_zones demo_memberships [demo_binding])"
  by code_simp

lemma demo_memberships_ok: "bt_ok demo_memberships"
  by (simp add: demo_memberships_def bt_ok_Cons)

lemma demo_packets:
  "validate_cgroup_path demo_scope = Ok ()"
  "\<forall>s \<in> set [demo_binding]. CHR 0x5C \<notin> set (sb_cgroup_path s)"
  "nft_reads (\<lambda>_. table_verdict (table_of demo_memberships [demo_binding])) (table_of demo_memberships [demo_binding])"
  "find (\<lambda>s. within demo_scope (sb_cgroup_path s)) [demo_binding] = Some demo_binding"
  subgoal by code_simp
  subgoal by (simp add: demo_binding_def demo_scope_def)
  subgoal by (simp add: nft_reads_def)
  subgoal by (simp add: demo_binding_def within_def)
  done

lemma demo_zones_ok: "zones_ok demo_zones"
  by (simp add: zones_ok_def demo_zones_def bt_ok_Cons contains_key_def bt_get_def demo_zone_def) code_simp

theorem ruleset_enforces_policy_witness:
  "\<exists>text. render_table True demo_zones demo_memberships [demo_binding] = Ok text \<and>
     (\<lambda>_. table_verdict (table_of demo_memberships [demo_binding])) text demo_scope (V4Addr 0x0A1E0001) = Reject \<and>
     (\<lambda>_. table_verdict (table_of demo_memberships [demo_binding])) text demo_scope (V4Addr 0x0A140001) = Accept"
proof -
  obtain out where r: "render_table True demo_zones demo_memberships [demo_binding] = Ok out"
    using demo_render unfolding is_ok_iff by blast
  let ?V = "\<lambda>_ :: string. table_verdict (table_of demo_memberships [demo_binding])"
  have "policy_verdict demo_memberships (sb_policy demo_binding) (V4Addr 0x0A1E0001) = Reject"
    "policy_verdict demo_memberships (sb_policy demo_binding) (V4Addr 0x0A140001) = Accept" by code_simp+
  moreover have "?V out demo_scope x = policy_verdict demo_memberships (sb_policy demo_binding) x" for x
    using ruleset_enforces_policy [OF r demo_memberships_ok demo_packets(1-3), of x]
    unfolding demo_packets(4) by (simp only: option.case)
  ultimately show ?thesis using r by (intro exI [of _ out]) simp
qed

text \<open>
  C15. The connection view and the packet filter agree on zones. For memberships the daemon accepted
  and a session whose policy has one rule per declared zone, the rendered file lets a packet of the
  session through exactly when the zone the view names for its destination is allowed, or the
  destination is loopback or link-local and in no zone.
\<close>

theorem view_and_filter_agree:
  assumes rendered: "render_table replace zones ms ss = Ok text" "nft_reads V (table_of ms ss)"
      "\<forall>s \<in> set ss. CHR 0x5C \<notin> set (sb_cgroup_path s)"
    and data: "parse_zone_memberships S input zones = Ok ms" "zones_ok zones"
    and session: "validate_cgroup_path p = Ok ()" "find (\<lambda>s. within p (sb_cgroup_path s)) ss = Some s"
      "map er_zone (cp_rules (sb_policy s)) = bt_keys zones"
    and view: "classify_connection x state zones ms = Ok v"
  shows "V text p x = Accept \<longleftrightarrow>
    zone_decision (sb_policy s) (cv_zone v) = NetAllow \<or> cv_zone v = ''internet'' \<and> local_address x"
proof -
  have ms: "bt_ok ms" "list_all (membership_ok zones) ms" "overlapping ms = []"
    using parse_memberships_ok [OF data(1)] by blast+
  have z: "bt_ok zones" "contains_key zones ''internet''" "\<forall>(k, z) \<in> set zones. k = zd_name z"
    using data(2) by (auto simp: zones_ok_def)
  obtain zone where g: "bt_get zones (zone_of ms x) = Some zone" and n: "cv_zone v = zd_name zone"
    using view by (auto simp: classify_connection_def zone_of_def Let_def split: option.splits)
  have "cv_zone v = zone_of ms x" using bspec [OF z(3) iffD2 [OF bt_entries_get [OF z(1)] g]] n by simp
  moreover have "V text p x = policy_verdict ms (sb_policy s) x"
    using table_verdict_sessions [OF render_table_checks(2,3) [OF rendered(1)] ms(1) session(1)]
      loaded_verdict [OF rendered] session(2) by simp
  ultimately show ?thesis using policy_verdict_zone [OF ms z(1,2) session(3)] by (auto simp: blocks_def)
qed

theorem view_and_filter_agree_witness:
  "\<exists>text v. render_table True demo_zones demo_memberships [demo_binding] = Ok text \<and>
     classify_connection (V4Addr 0x0A1E0001) Established demo_zones demo_memberships = Ok v \<and> cv_zone v = ''prod'' \<and>
     (\<lambda>_ :: string. table_verdict (table_of demo_memberships [demo_binding])) text demo_scope (V4Addr 0x0A1E0001) \<noteq> Accept"
proof -
  obtain out where r: "render_table True demo_zones demo_memberships [demo_binding] = Ok out"
    using demo_render unfolding is_ok_iff by blast
  have k: "map er_zone (cp_rules (sb_policy demo_binding)) = bt_keys demo_zones"
    "zone_decision (sb_policy demo_binding) ''prod'' = NetDeny" by code_simp+
  have "map_sum id cv_zone (classify_connection (V4Addr 0x0A1E0001) Established demo_zones demo_memberships) = Ok ''prod''"
    by code_simp
  then obtain v where v: "classify_connection (V4Addr 0x0A1E0001) Established demo_zones demo_memberships = Ok v"
    "cv_zone v = ''prod''"
    by (cases "classify_connection (V4Addr 0x0A1E0001) Established demo_zones demo_memberships") auto
  show ?thesis
    using view_and_filter_agree [OF r demo_packets(3,2) demo_parse demo_zones_ok demo_packets(1,4) k(1) v(1)]
      r v k(2) by (intro exI [of _ out] exI [of _ v]) simp
qed

end
