(* ===== verification/Net_Lines.thy ===== *)
theory Net_Lines
  imports Net_Ruleset
begin

text \<open>
  The text of \<open>nft.rs\<close> as lines: the names and quoted strings of a rendered table cannot end a line, a
  name or a string, so the file given to \<open>nft\<close> has exactly the statements of the table.
\<close>

section \<open>One line per statement\<close>

text \<open>A byte that can end neither a line nor a quoted string, and an identifier of the fragment.\<close>

definition printable :: "char \<Rightarrow> bool" where
  "printable c = (\<not> is_ascii_control c)"

definition ident_ok :: "string \<Rightarrow> bool" where
  "ident_ok s = (s \<noteq> [] \<and> list_all (\<lambda>c. is_ascii_alphanumeric c \<or> c = CHR ''_'') s)"

definition quotable :: "string \<Rightarrow> bool" where
  "quotable s = list_all (\<lambda>c. printable c \<and> c \<noteq> CHR 0x22) s"

lemma split_on_none: "c \<notin> set s \<Longrightarrow> split_on c s = [s]"
  by (induction s) auto

lemma split_on_lines:
  "\<forall>l \<in> set ls. CHR 0x0A \<notin> set l \<Longrightarrow> split_on CHR 0x0A (lines_text ls) = ls @ [[]]"
  by (induction ls) (simp_all add: writeln_def split_on_append split_on_none)

lemma control_bytes: "is_ascii_control CHR 0x0A" "is_ascii_control CHR 0x0D"
  by code_simp+

lemma str_lines_text:
  assumes "\<forall>l \<in> set ls. list_all printable l"
  shows "str_lines (lines_text ls) = ls"
proof -
  have n: "\<forall>l \<in> set ls. CHR 0x0A \<notin> set l" using assms control_bytes(1) by (auto simp: list_all_iff printable_def)
  have "strip_cr l = l" if "l \<in> set ls" for l
    using assms that control_bytes(2) last_in_set [of l] unfolding strip_cr_def list_all_iff printable_def
    by (metis (full_types))
  then have "map strip_cr ls = ls" by (simp add: map_idI)
  then show ?thesis by (simp add: str_lines_def split_on_lines [OF n])
qed

lemma ident_printable: "is_ascii_alphanumeric c \<or> c = CHR ''_'' \<Longrightarrow> printable c \<and> c \<noteq> CHR 0x22"
  by (auto simp: printable_def str_defs byte_def)

lemma ident_ok_printable: "ident_ok s \<Longrightarrow> list_all printable s"
  using ident_printable by (auto simp: ident_ok_def list_all_iff)

lemma ident_ok_quotable: "ident_ok s \<Longrightarrow> quotable s"
  using ident_printable by (auto simp: ident_ok_def quotable_def list_all_iff)

lemma quotable_printable: "quotable s \<Longrightarrow> list_all printable s"
  by (auto simp: quotable_def list_all_iff)

lemma digits_printable: "list_all is_ascii_digit s \<Longrightarrow> list_all printable s"
  by (auto simp: list_all_iff printable_def is_ascii_digit_def is_ascii_control_def)

lemma show_nat_printable: "list_all printable (show_nat n)"
  by (rule digits_printable [OF show_nat_digits])

lemma show_hex_printable: "list_all printable (show_hex n)"
proof (induction n rule: show_hex.induct)
  case (1 n)
  have d: "printable (hex_digit (nat (n mod 16)))" "n < 16 \<Longrightarrow> printable (hex_digit (nat n))"
    using hex_digit_alnum ident_printable by (auto simp: nat_less_iff)
  show ?case using 1 d by (subst show_hex.simps) simp
qed

lemma join_with_all: "list_all P sep \<Longrightarrow> \<forall>s \<in> set ss. list_all P s \<Longrightarrow> list_all P (join_with sep ss)"
  by (induction sep ss rule: join_with.induct) auto

lemma punctuation_printable:
  "list_all printable ''.''" "list_all printable '':''" "list_all printable ''::''" "list_all printable ''/''"
  "list_all printable ''::ffff:''" "list_all printable '', ''"
  by code_simp+

lemma ipv4_show_printable: "list_all printable (ipv4_show w)"
  unfolding ipv4_show_def by (rule join_with_all [OF punctuation_printable(1)]) (auto simp: show_nat_printable)

lemma groups_printable: "list_all printable (join_with '':'' (map show_hex gs))"
  by (rule join_with_all [OF punctuation_printable(2)]) (auto simp: show_hex_printable)

lemma ipv6_show_printable: "list_all printable (ipv6_show w)"
  unfolding ipv6_show_def Let_def
  by (auto simp only: list_all_append groups_printable ipv4_show_printable punctuation_printable
      simp_thms split: if_splits prod.splits)

lemma cidr_show_printable: "list_all printable (cidr_show c)"
  by (cases c)
    (simp_all only: cidr_show.simps list_all_append ipv4_show_printable ipv6_show_printable show_nat_printable
      punctuation_printable simp_thms)

lemma join_cidrs_printable: "list_all printable (join_cidrs cs)"
  unfolding join_cidrs_def by (rule join_with_all [OF punctuation_printable(6)]) (auto simp: cidr_show_printable)

text \<open>The names and the quoted strings of a rule and of a table.\<close>

definition rule_names :: "nft_rule \<Rightarrow> string list" where
  "rule_names = (\<lambda>(m, s). (case m of DaddrSet _ n \<Rightarrow> [n] | _ \<Rightarrow> []) @ (case s of Counted c _ \<Rightarrow> [c] | _ \<Rightarrow> []))"

definition rule_strings :: "nft_rule \<Rightarrow> string list" where
  "rule_strings = (\<lambda>(_, s). case s of LogLimited p \<Rightarrow> [p] | _ \<Rightarrow> [])"

definition table_names :: "nft_table \<Rightarrow> string list" where
  "table_names T = map fst (nt_sets T) @ nt_counters T @ map fst (nt_chains T)
     @ map (\<lambda>d. snd (snd d)) (nt_dispatch T)
     @ concat (map (\<lambda>k. concat (map rule_names (snd k))) (nt_chains T))"

definition table_strings :: "nft_table \<Rightarrow> string list" where
  "table_strings T = map (\<lambda>d. fst (snd d)) (nt_dispatch T)
     @ concat (map (\<lambda>k. concat (map rule_strings (snd k))) (nt_chains T))"

definition rule_safe :: "nft_rule \<Rightarrow> bool" where
  "rule_safe r = (list_all ident_ok (rule_names r) \<and> list_all quotable (rule_strings r))"

lemma literal_printable:
  "list_all printable ''    ''" "list_all printable ''accept''"
  "list_all printable ''reject with icmpx type admin-prohibited''"
  "list_all printable ''limit rate 5/minute log prefix ''" "list_all printable '' level info''"
  "list_all printable ''counter name ''" "list_all printable '' ''" "list_all printable [CHR 0x22]"
  "list_all printable ''ip''" "list_all printable ''ip6''" "list_all printable '' daddr @''"
  "list_all printable '' daddr ''"
  by code_simp+

lemma line_literal_printable:
  "list_all printable ''  set ''" "list_all printable '' { type ''" "list_all printable ''ipv4_addr''"
  "list_all printable ''ipv6_addr''" "list_all printable ''; flags interval; elements = { ''"
  "list_all printable '' } }''" "list_all printable ''    socket cgroupv2 level ''" "list_all printable '' jump ''"
  "list_all printable ''  chain ''" "list_all printable '' {''" "list_all printable ''  }''"
  "list_all printable ''  counter ''" "list_all printable '' { }''"
  by code_simp+

lemma frame_printable:
  "list_all (list_all printable) [''table inet punar-net {'']" "list_all (list_all printable) [''  }'']"
  "list_all (list_all printable) [''}'']"
  "list_all (list_all printable)
     [''  chain egress {'', ''    type filter hook output priority filter - 10; policy accept;'']"
  by code_simp+

lemmas printable_facts = literal_printable line_literal_printable punctuation_printable show_nat_printable
  cidr_show_printable join_cidrs_printable

lemma rule_text_printable:
  assumes "rule_safe (m, s)"
  shows "list_all printable (rule_text (m, s))"
proof -
  have f: "list_all printable (family_word f)" for f
    by (cases f) (simp_all only: family_word.simps printable_facts)
  have v: "list_all printable (verdict_text v)" for v
    by (cases v) (simp_all only: verdict_text.simps printable_facts)
  have safe: "\<And>f n. m = DaddrSet f n \<Longrightarrow> ident_ok n" "\<And>c v. s = Counted c v \<Longrightarrow> ident_ok c"
    "\<And>p. s = LogLimited p \<Longrightarrow> quotable p"
    using assms by (auto simp: rule_safe_def rule_names_def rule_strings_def)
  have "list_all printable (match_text m)"
    using safe(1) ident_ok_printable
    by (cases m) (simp_all only: match_text.simps list_all_append list.pred_inject(1) f printable_facts simp_thms)
  moreover have "list_all printable (stmt_text s)"
    using safe(2,3) ident_ok_printable quotable_printable
    by (cases s) (simp_all only: stmt_text.simps quoted_def list_all_append v printable_facts simp_thms)
  ultimately show ?thesis
    by (simp only: rule_text_def prod.case list_all_append printable_facts simp_thms)
qed

lemma chain_lines_printable:
  assumes "ident_ok n" "\<And>m s. (m, s) \<in> set rules \<Longrightarrow> list_all printable (rule_text (m, s))"
  shows "\<forall>l \<in> set (chain_lines (n, rules)). list_all printable l"
proof -
  have "list_all printable (''  chain '' @ n @ '' {'')"
    using ident_ok_printable [OF assms(1)] by (simp only: list_all_append printable_facts simp_thms)
  then show ?thesis using assms(2) line_literal_printable(11) by (auto simp only: chain_lines_def prod.case
      list.set set_append set_map insert_iff Un_iff empty_iff image_iff)
qed

lemma table_rule_safe:
  assumes "list_all ident_ok (table_names T)" "list_all quotable (table_strings T)"
    and "k \<in> set (nt_chains T)" "r \<in> set (snd k)"
  shows "rule_safe r"
  using assms by (auto simp: rule_safe_def table_names_def table_strings_def list_all_iff)

lemma table_names_parts:
  "d \<in> set (nt_sets T) \<Longrightarrow> fst d \<in> set (table_names T)"
  "c \<in> set (nt_counters T) \<Longrightarrow> c \<in> set (table_names T)"
  "k \<in> set (nt_chains T) \<Longrightarrow> fst k \<in> set (table_names T)"
  "e \<in> set (nt_dispatch T) \<Longrightarrow> snd (snd e) \<in> set (table_names T)"
  "e \<in> set (nt_dispatch T) \<Longrightarrow> fst (snd e) \<in> set (table_strings T)"
  by (simp_all add: table_names_def table_strings_def)

lemma table_lines_printable:
  assumes names: "list_all ident_ok (table_names T)" and strings: "list_all quotable (table_strings T)"
  shows "\<forall>l \<in> set (table_lines T). list_all printable l"
proof -
  have esc: "quotable p \<Longrightarrow> list_all printable (escape_backslash p)" for p
    by (induction p) (auto simp: escape_backslash_def quotable_def)
  have "list_all printable (set_text (n, f, cs))" if "(n, f, cs) \<in> set (nt_sets T)" for n f cs
  proof -
    have "ident_ok n" using names table_names_parts(1) [OF that] by (simp add: list_all_iff)
    moreover have "list_all printable (family_type f)"
      by (cases f) (simp_all only: family_type.simps printable_facts)
    ultimately show ?thesis
      using ident_ok_printable by (simp only: set_text_def prod.case list_all_append printable_facts simp_thms)
  qed
  then have sets: "list_all (list_all printable) (map set_text (nt_sets T))"
    by (auto simp: list_all_iff)
  have "list_all printable (dispatch_text (k, p, c))" if "(k, p, c) \<in> set (nt_dispatch T)" for k p c
  proof -
    have "ident_ok c" "quotable p" using names strings table_names_parts(4,5) [OF that]
      by (simp_all add: list_all_iff)
    then show ?thesis using ident_ok_printable esc
      by (simp only: dispatch_text_def prod.case quoted_def list_all_append printable_facts simp_thms)
  qed
  then have disp: "list_all (list_all printable) (map dispatch_text (nt_dispatch T))"
    by (auto simp: list_all_iff)
  have "\<forall>l \<in> set (chain_lines (n, rules)). list_all printable l" if "(n, rules) \<in> set (nt_chains T)" for n rules
  proof (rule chain_lines_printable)
    show "ident_ok n" using names table_names_parts(3) [OF that] by (simp add: list_all_iff)
    show "list_all printable (rule_text (m, s))" if "(m, s) \<in> set rules" for m s
      using table_rule_safe [OF names strings \<open>(n, rules) \<in> set (nt_chains T)\<close>] that
      by (intro rule_text_printable) simp
  qed
  then have chains: "list_all (list_all printable) (concat (map chain_lines (nt_chains T)))"
    by (auto simp: list_all_iff)
  have "list_all printable (''  counter '' @ c @ '' { }'')" if "c \<in> set (nt_counters T)" for c
  proof -
    have "ident_ok c" using names table_names_parts(2) [OF that] by (simp only: list_all_iff)
    then show ?thesis using ident_ok_printable by (simp only: list_all_append printable_facts simp_thms)
  qed
  then have "list_all (list_all printable) (map (\<lambda>c. ''  counter '' @ c @ '' { }'') (nt_counters T))"
    unfolding list_all_iff set_map by blast
  with sets disp chains have "list_all (list_all printable) (table_lines T)"
    by (simp only: table_lines_def list_all_append frame_printable simp_thms)
  then show ?thesis by (simp only: list_all_iff [of "list_all printable"])
qed

text \<open>The names and strings of a rendered table.\<close>

lemma zone_name_ident:
  assumes "validate_zone_name n = Ok ()"
  shows "ident_ok n"
proof -
  have "n \<noteq> []" "\<not> list_ex (\<lambda>b. \<not> (is_ascii_lowercase b \<or> is_ascii_digit b \<or> b = CHR ''_'')) n"
    using assms by (auto simp: validate_zone_name_def split: if_splits)
  then show ?thesis
    unfolding ident_ok_def list_ex_iff list_all_iff is_ascii_alphanumeric_def is_ascii_alphabetic_def by blast
qed

lemma zone_key_ident:
  assumes "check_table_zones zones = Ok ()" "contains_key zones n"
  shows "ident_ok n"
proof -
  have "check_table_zones zs = Ok () \<Longrightarrow> \<forall>(k, z) \<in> set zs. validate_zone_name k = Ok ()" for zs
    by (induction zs rule: check_table_zones.induct) (auto simp: zone_validate_def split: sum.splits if_splits)
  then show ?thesis using assms zone_name_ident by (fastforce simp: contains_key_iff)
qed

lemma ident_ok_append: "ident_ok a \<Longrightarrow> ident_ok b \<Longrightarrow> ident_ok (a @ b)"
  by (simp add: ident_ok_def)

lemma ident_literals:
  "ident_ok ''c_''" "ident_ok ''_''" "ident_ok ''z_''" "ident_ok ''_v4''" "ident_ok ''_v6''" "ident_ok ''s_''"
  "ident_ok ''residual''" "ident_ok ''allow''" "ident_ok ''deny''"
  by code_simp+

lemmas ident_intros = ident_ok_append ident_literals

lemma counter_name_ident:
  assumes "ident_ok t" "ident_ok zone"
  shows "ident_ok (counter_name t zone d)"
proof -
  have "ident_ok (if zone = ''internet'' then ''residual'' else zone)"
    using assms(2) ident_literals by (simp split: if_splits)
  moreover have "ident_ok (enforcement_word d)" using ident_literals by (cases d) simp_all
  ultimately show ?thesis unfolding counter_name_def Let_def
    by (intro ident_ok_append ident_literals(1,2) assms(1))
qed

lemma sets_of_ident:
  assumes "\<And>z m. (z, m) \<in> set ms \<Longrightarrow> ident_ok z" "(n, f, cs) \<in> set (sets_of ms)"
  shows "ident_ok n"
proof -
  obtain z m where "(z, m) \<in> set ms" and n: "n = ''z_'' @ z @ ''_v4'' \<or> n = ''z_'' @ z @ ''_v6''"
    using assms(2) by (auto simp: sets_of_def Let_def split: if_splits)
  then have "ident_ok z" using assms(1) by blast
  then show ?thesis using n ident_literals(3-5) ident_ok_append by metis
qed

lemma quotable_append: "quotable (a @ b) \<longleftrightarrow> quotable a \<and> quotable b"
  by (simp add: quotable_def)

lemma log_prefix_quotable:
  assumes "ident_ok zone" "ident_ok t"
  shows "quotable (''punar-net deny '' @ zone @ '' '' @ t @ '' '')"
proof -
  have "quotable ''punar-net deny ''" "quotable '' ''" by code_simp+
  then show ?thesis using assms[THEN ident_ok_quotable] by (simp only: quotable_append simp_thms)
qed

lemma zone_rules_safe:
  assumes "ident_ok zone" "ident_ok t"
  shows "list_all rule_safe (zone_rules ms t zone d)"
proof -
  have "ident_ok (''z_'' @ zone @ ''_'' @ ''v4'')" "ident_ok (''z_'' @ zone @ ''_'' @ ''v6'')"
    using ident_intros(1) [OF ident_intros(4) ident_intros(1) [OF assms(1)]] ident_intros(5,6) by simp_all
  then show ?thesis
    using counter_name_ident [OF assms(2,1)] log_prefix_quotable [OF assms]
    by (auto simp only: zone_rules_def Let_def rule_safe_def rule_names_def rule_strings_def list_all_append
        list.pred_inject prod.case nft_match.case nft_stmt.case append.simps simp_thms if_True
        split: option.splits if_splits)
qed

lemma session_rules_safe:
  assumes "\<And>r. r \<in> set (cp_rules (sb_policy s)) \<Longrightarrow> ident_ok (er_zone r)" "ident_ok (tag s)"
  shows "list_all rule_safe (session_rules ms s)"
proof -
  have zone: "list_all rule_safe (concat (map (\<lambda>r. zone_rules ms (tag s) (er_zone r) (er_decision r)) (filter P (cp_rules (sb_policy s)))))"
    for P
  proof -
    have "rule_safe x" if "r \<in> set (cp_rules (sb_policy s))"
      "x \<in> set (zone_rules ms (tag s) (er_zone r) (er_decision r))" for r x
      using zone_rules_safe [OF assms(1) [OF that(1)] assms(2)] that(2) by (simp add: list_all_iff)
    then show ?thesis by (auto simp: list_all_iff)
  qed
  have "ident_ok ''internet''" by code_simp
  then have "quotable (''punar-net deny '' @ ''internet'' @ '' '' @ tag s @ '' '')" "\<And>d. ident_ok (counter_name (tag s) ''internet'' d)"
    using log_prefix_quotable assms(2) counter_name_ident by blast+
  then have "list_all rule_safe (residual_rules (tag s) d)" for d
    by (simp add: residual_rules_def rule_safe_def rule_names_def rule_strings_def Let_def)
  moreover have "list_all rule_safe local_rules" by (simp add: local_rules_def rule_safe_def rule_names_def rule_strings_def)
  ultimately show ?thesis unfolding session_rules_def Let_def list_all_append by (intro conjI zone)
qed

lemma table_of_names:
  assumes "check_table_zones zones = Ok ()" "list_all (\<lambda>s. binding_validate s zones = Ok ()) ss"
    and "\<forall>(n, m) \<in> set ms. contains_key zones n"
  shows "list_all ident_ok (table_names (table_of ms ss)) \<and> list_all quotable (table_strings (table_of ms ss))"
proof -
  have tag: "ident_ok (tag s)" and zone: "r \<in> set (cp_rules (sb_policy s)) \<Longrightarrow> ident_ok (er_zone r)"
    and path: "quotable (sb_cgroup_path s)" if "s \<in> set ss" for s r
  proof -
    have v: "binding_validate s zones = Ok ()" using assms(2) that by (simp add: list_all_iff)
    show "ident_ok (tag s)" using binding_validate_ok(2,3) [OF v] by (simp add: ident_ok_def list_all_iff)
    show "r \<in> set (cp_rules (sb_policy s)) \<Longrightarrow> ident_ok (er_zone r)"
      using binding_validate_ok(6) [OF v] zone_key_ident [OF assms(1)] by (simp add: list_all_iff)
    show "quotable (sb_cgroup_path s)" using binding_validate_ok(4) [OF v]
      by (auto simp: validate_cgroup_path_def quotable_def printable_def list_ex_iff list_all_iff split: if_splits)
  qed
  have sets: "ident_ok n" if "n \<in> fst ` set (sets_of ms)" for n
    using that sets_of_ident [of ms] assms(3) zone_key_ident [OF assms(1)] by force
  have safe: "rule_safe r" if "s \<in> set ss" "r \<in> set (session_rules ms s)" for s r
    using session_rules_safe [of s ms] zone [OF that(1)] tag [OF that(1)] that(2) by (simp add: list_all_iff)
  have chain: "ident_ok (''s_'' @ tag s)" if "s \<in> set ss" for s
    by (rule ident_ok_append [OF ident_literals(6) tag [OF that]])
  have "list_all ident_ok (concat (map (\<lambda>k. concat (map rule_names (snd k))) (nt_chains (table_of ms ss))))"
    "list_all quotable (concat (map (\<lambda>k. concat (map rule_strings (snd k))) (nt_chains (table_of ms ss))))"
    using safe by (auto simp: table_of_def list_all_iff rule_safe_def)
  moreover have "list_all ident_ok (map fst (nt_sets (table_of ms ss)))"
    using sets by (simp add: table_of_def list_all_iff)
  moreover have "list_all ident_ok (nt_counters (table_of ms ss))"
    using counter_name_ident [OF tag zone] by (auto simp: table_of_def list_all_iff)
  moreover have "list_all ident_ok (map fst (nt_chains (table_of ms ss)))"
    "list_all ident_ok (map (\<lambda>d. snd (snd d)) (nt_dispatch (table_of ms ss)))"
    using chain by (simp_all add: table_of_def list_all_iff)
  moreover have "list_all quotable (map (\<lambda>d. fst (snd d)) (nt_dispatch (table_of ms ss)))"
    using path by (simp add: table_of_def list_all_iff)
  ultimately show ?thesis unfolding table_names_def table_strings_def list_all_append by blast
qed

lemma destroy_line_text: "destroy_line = lines_text [''destroy table inet punar-net'']"
  by (simp add: destroy_line_def TABLE_FAMILY_def TABLE_NAME_def)

lemma destroy_printable: "list_all printable ''destroy table inet punar-net''"
  by code_simp

section \<open>Properties\<close>

text \<open>
  C16. The rendered file reads back, line by line, as the statements of the table and nothing else. Every
  set, counter and chain name in it is made of letters, digits and underscores. No quoted string in it
  holds a control character or a double quote.
\<close>

theorem rendered_file_has_only_its_statements:
  assumes "render_table replace zones ms ss = Ok text"
  shows "str_lines text = (if replace then [''destroy table inet punar-net''] else []) @ table_lines (table_of ms ss)
    \<and> list_all ident_ok (table_names (table_of ms ss)) \<and> list_all quotable (table_strings (table_of ms ss))"
proof -
  let ?pre = "if replace then [''destroy table inet punar-net''] else []"
  have ok: "list_all ident_ok (table_names (table_of ms ss)) \<and> list_all quotable (table_strings (table_of ms ss))"
    by (rule table_of_names [OF render_table_checks(1,2,4) [OF assms]])
  have "text = lines_text (?pre @ table_lines (table_of ms ss))"
    using render_table_text [OF assms] by (simp add: destroy_line_text table_text_def)
  moreover have "\<forall>l \<in> set (?pre @ table_lines (table_of ms ss)). list_all printable l"
    using table_lines_printable [of "table_of ms ss"] ok destroy_printable
    by (simp only: set_append ball_Un list.set split: if_splits) simp
  ultimately show ?thesis using str_lines_text ok by blast
qed

theorem rendered_file_has_only_its_statements_witness:
  "\<exists>text. render_table True demo_zones demo_memberships [demo_binding] = Ok text \<and>
     length (str_lines text) = 25 \<and> list_all ident_ok (table_names (table_of demo_memberships [demo_binding]))"
proof -
  obtain out where r: "render_table True demo_zones demo_memberships [demo_binding] = Ok out"
    using demo_render unfolding is_ok_iff by blast
  have "length (table_lines (table_of demo_memberships [demo_binding])) = 24" by code_simp
  then show ?thesis using r rendered_file_has_only_its_statements [OF r] by simp
qed

end
