(* ===== verification/Net_Exec.thy ===== *)
theory Net_Exec
  imports Net_Ruleset
begin

text \<open>
  \<open>crates/punar-netd/src/nft_exec.rs\<close>: the runs of the \<open>nft\<close> program. \<open>net_env\<close> answers the n-th
  interaction of a run: the metadata of a path, and what a run of \<open>nft\<close> returns for its arguments and its
  input file. What \<open>nft\<close> prints is arbitrary; the JSON reader is a parameter. \<open>no_installed\<close> is the trace
  of the rulesets \<open>nft\<close> loaded, newest first. The lemmas show what a trusted program path means and
  what a successful read-back of a session's rule means.
\<close>

unbundle bit_operations_syntax

section \<open>Environment and state\<close>

datatype file_kind = FkFile | FkDirectory | FkSymlink | FkOther

record file_metadata =
  fm_kind :: file_kind
  fm_uid :: nat
  fm_mode :: "32 word"

type_synonym path = "string list"

datatype exec_error =
    ExRelativeBinary path
  | ExUnsafeBinary path "path option"
  | ExWrongBinaryOwner path nat nat
  | ExUnsafeBinaryMode path "32 word"
  | ExUnsafeBinaryAncestor path string
  | ExUnsafeDirectory path
  | ExWrongOwner path nat nat
  | ExUnsafeMode path "32 word"
  | ExIo string
  | ExTimeout
  | ExRejected string
  | ExInvalidCounterDocument string
  | ExInvalidRulesetDocument string

record nft_output =
  nf_success :: bool
  nf_stdout :: string
  nf_stderr :: string

record exec_env =
  ne_lstat :: "nat \<Rightarrow> path \<Rightarrow> (string, file_metadata) result"
  ne_canonicalize :: "nat \<Rightarrow> path \<Rightarrow> path option"
  ne_run :: "nat \<Rightarrow> string list \<Rightarrow> string \<Rightarrow> (exec_error, nft_output) result"
  ne_committed :: "nat \<Rightarrow> bool"
  ne_json :: "string \<Rightarrow> (string, json) result"

record net_os = os_state +
  no_installed :: "string list"

record nft_executor =
  nx_absolute :: bool
  nx_bin :: path
  nx_dir :: path
  nx_trusted_uid :: nat

definition OUTPUT_LIMIT :: int where
  "OUTPUT_LIMIT = 64 * 1024"

definition READBACK_LIMIT :: int where
  "READBACK_LIMIT = 1024 * 1024"

section \<open>Trusted paths\<close>

definition permission_bits :: "file_metadata \<Rightarrow> 32 word" where
  "permission_bits m = fm_mode m AND 0xFFF"

definition validate_directory :: "'e exec_env_scheme \<Rightarrow> nat \<Rightarrow> path \<Rightarrow> nat \<Rightarrow> (exec_error, unit) result" where
  "validate_directory E t path trusted_uid =
     (case ne_lstat E t path of
        Err e \<Rightarrow> Err (ExIo e)
      | Ok m \<Rightarrow>
          if fm_kind m \<noteq> FkDirectory then Err (ExUnsafeDirectory path)
          else if fm_uid m \<noteq> trusted_uid then Err (ExWrongOwner path (fm_uid m) trusted_uid)
          else if permission_bits m AND 0x12 \<noteq> 0 then Err (ExUnsafeMode path (permission_bits m))
          else Ok ())"

text \<open>The walk over the directories that select a path, from its parent up to the root.\<close>

function validate_selecting_directories ::
  "'e exec_env_scheme \<Rightarrow> nat \<Rightarrow> path \<Rightarrow> nat \<Rightarrow> (exec_error, unit) result" where
  "validate_selecting_directories E t path trusted_uid =
     (if path = [] then Ok ()
      else
        let directory = butlast path
        in case ne_lstat E t directory of
             Err e \<Rightarrow> Err (ExIo e)
           | Ok m \<Rightarrow>
               if fm_kind m = FkSymlink
               then (if fm_uid m \<noteq> 0 \<and> fm_uid m \<noteq> trusted_uid
                     then Err (ExUnsafeBinaryAncestor directory ''alias owner'')
                     else validate_selecting_directories E t directory trusted_uid)
               else if fm_kind m \<noteq> FkDirectory then Err (ExUnsafeBinaryAncestor directory ''not a real directory'')
               else if fm_uid m \<noteq> 0 \<and> fm_uid m \<noteq> trusted_uid
               then Err (ExUnsafeBinaryAncestor directory ''directory owner'')
               else if permission_bits m AND 0x12 \<noteq> 0
                       \<and> \<not> (fm_uid m = 0 \<and> permission_bits m AND 0x200 \<noteq> 0)
               then Err (ExUnsafeBinaryAncestor directory ''replaceable'')
               else validate_selecting_directories E t directory trusted_uid)"
  by pat_completeness auto

termination validate_selecting_directories
  by (relation "measure (\<lambda>(_, _, path, _). length path)") auto

declare validate_selecting_directories.simps [simp del]

definition validate_executable ::
  "'e exec_env_scheme \<Rightarrow> nat \<Rightarrow> bool \<Rightarrow> path \<Rightarrow> nat \<Rightarrow> (exec_error, unit) result" where
  "validate_executable E t absolute path trusted_uid =
     (if \<not> absolute then Err (ExRelativeBinary path)
      else
        (case ne_lstat E t path of Err e \<Rightarrow> Err (ExIo e) | Ok link \<Rightarrow>
         if fm_kind link = FkSymlink \<and> fm_uid link \<noteq> 0 \<and> fm_uid link \<noteq> trusted_uid
         then Err (ExWrongBinaryOwner path (fm_uid link) trusted_uid)
         else if fm_kind link \<noteq> FkSymlink \<and> fm_kind link \<noteq> FkFile then Err (ExUnsafeBinary path None)
         else
           (case ne_canonicalize E t path of None \<Rightarrow> Err (ExUnsafeBinary path None) | Some canonical \<Rightarrow>
           (case ne_lstat E t canonical of Err e \<Rightarrow> Err (ExIo e) | Ok m \<Rightarrow>
            if fm_kind m \<noteq> FkFile then Err (ExUnsafeBinary path (Some canonical))
            else if fm_uid m \<noteq> trusted_uid then Err (ExWrongBinaryOwner canonical (fm_uid m) trusted_uid)
            else if permission_bits m AND 0x49 = 0 \<or> permission_bits m AND 0x12 \<noteq> 0
            then Err (ExUnsafeBinaryMode canonical (permission_bits m))
            else
              res_bind (validate_selecting_directories E t path trusted_uid) (\<lambda>_.
              validate_selecting_directories E t canonical trusted_uid)))))"

definition validate_trusted_binary ::
  "'e exec_env_scheme \<Rightarrow> nft_executor \<Rightarrow> 's net_os_scheme \<Rightarrow> (exec_error, unit) result" where
  "validate_trusted_binary E nft st =
     validate_executable E (ticks st) (nx_absolute nft) (nx_bin nft) (nx_trusted_uid nft)"

section \<open>Runs of nft\<close>

text \<open>
  One run with its transaction files: the checks before it, then the answer. The files, the spawn
  with its retries and the bounded wait are the answer's; what the program wrote is read up to
  \<open>OUTPUT_LIMIT\<close> unless a caller says otherwise. A run that loads a file and succeeds is recorded. So may
  be a run that ends in an error, a timeout for one: the program that is killed may have loaded its
  file already, which \<open>ne_committed\<close> decides.
\<close>

definition nft_run ::
  "'e exec_env_scheme \<Rightarrow> nft_executor \<Rightarrow> string list \<Rightarrow> string \<Rightarrow> 's net_os_scheme \<Rightarrow>
   (exec_error, nft_output) result \<times> 's net_os_scheme" where
  "nft_run E nft args input st =
     (if \<not> nx_absolute nft then (Err (ExRelativeBinary (nx_bin nft)), st)
      else
        (case validate_directory E (ticks st) (nx_dir nft) (nx_trusted_uid nft) of
           Err e \<Rightarrow> (Err e, st)
         | Ok _ \<Rightarrow>
             (case ne_run E (ticks st) args input of
                Err e \<Rightarrow>
                  (Err e, tick (if args = [''-f''] \<and> ne_committed E (ticks st)
                                then st\<lparr>no_installed := input # no_installed st\<rparr> else st))
              | Ok r \<Rightarrow>
                  (Ok r, tick (if args = [''-f''] \<and> nf_success r
                               then st\<lparr>no_installed := input # no_installed st\<rparr> else st)))))"

definition read_bounded :: "string \<Rightarrow> string" where
  "read_bounded s = utf8_lossy (if int (length s) \<le> OUTPUT_LIMIT then s else take (nat OUTPUT_LIMIT) s)"

definition read_bounded_strict :: "string \<Rightarrow> int \<Rightarrow> (exec_error, string) result" where
  "read_bounded_strict s limit =
     (if int (length s) > limit
      then Err (ExInvalidRulesetDocument (''nft output exceeded the '' @ show_nat (nat limit)
             @ ''-byte readback bound; a truncated document is not evidence''))
      else Ok (utf8_lossy s))"

definition trimmed_or :: "string \<Rightarrow> string \<Rightarrow> string" where
  "trimmed_or stderr fallback =
     (let reason = str_trim (read_bounded stderr) in if reason = [] then fallback else reason)"

definition nft_apply ::
  "'e exec_env_scheme \<Rightarrow> nft_executor \<Rightarrow> string \<Rightarrow> 's net_os_scheme \<Rightarrow>
   (exec_error, nft_output) result \<times> 's net_os_scheme" where
  "nft_apply E nft ruleset st = nft_run E nft [''-f''] ruleset st"

definition apply_checked ::
  "'e exec_env_scheme \<Rightarrow> nft_executor \<Rightarrow> string \<Rightarrow> 's net_os_scheme \<Rightarrow>
   (exec_error, unit) result \<times> 's net_os_scheme" where
  "apply_checked E nft ruleset st =
     (case nft_apply E nft ruleset st of (r, st') \<Rightarrow>
        (res_bind r (\<lambda>out. if nf_success out then Ok ()
           else Err (ExRejected (trimmed_or (nf_stderr out) ''nft exited nonzero without an error message''))), st'))"

definition LIST_TABLE :: "string list" where
  "LIST_TABLE = [''-j'', ''list'', ''table'', ''inet'', ''punar-net'']"

definition missing_table :: "string \<Rightarrow> bool" where
  "missing_table stderr = (str_contains ''No such file'' stderr \<or> str_contains ''does not exist'' stderr)"

section \<open>Counters\<close>

definition json_array :: "json \<Rightarrow> json list option" where
  "json_array j = (case j of JArr xs \<Rightarrow> Some xs | _ \<Rightarrow> None)"

definition json_u64 :: "json \<Rightarrow> nat option" where
  "json_u64 j = (case j of JNum n \<Rightarrow> if 0 \<le> n \<and> n < 2 ^ 64 then Some (nat n) else None | _ \<Rightarrow> None)"

definition json_field :: "json \<Rightarrow> string \<Rightarrow> string option" where
  "json_field j k = Option.bind (json_get j k) json_str"

definition json_object_at :: "json \<Rightarrow> string \<Rightarrow> json option" where
  "json_object_at j k = Option.bind (json_get j k) (\<lambda>v. if json_obj v \<noteq> None then Some v else None)"

definition valid_counter_name :: "string \<Rightarrow> bool" where
  "valid_counter_name name =
     (starts_with ''c_'' name \<and> length name \<le> 128
      \<and> list_all (\<lambda>b. is_ascii_alphanumeric b \<or> b = CHR ''_'') name)"

fun counter_rows :: "(string, nat) btree_map \<Rightarrow> json list \<Rightarrow> (exec_error, (string, nat) btree_map) result" where
  "counter_rows counters [] = Ok counters"
| "counter_rows counters (row # rows) =
     (case json_object_at row ''counter'' of
        None \<Rightarrow> counter_rows counters rows
      | Some counter \<Rightarrow>
          if json_field counter ''family'' \<noteq> Some ''inet'' \<or> json_field counter ''table'' \<noteq> Some ''punar-net''
          then counter_rows counters rows
          else (case json_field counter ''name'' of
                  None \<Rightarrow> counter_rows counters rows
                | Some name \<Rightarrow>
                    if \<not> valid_counter_name name then Err (ExInvalidCounterDocument (''unsafe named counter '' @ name))
                    else (case Option.bind (json_get counter ''packets'') json_u64 of
                            None \<Rightarrow> Err (ExInvalidCounterDocument (''counter '' @ name @ '' has no unsigned packet total''))
                          | Some packets \<Rightarrow> counter_rows (bt_insert name packets counters) rows)))"

definition nft_rows :: "json \<Rightarrow> json list option" where
  "nft_rows j = Option.bind (json_get j ''nftables'') json_array"

definition parse_named_counters ::
  "'e exec_env_scheme \<Rightarrow> string \<Rightarrow> (exec_error, (string, nat) btree_map) result" where
  "parse_named_counters E input =
     (case ne_json E input of
        Err e \<Rightarrow> Err (ExInvalidCounterDocument e)
      | Ok document \<Rightarrow>
          (case nft_rows document of
             None \<Rightarrow> Err (ExInvalidCounterDocument ''missing nftables array'')
           | Some rows \<Rightarrow> counter_rows [] rows))"

definition query_named_counters ::
  "'e exec_env_scheme \<Rightarrow> nft_executor \<Rightarrow> 's net_os_scheme \<Rightarrow>
   (exec_error, (string, nat) btree_map) result \<times> 's net_os_scheme" where
  "query_named_counters E nft st =
     (case nft_run E nft LIST_TABLE [] st of (r, st') \<Rightarrow>
        (res_bind r (\<lambda>out.
           if \<not> nf_success out
           then (if missing_table (read_bounded (nf_stderr out)) then Ok []
                 else Err (ExRejected (trimmed_or (nf_stderr out)
                        ''nft counter query exited nonzero without an error message'')))
           else parse_named_counters E (read_bounded (nf_stdout out))), st'))"

definition table_exists ::
  "'e exec_env_scheme \<Rightarrow> nft_executor \<Rightarrow> 's net_os_scheme \<Rightarrow> (exec_error, bool) result \<times> 's net_os_scheme" where
  "table_exists E nft st =
     (case nft_run E nft LIST_TABLE [] st of (r, st') \<Rightarrow>
        (res_bind r (\<lambda>out.
           if nf_success out then Ok True
           else if missing_table (read_bounded (nf_stderr out)) then Ok False
           else Err (ExRejected (trimmed_or (nf_stderr out)
                  ''nft table health query exited nonzero without an error message''))), st'))"

section \<open>Read-back of a session's rule\<close>

definition session_tag :: "string \<Rightarrow> (exec_error, string) result" where
  "session_tag session_id =
     (case strip_prefix ''agt_'' session_id of
        None \<Rightarrow> Err (ExInvalidRulesetDocument ''expected an agt_-prefixed session id'')
      | Some t \<Rightarrow>
          if t = [] \<or> \<not> list_all is_ascii_alphanumeric t
          then Err (ExInvalidRulesetDocument ''session id contains unsafe rule identity material'')
          else Ok t)"

text \<open>The run of \<open>list_chain\<close>, after the checks its only caller makes; it reads up to \<open>READBACK_LIMIT\<close>.\<close>

definition list_chain ::
  "'e exec_env_scheme \<Rightarrow> nft_executor \<Rightarrow> string \<Rightarrow> 's net_os_scheme \<Rightarrow>
   (exec_error, string) result \<times> 's net_os_scheme" where
  "list_chain E nft name st =
     (case ne_run E (ticks st) [''-j'', ''list'', ''chain'', ''inet'', ''punar-net'', name] [] of
        Err e \<Rightarrow> (Err e, tick st)
      | Ok out \<Rightarrow>
          (if \<not> nf_success out
           then Err (ExRejected (trimmed_or (nf_stderr out)
                  (''nft chain listing of '' @ name @ '' exited nonzero without an error message'')))
           else read_bounded_strict (nf_stdout out) READBACK_LIMIT, tick st))"

text \<open>The merged document is written and read again by serde, which gives the same rows.\<close>

definition merge_nft_documents :: "'e exec_env_scheme \<Rightarrow> string \<Rightarrow> string \<Rightarrow> (exec_error, json list) result" where
  "merge_nft_documents E first second =
     (let rows = (\<lambda>input.
        case ne_json E input of
          Err e \<Rightarrow> Err (ExInvalidRulesetDocument e)
        | Ok document \<Rightarrow>
            (case nft_rows document of
               None \<Rightarrow> Err (ExInvalidRulesetDocument ''missing nftables array'')
             | Some xs \<Rightarrow> Ok xs))
      in res_bind (rows first) (\<lambda>a. res_bind (rows second) (\<lambda>b. Ok (a @ b))))"

definition chain_row :: "string \<Rightarrow> json \<Rightarrow> bool" where
  "chain_row target row =
     (case json_object_at row ''chain'' of
        None \<Rightarrow> False
      | Some chain \<Rightarrow>
          json_field chain ''family'' = Some ''inet'' \<and> json_field chain ''table'' = Some ''punar-net''
          \<and> json_field chain ''name'' = Some target)"

definition cgroup_match :: "string \<Rightarrow> nat \<Rightarrow> json \<Rightarrow> bool" where
  "cgroup_match normalized level expression =
     (case json_object_at expression ''match'' of
        None \<Rightarrow> False
      | Some matcher \<Rightarrow>
          json_field matcher ''op'' = Some ''=='' \<and> json_field matcher ''right'' = Some normalized
          \<and> (case Option.bind (json_get matcher ''left'') (\<lambda>left. json_object_at left ''socket'') of
               None \<Rightarrow> False
             | Some socket \<Rightarrow>
                 json_field socket ''key'' = Some ''cgroupv2''
                 \<and> (case json_get socket ''level'' of None \<Rightarrow> True | Some v \<Rightarrow> json_u64 v = Some level)))"

definition jump_to :: "string \<Rightarrow> json \<Rightarrow> bool" where
  "jump_to target expression =
     (Option.bind (json_get expression ''jump'') (\<lambda>jump. json_field jump ''target'') = Some target)"

definition dispatch_row :: "string \<Rightarrow> nat \<Rightarrow> string \<Rightarrow> json \<Rightarrow> bool" where
  "dispatch_row normalized level target row =
     (case json_object_at row ''rule'' of
        None \<Rightarrow> False
      | Some rule \<Rightarrow>
          json_field rule ''family'' = Some ''inet'' \<and> json_field rule ''table'' = Some ''punar-net''
          \<and> json_field rule ''chain'' = Some ''egress''
          \<and> (case Option.bind (json_get rule ''expr'') json_array of
               None \<Rightarrow> False
             | Some expressions \<Rightarrow>
                 list_ex (cgroup_match normalized level) expressions \<and> list_ex (jump_to target) expressions))"

definition verify_session_rule_document ::
  "json list \<Rightarrow> string \<Rightarrow> string \<Rightarrow> (exec_error, bool) result" where
  "verify_session_rule_document rows session_id cgroup_path =
     res_bind (session_tag session_id) (\<lambda>t.
     case strip_prefix ''/'' cgroup_path of
       None \<Rightarrow> Err (ExInvalidRulesetDocument ''expected an absolute cgroup-v2 path'')
     | Some normalized \<Rightarrow>
         if normalized = []
         then Err (ExInvalidRulesetDocument ''the cgroup-v2 root cannot identify a managed session'')
         else
           let level = length (filter (\<lambda>part. part \<noteq> []) (split_on CHR ''/'' normalized));
               target = ''s_'' @ t
           in Ok (list_ex (chain_row target) rows \<and> list_ex (dispatch_row normalized level target) rows))"

definition verify_session_rule ::
  "'e exec_env_scheme \<Rightarrow> nft_executor \<Rightarrow> string \<Rightarrow> string \<Rightarrow> 's net_os_scheme \<Rightarrow>
   (exec_error, bool) result \<times> 's net_os_scheme" where
  "verify_session_rule E nft session_id cgroup_path st =
     (case res_bind (validate_trusted_binary E nft st) (\<lambda>_.
           res_bind (validate_directory E (ticks st) (nx_dir nft) (nx_trusted_uid nft)) (\<lambda>_. session_tag session_id)) of
        Err e \<Rightarrow> (Err e, st)
      | Ok t \<Rightarrow>
          (case list_chain E nft ''egress'' st of
             (Err e, st1) \<Rightarrow> (Err e, st1)
           | (Ok egress, st1) \<Rightarrow>
               (case list_chain E nft (''s_'' @ t) st1 of
                  (Err (ExRejected _), st2) \<Rightarrow> (Ok False, st2)
                | (Err e, st2) \<Rightarrow> (Err e, st2)
                | (Ok session_chain, st2) \<Rightarrow>
                    (res_bind (merge_nft_documents E egress session_chain) (\<lambda>rows.
                       verify_session_rule_document rows session_id cgroup_path), st2))))"

section \<open>The capability probe\<close>

datatype enforcement_capability = Available | Unavailable exec_error

definition PROBE_TABLE :: string where
  "PROBE_TABLE = ''punar-net-probe''"

definition probe_ruleset :: string where
  "probe_ruleset =
     lines_text [''destroy table inet '' @ PROBE_TABLE, ''table inet '' @ PROBE_TABLE @ '' {'', ''chain probe {'',
       ''type filter hook output priority filter - 11; policy accept;'',
       ''socket cgroupv2 level 1 '' @ quoted ''user.slice'' @ '' counter'', ''}'', ''}'',
       ''destroy table inet '' @ PROBE_TABLE]"

definition probe_cgroup_v2 ::
  "'e exec_env_scheme \<Rightarrow> nft_executor \<Rightarrow> 's net_os_scheme \<Rightarrow> enforcement_capability \<times> 's net_os_scheme" where
  "probe_cgroup_v2 E nft st =
     (case apply_checked E nft probe_ruleset st of
        (Ok _, st') \<Rightarrow> (Available, st')
      | (Err e, st') \<Rightarrow> (Unavailable e, st'))"

section \<open>Lemmas\<close>

lemma ticks_installed [simp]:
  "no_installed (tick st) = no_installed st" "no_installed (st\<lparr>ticks := n\<rparr>) = no_installed st"
  by (simp_all add: tick_def)

lemma nft_run_installed:
  assumes "nft_run E nft args input st = (r, st')"
  shows "case r of
      Ok out \<Rightarrow> no_installed st' = (if args = [''-f''] \<and> nf_success out then input # no_installed st else no_installed st)
    | Err _ \<Rightarrow> no_installed st' = no_installed st \<or> args = [''-f''] \<and> no_installed st' = input # no_installed st"
  using assms by (auto simp: nft_run_def split: if_splits sum.splits)

lemma apply_checked_installed:
  assumes "apply_checked E nft ruleset st = (r, st')"
  shows "no_installed st' = ruleset # no_installed st \<or> \<not> is_ok r \<and> no_installed st' = no_installed st"
proof -
  obtain q where q: "nft_run E nft [''-f''] ruleset st = (q, st')"
    and "r = res_bind q (\<lambda>out. if nf_success out then Ok ()
      else Err (ExRejected (trimmed_or (nf_stderr out) ''nft exited nonzero without an error message'')))"
    using assms by (auto simp: apply_checked_def nft_apply_def split: prod.splits)
  then show ?thesis using nft_run_installed [OF q] by (cases q) (auto simp: is_ok_def split: if_splits)
qed

lemma query_installed:
  assumes "query_named_counters E nft st = (r, st')"
  shows "no_installed st' = no_installed st"
proof -
  obtain q where q: "nft_run E nft LIST_TABLE [] st = (q, st')"
    using assms by (auto simp: query_named_counters_def split: prod.splits)
  have "LIST_TABLE \<noteq> [''-f'']" by (simp add: LIST_TABLE_def)
  then show ?thesis using nft_run_installed [OF q] by (cases q) simp_all
qed

lemma list_chain_installed: "list_chain E nft name st = (r, st') \<Longrightarrow> no_installed st' = no_installed st"
  by (auto simp: list_chain_def split: sum.splits)

lemma verify_installed:
  "verify_session_rule E nft i p st = (r, st') \<Longrightarrow> no_installed st' = no_installed st"
  by (auto simp: verify_session_rule_def dest!: list_chain_installed
      split: sum.splits prod.splits exec_error.splits)

text \<open>A run of \<open>nft\<close> changes nothing else of the daemon's state.\<close>

lemma nft_run_more: "nft_run E nft args input st = (r, st') \<Longrightarrow> net_os.more st' = net_os.more st"
  by (auto simp: nft_run_def tick_def split: if_splits sum.splits)

lemma apply_checked_more: "apply_checked E nft rs st = (r, st') \<Longrightarrow> net_os.more st' = net_os.more st"
  by (auto simp: apply_checked_def nft_apply_def dest: nft_run_more split: prod.splits)

lemma query_more: "query_named_counters E nft st = (r, st') \<Longrightarrow> net_os.more st' = net_os.more st"
  by (auto simp: query_named_counters_def dest: nft_run_more split: prod.splits)

text \<open>What a read-back that succeeds has seen.\<close>

lemma verify_session_rule_True:
  assumes "verify_session_rule E nft i p st = (Ok True, st')"
  obtains t normalized rows where "i = ''agt_'' @ t" "p = ''/'' @ normalized"
    "list_ex (chain_row (''s_'' @ t)) rows"
    "list_ex (dispatch_row normalized (length (filter (\<lambda>part. part \<noteq> []) (split_on CHR ''/'' normalized))) (''s_'' @ t)) rows"
proof -
  obtain rows where v: "verify_session_rule_document rows i p = Ok True"
    using assms by (auto simp: verify_session_rule_def res_bind_Ok_iff split: sum.splits prod.splits exec_error.splits)
  obtain t where t: "session_tag i = Ok t" using v by (auto simp: verify_session_rule_document_def res_bind_Ok_iff)
  obtain n where n: "strip_prefix ''/'' p = Some n"
    using v t by (auto simp: verify_session_rule_document_def split: option.splits)
  have "i = ''agt_'' @ t" using t
    by (auto simp: session_tag_def strip_prefix_Some_iff split: option.splits if_splits)
  moreover have "p = ''/'' @ n" using n by (simp add: strip_prefix_Some_iff)
  ultimately show ?thesis using v t n
    by (intro that [of t n rows]) (auto simp: verify_session_rule_document_def Let_def split: if_splits)
qed

section \<open>The program path\<close>

text \<open>A directory that only root or the trusted user can change the entries of.\<close>

definition fixed_directory :: "nat \<Rightarrow> file_metadata \<Rightarrow> bool" where
  "fixed_directory trusted m \<longleftrightarrow>
     fm_uid m \<in> {0, trusted} \<and> fm_kind m \<in> {FkSymlink, FkDirectory} \<and>
     (fm_kind m = FkDirectory \<longrightarrow>
        permission_bits m AND 0x12 = 0 \<or> fm_uid m = 0 \<and> permission_bits m AND 0x200 \<noteq> 0)"

lemma selecting_directories_fixed:
  assumes "validate_selecting_directories E t path trusted = Ok ()" "n < length path"
  shows "\<exists>m. ne_lstat E t (take n path) = Ok m \<and> fixed_directory trusted m"
  using assms
proof (induction E t path trusted rule: validate_selecting_directories.induct)
  case (1 E t path trusted)
  have ne: "path \<noteq> []" using 1(4) by auto
  let ?d = "butlast path"
  obtain m where m: "ne_lstat E t ?d = Ok m" "fixed_directory trusted m"
    and rec: "validate_selecting_directories E t ?d trusted = Ok ()"
    using 1(3) ne by (subst (asm) validate_selecting_directories.simps)
      (auto simp: Let_def fixed_directory_def split: sum.splits if_splits)
  show ?case
  proof (cases "n = length ?d")
    case True
    then have "take n path = ?d" by (simp add: butlast_conv_take)
    then show ?thesis using m by auto
  next
    case False
    then have n: "n < length ?d" using 1(4) by simp
    have "\<exists>m. ne_lstat E t (take n ?d) = Ok m \<and> fixed_directory trusted m"
      using 1(1,2) [OF ne refl m(1)] rec n m(2)
      by (cases "fm_kind m = FkSymlink") (auto simp: fixed_directory_def)
    moreover have "take n ?d = take n path" using n by (simp add: take_butlast)
    ultimately show ?thesis by simp
  qed
qed

section \<open>Properties\<close>

text \<open>
  C17. Both ends of a program path the session gate accepts are fixed against other users: the
  configured path is an ordinary file or a symbolic link of root or the trusted user, the file it
  resolves to is executable, owned by the trusted user and writable by nobody else, and every directory
  above the configured path and above that file belongs to root or the trusted user and is not
  writable by others, a root-owned sticky directory excepted. Where the link leads through further
  links, the directories that hold those are not looked at, and nothing is said of them.
\<close>

theorem trusted_program_is_fixed:
  assumes "validate_executable E t absolute path trusted = Ok ()"
  shows "absolute \<and>
    (\<exists>link. ne_lstat E t path = Ok link \<and>
       (fm_kind link = FkFile \<or> fm_kind link = FkSymlink \<and> fm_uid link \<in> {0, trusted})) \<and>
    (\<exists>canonical m. ne_canonicalize E t path = Some canonical \<and> ne_lstat E t canonical = Ok m \<and>
     fm_kind m = FkFile \<and> fm_uid m = trusted \<and> permission_bits m AND 0x49 \<noteq> 0 \<and> permission_bits m AND 0x12 = 0 \<and>
     (\<forall>p \<in> {path, canonical}. \<forall>n < length p.
        \<exists>d. ne_lstat E t (take n p) = Ok d \<and> fixed_directory trusted d))"
proof -
  obtain link where l: "ne_lstat E t path = Ok link" "fm_kind link = FkFile \<or> fm_kind link = FkSymlink \<and> fm_uid link \<in> {0, trusted}"
    using assms by (auto simp: validate_executable_def split: if_splits sum.splits)
  obtain canonical m where "absolute" "ne_canonicalize E t path = Some canonical" "ne_lstat E t canonical = Ok m"
    "fm_kind m = FkFile" "fm_uid m = trusted" "permission_bits m AND 0x49 \<noteq> 0" "permission_bits m AND 0x12 = 0"
    "validate_selecting_directories E t path trusted = Ok ()" "validate_selecting_directories E t canonical trusted = Ok ()"
    using assms by (auto simp: validate_executable_def res_bind_Ok_iff split: if_splits sum.splits option.splits)
  then show ?thesis using selecting_directories_fixed l by blast
qed

definition demo_fs :: "path \<Rightarrow> (string, file_metadata) result" where
  "demo_fs p =
     (if p = [''usr'', ''bin'', ''nft''] then Ok \<lparr>fm_kind = FkSymlink, fm_uid = 0, fm_mode = 0x1FF\<rparr>
      else if p = [''usr'', ''sbin'', ''nft''] then Ok \<lparr>fm_kind = FkFile, fm_uid = 0, fm_mode = 0x1ED\<rparr>
      else Ok \<lparr>fm_kind = FkDirectory, fm_uid = 0, fm_mode = 0x1ED\<rparr>)"

definition demo_exec_env :: exec_env where
  "demo_exec_env =
     \<lparr>ne_lstat = (\<lambda>_. demo_fs), ne_canonicalize = (\<lambda>_ _. Some [''usr'', ''sbin'', ''nft'']),
      ne_run = (\<lambda>_ _ _. Err ExTimeout), ne_committed = (\<lambda>_. False), ne_json = (\<lambda>_. Ok JNull)\<rparr>"

theorem trusted_program_is_fixed_witness:
  "\<exists>m. ne_lstat demo_exec_env 0 [''usr'', ''sbin'', ''nft''] = Ok m \<and> fm_uid m = 0 \<and>
     (\<exists>d. ne_lstat demo_exec_env 0 [''usr'', ''sbin''] = Ok d \<and> fixed_directory 0 d)"
proof -
  have v: "validate_executable demo_exec_env 0 True [''usr'', ''bin'', ''nft''] 0 = Ok ()" by code_simp
  obtain canonical m where c: "ne_canonicalize demo_exec_env 0 [''usr'', ''bin'', ''nft''] = Some canonical"
    "ne_lstat demo_exec_env 0 canonical = Ok m" "fm_uid m = 0"
    and d: "\<forall>p \<in> {[''usr'', ''bin'', ''nft''], canonical}. \<forall>n < length p.
        \<exists>d. ne_lstat demo_exec_env 0 (take n p) = Ok d \<and> fixed_directory 0 d"
    using trusted_program_is_fixed [OF v] by blast
  have canonical: "canonical = [''usr'', ''sbin'', ''nft'']" using c(1) by (simp add: demo_exec_env_def)
  have "\<exists>d. ne_lstat demo_exec_env 0 (take 2 canonical) = Ok d \<and> fixed_directory 0 d"
    using d unfolding canonical
    by (elim ballE [of _ _ "[''usr'', ''sbin'', ''nft'']"] allE [of _ 2]) simp_all
  then show ?thesis using c by (simp add: canonical)
qed

end
