(* ===== verification/Net_Sessions.thy ===== *)
theory Net_Sessions
  imports Net_Exec
begin

text \<open>
  What the network daemon knows of the running sessions: the snapshot of the session registry
  (\<open>crates/punar-netd/src/agentd.rs\<close>), the project files of a session (\<open>project.rs\<close>), the zone data and the
  bindings compiled from them (\<open>load_network_data\<close> and \<open>compile_bindings\<close> of \<open>runtime.rs\<close>). The registry's
  answer, the files and \<open>/proc\<close> are answers of the environment. The texts the error types print are
  parameters where the program keeps them.
\<close>

section \<open>Environment\<close>

datatype io_error = IoNotFound | IoOther string

datatype agent_status = AgActive | AgEnded

datatype agent_classification = AgManaged | AgObserved | AgUnknown

fun agent_classification_str :: "agent_classification \<Rightarrow> string" where
  "agent_classification_str AgManaged = ''managed''"
| "agent_classification_str AgObserved = ''observed''"
| "agent_classification_str AgUnknown = ''unknown''"

record registry_record =
  rr_session_id :: string
  rr_agent :: string
  rr_version :: string
  rr_process_id :: nat
  rr_user :: string
  rr_project :: string
  rr_environment :: string
  rr_status :: agent_status
  rr_classification :: agent_classification
  rr_started_at :: string

datatype agentd_error =
    AdTransport string string
  | AdEmptyResponse
  | AdProtocol string
  | AdRefused string string

datatype response_body = RbResult json | RbError string string

record agentd_response =
  ar_v :: nat
  ar_body :: response_body

datatype project_error =
    PjPasswd io_error
  | PjUnknownUser string
  | PjUnsafeHome string string
  | PjRead string io_error
  | PjPolicy net_policy_error

text \<open>An entry of a directory: reading it may fail, and so may asking whether it is an ordinary file.\<close>

type_synonym dir_entry = "(string, string \<times> (string, bool) result) result"

record session_env = exec_env +
  ne_codec :: net_codec
  ne_read :: "nat \<Rightarrow> string \<Rightarrow> (io_error, string) result"
  ne_read_dir :: "nat \<Rightarrow> string \<Rightarrow> (string, dir_entry list) result"
  ne_agents_line :: "nat \<Rightarrow> (agentd_error, string) result"
  ne_response :: "string \<Rightarrow> (string, agentd_response) result"
  ne_sessions :: "json \<Rightarrow> (string, registry_record list) result"
  ne_cgroup_ino :: "nat \<Rightarrow> string \<Rightarrow> nat option"
  ne_model_error_text :: "model_error \<Rightarrow> string"
  ne_project_error_text :: "project_error \<Rightarrow> string"

section \<open>The registry snapshot\<close>

record skipped_session =
  sk_session_id :: string
  sk_reason :: string

record session_snapshot =
  sn_sessions :: "managed_session list"
  sn_skipped :: "skipped_session list"

definition proc_cgroup_path :: "nat \<Rightarrow> string" where
  "proc_cgroup_path pid = ''/proc/'' @ show_nat pid @ ''/cgroup''"

definition scope_unit :: "string \<Rightarrow> string" where
  "scope_unit session_id = ''punar-agent-'' @ session_id @ ''.scope''"

fun scope_line ::
  "(model_error \<Rightarrow> string) \<Rightarrow> string \<Rightarrow> string list \<Rightarrow> (string, string option) result" where
  "scope_line show_error u [] = Ok None"
| "scope_line show_error u (line # ls) =
     (case strip_prefix ''0::'' line of
        None \<Rightarrow> scope_line show_error u ls
      | Some path \<Rightarrow>
          if u \<in> set (split_on CHR ''/'' path)
          then (case validate_cgroup_path path of Err e \<Rightarrow> Err (show_error e) | Ok _ \<Rightarrow> Ok (Some path))
          else scope_line show_error u ls)"

definition managed_scope_path ::
  "'e session_env_scheme \<Rightarrow> nat \<Rightarrow> nat \<Rightarrow> string \<Rightarrow> (string, string option) result" where
  "managed_scope_path E t pid session_id =
     (case validate_session_id session_id of Err e \<Rightarrow> Err (ne_model_error_text E e) | Ok _ \<Rightarrow>
      if pid = 0 then Err ''pid must be nonzero''
      else (case ne_read E t (proc_cgroup_path pid) of
              Err IoNotFound \<Rightarrow> Ok None
            | Err (IoOther e) \<Rightarrow> Err (''could not read process cgroup: '' @ e)
            | Ok body \<Rightarrow> scope_line (ne_model_error_text E) (scope_unit session_id) (str_lines body)))"

definition cgroup_id :: "'e session_env_scheme \<Rightarrow> nat \<Rightarrow> string \<Rightarrow> nat option" where
  "cgroup_id E t path =
     (case strip_prefix ''/'' path of
        None \<Rightarrow> None
      | Some relative \<Rightarrow>
          (case ne_cgroup_ino E t (''/sys/fs/cgroup/'' @ relative) of
             Some i \<Rightarrow> if i \<noteq> 0 then Some i else None
           | None \<Rightarrow> None))"

definition SCOPE_PHRASE :: string where
  "SCOPE_PHRASE = ''not in its registered managed scope''"

definition prove_session ::
  "'e session_env_scheme \<Rightarrow> nat \<Rightarrow> registry_record \<Rightarrow> (string, managed_session) result" where
  "prove_session E t r =
     (let text = (\<lambda>v. case v of Err e \<Rightarrow> Err (ne_model_error_text E e) | Ok u \<Rightarrow> Ok u)
      in res_bind (text (validate_session_id (rr_session_id r))) (\<lambda>_.
         res_bind (text (validate_project_id (rr_project r))) (\<lambda>_.
         res_bind (text (validate_user_name (rr_user r))) (\<lambda>_.
         res_bind (managed_scope_path E t (rr_process_id r) (rr_session_id r)) (\<lambda>scope.
           case scope of
             None \<Rightarrow> Err (''the root process is '' @ SCOPE_PHRASE)
           | Some path \<Rightarrow>
               Ok \<lparr>ms_session_id = rr_session_id r, ms_project_id = rr_project r, ms_user = rr_user r,
                   ms_process_id = rr_process_id r, ms_cgroup_path = path, ms_cgroup_id = cgroup_id E t path\<rparr>)))))"

definition listed_managed :: "registry_record \<Rightarrow> bool" where
  "listed_managed r = (rr_status r = AgActive \<and> agent_classification_str (rr_classification r) = ''managed'')"

definition snapshot_from_list :: "'e session_env_scheme \<Rightarrow> nat \<Rightarrow> registry_record list \<Rightarrow> session_snapshot" where
  "snapshot_from_list E t list =
     (let proved = map (\<lambda>r. (r, prove_session E t r)) (filter listed_managed list)
      in \<lparr>sn_sessions = sort_asc ms_session_id
            (concat (map (\<lambda>(r, v). case v of Ok s \<Rightarrow> [s] | Err _ \<Rightarrow> []) proved)),
          sn_skipped = sort_asc sk_session_id
            (concat (map (\<lambda>(r, v). case v of Ok _ \<Rightarrow> []
               | Err reason \<Rightarrow> [\<lparr>sk_session_id = rr_session_id r, sk_reason = reason\<rparr>]) proved))\<rparr>)"

definition PROTOCOL_VERSION :: nat where
  "PROTOCOL_VERSION = 1"

definition decode_response :: "'e session_env_scheme \<Rightarrow> string \<Rightarrow> (agentd_error, registry_record list) result" where
  "decode_response E line =
     (case ne_response E line of
        Err e \<Rightarrow> Err (AdProtocol e)
      | Ok response \<Rightarrow>
          if ar_v response \<noteq> PROTOCOL_VERSION
          then Err (AdProtocol (''unsupported response version '' @ show_nat (ar_v response)))
          else (case ar_body response of
                  RbResult v \<Rightarrow> (case ne_sessions E v of Err e \<Rightarrow> Err (AdProtocol e) | Ok l \<Rightarrow> Ok l)
                | RbError code message \<Rightarrow> Err (AdRefused code message)))"

text \<open>The registry answers at one instant; \<open>/proc\<close> is read after the answer.\<close>

definition agentd_snapshot ::
  "'e session_env_scheme \<Rightarrow> 's net_os_scheme \<Rightarrow> (agentd_error, session_snapshot) result \<times> 's net_os_scheme" where
  "agentd_snapshot E st =
     (res_bind (ne_agents_line E (ticks st)) (\<lambda>line.
      res_bind (decode_response E line) (\<lambda>l. Ok (snapshot_from_list E (Suc (ticks st)) l))), tick st)"

section \<open>Project files\<close>

definition MANIFEST_FILE :: string where
  "MANIFEST_FILE = ''project-environment.yaml''"

definition POLICY_FILE :: string where
  "POLICY_FILE = ''project-network-policy.json''"

definition passwd_home :: "string \<Rightarrow> string \<Rightarrow> string option" where
  "passwd_home user line =
     (case split_on CHR '':'' line of
        name # rest \<Rightarrow> if name = user \<and> length rest > 4 then Some (rest ! 4) else None
      | [] \<Rightarrow> None)"

definition home_for_user :: "string \<Rightarrow> string \<Rightarrow> string option" where
  "home_for_user passwd user = first_Some (passwd_home user) (str_lines passwd)"

definition validate_home :: "string \<Rightarrow> string \<Rightarrow> (project_error, unit) result" where
  "validate_home user home =
     (if \<not> starts_with ''/'' home
         \<or> list_all (\<lambda>part. part = [] \<or> part = ''.'') (split_on CHR ''/'' home)
         \<or> CHR 0x00 \<in> set home
         \<or> list_ex (\<lambda>part. part = ''..'') (split_on CHR ''/'' home)
      then Err (PjUnsafeHome user home) else Ok ())"

definition path_join :: "string \<Rightarrow> string \<Rightarrow> string" where
  "path_join a b = (if strip_suffix ''/'' a \<noteq> None then a @ b else a @ ''/'' @ b)"

definition locate ::
  "'e session_env_scheme \<Rightarrow> nat \<Rightarrow> managed_session \<Rightarrow> (project_error, string \<times> string) result" where
  "locate E t session =
     (case validate_project_id (ms_project_id session) of Err e \<Rightarrow> Err (PjPolicy (PeModel e)) | Ok _ \<Rightarrow>
     (case ne_read E t ''/etc/passwd'' of Err e \<Rightarrow> Err (PjPasswd e) | Ok passwd \<Rightarrow>
     (case home_for_user passwd (ms_user session) of
        None \<Rightarrow> Err (PjUnknownUser (ms_user session))
      | Some home \<Rightarrow>
          res_bind (validate_home (ms_user session) home) (\<lambda>_.
            let root = path_join home (ms_project_id session)
            in Ok (path_join root MANIFEST_FILE, path_join root POLICY_FILE)))))"

definition read_project_file :: "'e session_env_scheme \<Rightarrow> nat \<Rightarrow> string \<Rightarrow> (project_error, string) result" where
  "read_project_file E t path = (case ne_read E t path of Err e \<Rightarrow> Err (PjRead path e) | Ok s \<Rightarrow> Ok s)"

definition load_project ::
  "'e session_env_scheme \<Rightarrow> nat \<Rightarrow> managed_session \<Rightarrow> zones \<Rightarrow> (project_error, compiled_project) result" where
  "load_project E t session zones =
     res_bind (locate E t session) (\<lambda>(manifest_path, policy_path).
     res_bind (read_project_file E t manifest_path) (\<lambda>manifest.
     res_bind (read_project_file E t policy_path) (\<lambda>policy.
       case compile_project (ne_codec E) manifest policy zones of
         Err e \<Rightarrow> Err (PjPolicy e)
       | Ok cp \<Rightarrow> Ok cp)))"

section \<open>Bindings\<close>

record apply_warning =
  aw_session_id :: string
  aw_project :: string
  aw_fallback :: string
  aw_reason :: string

definition unenforceable :: "memberships \<Rightarrow> effective_rule \<Rightarrow> bool" where
  "unenforceable ms rule =
     (er_zone rule \<noteq> ''internet'' \<and> er_decision rule \<noteq> NetAllow
      \<and> (case bt_get ms (er_zone rule) of None \<Rightarrow> True | Some m \<Rightarrow> zm_cidrs m = []))"

definition compile_binding ::
  "'e session_env_scheme \<Rightarrow> nat \<Rightarrow> zones \<Rightarrow> memberships \<Rightarrow> managed_session \<Rightarrow> session_binding \<times> apply_warning list" where
  "compile_binding E t zones ms session =
     (let warn = (\<lambda>reason. \<lparr>aw_session_id = ms_session_id session, aw_project = ms_project_id session,
            aw_fallback = ''deny_all'', aw_reason = reason\<rparr>);
          (loaded, w1) = (case load_project E t session zones of
             Ok cp \<Rightarrow> (cp, [])
           | Err e \<Rightarrow> (deny_all (ms_project_id session) zones, [warn (ne_project_error_text E e)]));
          (compiled, w2) = (case find (unenforceable ms) (cp_rules loaded) of
             Some rule \<Rightarrow> (deny_all (ms_project_id session) zones,
               [warn (''blocked zone '' @ quoted (er_zone rule) @ '' has no enforceable CIDR membership'')])
           | None \<Rightarrow> (loaded, []))
      in (\<lparr>sb_session_id = ms_session_id session, sb_project_id = ms_project_id session,
           sb_cgroup_path = ms_cgroup_path session, sb_policy = compiled\<rparr>, w1 @ w2))"

definition compile_bindings ::
  "'e session_env_scheme \<Rightarrow> nat \<Rightarrow> session_snapshot \<Rightarrow> zones \<Rightarrow> memberships \<Rightarrow>
   session_binding list \<times> apply_warning list" where
  "compile_bindings E t snapshot zones ms =
     (let rows = map (compile_binding E t zones ms) (sn_sessions snapshot)
      in (map fst rows, concat (map snd rows)))"

section \<open>Zone data\<close>

definition ZONES_DIR :: string where
  "ZONES_DIR = ''/usr/share/punar/network/zones''"

definition MEMBERSHIP_FILE :: string where
  "MEMBERSHIP_FILE = ''/usr/share/punar/network/zone-members.json''"

datatype data_error = DataError string | DataPolicy net_policy_error

definition json_extension :: "string \<Rightarrow> bool" where
  "json_extension name = (case strip_suffix ''.json'' name of None \<Rightarrow> False | Some stem \<Rightarrow> stem \<noteq> [])"

definition io_text :: "io_error \<Rightarrow> string" where
  "io_text e = (case e of IoNotFound \<Rightarrow> ''No such file or directory (os error 2)'' | IoOther s \<Rightarrow> s)"

fun read_zones :: "'e session_env_scheme \<Rightarrow> nat \<Rightarrow> string list \<Rightarrow> (data_error, zone_definition list) result" where
  "read_zones E t [] = Ok []"
| "read_zones E t (path # paths) =
     (case ne_read E t path of
        Err e \<Rightarrow> Err (DataError (path @ '': '' @ io_text e))
      | Ok body \<Rightarrow>
          (case read_zone (ne_codec E) body of
             Err e \<Rightarrow> Err (DataError (path @ '': '' @ e))
           | Ok zone \<Rightarrow> res_bind (read_zones E t paths) (\<lambda>zs. Ok (zone # zs))))"

fun zone_paths :: "dir_entry list \<Rightarrow> (data_error, string list) result" where
  "zone_paths [] = Ok []"
| "zone_paths (entry # entries) =
     (case entry of
        Err e \<Rightarrow> Err (DataError e)
      | Ok (name, file_type) \<Rightarrow>
          (case file_type of
             Err e \<Rightarrow> Err (DataError e)
           | Ok is_file \<Rightarrow>
               res_bind (zone_paths entries) (\<lambda>paths.
                 Ok (if is_file \<and> json_extension name then path_join ZONES_DIR name # paths else paths))))"

definition load_network_data :: "'e session_env_scheme \<Rightarrow> nat \<Rightarrow> (data_error, zones \<times> memberships) result" where
  "load_network_data E t =
     (case ne_read_dir E t ZONES_DIR of
        Err e \<Rightarrow> Err (DataError (ZONES_DIR @ '': '' @ e))
      | Ok entries \<Rightarrow>
          res_bind (zone_paths entries) (\<lambda>found.
          let paths = sort_asc (\<lambda>p. p) found
          in if paths = [] then Err (DataError (ZONES_DIR @ '' contains no zone JSON files''))
             else
               res_bind (read_zones E t paths) (\<lambda>zs.
               case index_zones zs of Err e \<Rightarrow> Err (DataPolicy e) | Ok zones \<Rightarrow>
               (case ne_read E t MEMBERSHIP_FILE of
                  Err e \<Rightarrow> Err (DataError (MEMBERSHIP_FILE @ '': '' @ io_text e))
                | Ok body \<Rightarrow>
                    (case parse_zone_memberships (ne_codec E) body zones of
                       Err e \<Rightarrow> Err (DataPolicy e)
                     | Ok ms \<Rightarrow> Ok (zones, ms))))))"

section \<open>Lemmas\<close>

lemma map_sum_OkE: "map_sum f id r = Ok b \<Longrightarrow> (r = Ok b \<Longrightarrow> P) \<Longrightarrow> P"
  by (cases r) simp_all


lemma scope_line_Some:
  "scope_line f u ls = Ok (Some p) \<Longrightarrow> validate_cgroup_path p = Ok () \<and> u \<in> set (split_on CHR ''/'' p)"
  by (induction f u ls rule: scope_line.induct) (auto split: option.splits if_splits sum.splits)

lemma managed_scope_path_Some:
  assumes "managed_scope_path E t pid i = Ok (Some p)"
  shows "session_id_ok i" "0 < pid" "validate_cgroup_path p = Ok ()" "scope_unit i \<in> set (split_on CHR ''/'' p)"
proof -
  have *: "session_id_ok i \<and> 0 < pid \<and> (\<exists>ls. scope_line (ne_model_error_text E) (scope_unit i) ls = Ok (Some p))"
    using assms by (auto simp: managed_scope_path_def validate_session_id_def split: sum.splits if_splits io_error.splits)
  then show "session_id_ok i" "0 < pid" "validate_cgroup_path p = Ok ()" "scope_unit i \<in> set (split_on CHR ''/'' p)"
    using scope_line_Some by blast+
qed

text \<open>A session of the snapshot is an active managed record whose root process is in its own scope.\<close>

lemma prove_session_Ok:
  assumes "prove_session E t r = Ok s"
  shows "ms_session_id s = rr_session_id r \<and> ms_project_id s = rr_project r \<and> ms_user s = rr_user r \<and>
    managed_scope_path E t (rr_process_id r) (rr_session_id r) = Ok (Some (ms_cgroup_path s))"
proof -
  obtain scope where m: "managed_scope_path E t (rr_process_id r) (rr_session_id r) = Ok scope"
    and s: "(case scope of None \<Rightarrow> Err (''the root process is '' @ SCOPE_PHRASE) | Some path \<Rightarrow>
       Ok \<lparr>ms_session_id = rr_session_id r, ms_project_id = rr_project r, ms_user = rr_user r,
           ms_process_id = rr_process_id r, ms_cgroup_path = path, ms_cgroup_id = cgroup_id E t path\<rparr>) = Ok s"
    using assms unfolding prove_session_def Let_def res_bind_Ok_iff by blast
  show ?thesis using m s by (cases scope) auto
qed

lemma snapshot_session:
  assumes "s \<in> set (sn_sessions (snapshot_from_list E t l))"
  obtains r where "r \<in> set l" "rr_status r = AgActive" "rr_classification r = AgManaged"
    "ms_session_id s = rr_session_id r" "ms_project_id s = rr_project r" "ms_user s = rr_user r"
    "managed_scope_path E t (rr_process_id r) (rr_session_id r) = Ok (Some (ms_cgroup_path s))"
proof -
  obtain r where r: "r \<in> set l" "listed_managed r" "prove_session E t r = Ok s"
    using assms unfolding snapshot_from_list_def Let_def by (auto split: sum.splits)
  have m: "rr_status r = AgActive" "rr_classification r = AgManaged"
    using r(2) by (cases "rr_classification r"; simp add: listed_managed_def)+
  show ?thesis using prove_session_Ok [OF r(3)] by (intro that [OF r(1) m]) simp_all
qed

lemma compile_binding_fields:
  "sb_session_id (fst (compile_binding E t zones ms s)) = ms_session_id s"
  "sb_cgroup_path (fst (compile_binding E t zones ms s)) = ms_cgroup_path s"
  by (simp_all add: compile_binding_def Let_def split_beta)

lemma compile_binding_policy:
  "sb_policy (fst (compile_binding E t zones ms s)) = deny_all (ms_project_id s) zones
   \<or> load_project E t s zones = Ok (sb_policy (fst (compile_binding E t zones ms s)))"
  by (auto simp: compile_binding_def Let_def split_beta split: sum.splits option.splits)

lemma load_project_Ok:
  assumes "load_project E t s zones = Ok cp"
  obtains m p where "compile_project (ne_codec E) m p zones = Ok cp"
  using assms by (auto simp: load_project_def res_bind_Ok_iff case_Err_Ok_iff)

lemma compiled_rules: "compile_project S m p zones = Ok cp \<Longrightarrow> map er_zone (cp_rules cp) = bt_keys zones"
  by (erule compile_project_Ok)

lemma compile_binding_rules:
  "map er_zone (cp_rules (sb_policy (fst (compile_binding E t zones ms s)))) = bt_keys zones"
  using compile_binding_policy [of E t zones ms s] by (auto simp: deny_all_rules elim: load_project_Ok dest: compiled_rules)

lemma load_network_data_ok:
  assumes "load_network_data E t = Ok (zones, ms)"
  shows "zones_ok zones" "\<exists>S input. parse_zone_memberships S input zones = Ok ms"
proof -
  obtain zs body where "index_zones zs = Ok zones" "parse_zone_memberships (ne_codec E) body zones = Ok ms"
    using assms by (auto simp: load_network_data_def Let_def res_bind_Ok_iff case_Err_Ok_iff split: if_splits)
  then show "zones_ok zones" "\<exists>S input. parse_zone_memberships S input zones = Ok ms"
    using index_zones_ok by blast+
qed

end
