(* ===== verification/Net_Runtime.thy ===== *)
theory Net_Runtime
  imports Net_Sessions
begin

text \<open>
  \<open>crates/punar-netd/src/runtime.rs\<close>: the coordinator of the network daemon, as a machine over the state
  \<open>net_runtime\<close>. Every call to the registry and every run of \<open>nft\<close> is an answer of the environment at its
  own instant. Where the code prints an error into a field, the field holds the error here. The lemmas
  show what a successful reconciliation installs and what a released session gate has proved.
\<close>

section \<open>State\<close>

datatype observe_error = ObserveError string

datatype runtime_error =
    ReData data_error
  | ReRejectedRows nat string
  | ReAgentd agentd_error
  | ReNft nft_error
  | ReExec exec_error
  | ReObserve observe_error
  | ReView view_error
  | ReEnforcementUnavailable exec_error
  | ReProjectNotActive string
  | ReSessionGateNotAttributed string string
  | ReSessionNotReady string string
  | ReSessionRuleNotVerified string "exec_error option"
  | ReSideFile string
  | RePanic string

record apply_result =
  ap_installed_sessions :: nat
  ap_skipped_sessions :: "skipped_session list"
  ap_warnings :: "apply_warning list"

datatype transition_kind = Attached | Detached

record session_transition =
  tr_kind :: transition_kind
  tr_session_id :: string
  tr_project :: string
  tr_reason :: string

record denial_event =
  de_session_id :: string
  de_project :: string
  de_zone :: string
  de_kind :: zone_kind

record net_reconcile_result =
  rc_applied :: apply_result
  rc_transitions :: "session_transition list"
  rc_denial_events :: "denial_event list"

record installed_session =
  in_project :: string
  in_cgroup_path :: string
  in_counters :: "counter_binding list"

type_synonym destination_key = "string \<times> string \<times> string"

record destination_total =
  dt_count :: nat
  dt_first_seen :: string
  dt_last_seen :: string

record ledger_destination_row =
  ld_destination :: string
  ld_zone :: string
  ld_total :: destination_total

record deny_record =
  dr_session_id :: string
  dr_zone :: string
  dr_destination :: ip_addr

record net_env = session_env +
  ne_publish :: "nat \<Rightarrow> string \<Rightarrow> ledger_destination_row list \<Rightarrow> (agentd_error, nat) result"
  ne_observe :: "nat \<Rightarrow> (observe_error, observation) result"
  ne_deny_log :: "nat \<Rightarrow> (string, deny_record list) result"
  ne_enrolled :: "nat \<Rightarrow> bool"
  ne_write_report :: "nat \<Rightarrow> (string, bool) result"

record net_runtime = net_os +
  nr_zones :: zones
  nr_memberships :: memberships
  nr_data_source :: bool
  nr_nft :: nft_executor
  nr_deny_log :: bool
  nr_capability :: enforcement_capability
  nr_last_apply :: "apply_result option"
  nr_last_apply_error :: "runtime_error option"
  nr_installed :: "(string, installed_session) btree_map"
  nr_counter_carry :: "(string, nat) btree_map"
  nr_reported :: "(string, nat) btree_map"
  nr_last_denied :: "(string \<times> string, ip_addr) btree_map"
  nr_active :: "(destination_key, unit) btree_map"
  nr_totals :: "(destination_key, destination_total) btree_map"

section \<open>Enforcement status\<close>

datatype status_reason = StApply runtime_error | StProbe exec_error

record enforcement_status =
  es_state :: string
  es_reason :: "status_reason option"
  es_installed_sessions :: nat

definition enforcement_status_of :: "net_runtime \<Rightarrow> enforcement_status" where
  "enforcement_status_of st =
     (let installed = (case nr_last_apply st of None \<Rightarrow> 0 | Some r \<Rightarrow> ap_installed_sessions r)
      in case (nr_capability st, nr_last_apply_error st) of
           (Available, None) \<Rightarrow> \<lparr>es_state = ''available'', es_reason = None, es_installed_sessions = installed\<rparr>
         | (Available, Some e) \<Rightarrow>
             \<lparr>es_state = ''unavailable'', es_reason = Some (StApply e), es_installed_sessions = 0\<rparr>
         | (Unavailable e, _) \<Rightarrow>
             \<lparr>es_state = ''unavailable'', es_reason = Some (StProbe e), es_installed_sessions = 0\<rparr>)"

section \<open>Denials\<close>

definition attempts_of :: "(string, nat) btree_map \<Rightarrow> (string, nat) btree_map \<Rightarrow> string \<Rightarrow> nat" where
  "attempts_of carry counts name =
     sat_add (unwrap_or (bt_get carry name) 0) (unwrap_or (bt_get counts name) 0)"

fun session_denials ::
  "string \<Rightarrow> installed_session \<Rightarrow> (string, nat) btree_map \<Rightarrow> (string, nat) btree_map \<Rightarrow> counter_binding list \<Rightarrow>
   (string, nat) btree_map \<Rightarrow> denied_view list \<times> denial_event list \<times> (string, nat) btree_map" where
  "session_denials sid session carry counts [] reported = ([], [], reported)"
| "session_denials sid session carry counts (b # bs) reported =
     (if \<not> blocks (cb_decision b) then session_denials sid session carry counts bs reported
      else
        let attempts = attempts_of carry counts (cb_name b)
        in if attempts = 0 then session_denials sid session carry counts bs reported
           else
             let fresh = attempts > unwrap_or (bt_get reported (cb_name b)) 0;
                 (rows, events, reported') = session_denials sid session carry counts bs
                   (if fresh then bt_insert (cb_name b) attempts reported else reported)
             in (\<lparr>dv_zone = cb_zone b, dv_kind = cb_kind b, dv_attempts = attempts, dv_last_destination = None,
                  dv_explain = ''punarctl network explain '' @ in_project session @ '' '' @ cb_zone b\<rparr> # rows,
                 (if fresh then [\<lparr>de_session_id = sid, de_project = in_project session, de_zone = cb_zone b,
                    de_kind = cb_kind b\<rparr>] else []) @ events,
                 reported'))"

record denied_session_view =
  ds_project :: string
  ds_rows :: "denied_view list"

fun collect_denials ::
  "(string, installed_session) btree_map \<Rightarrow> (string, nat) btree_map \<Rightarrow> (string, nat) btree_map \<Rightarrow>
   (string, nat) btree_map \<Rightarrow>
   (string, denied_session_view) btree_map \<times> denial_event list \<times> (string, nat) btree_map" where
  "collect_denials [] carry counts reported = ([], [], reported)"
| "collect_denials ((sid, session) # rest) carry counts reported =
     (let (rows, events, reported1) = session_denials sid session carry counts (in_counters session) reported;
          (views, events', reported2) = collect_denials rest carry counts reported1
      in ((if rows = [] then views
           else bt_insert sid \<lparr>ds_project = in_project session, ds_rows = sort_asc dv_zone rows\<rparr> views),
          events @ events', reported2))"

section \<open>Session transitions\<close>

definition old_transitions ::
  "(string, installed_session) btree_map \<Rightarrow> (string, string) btree_map \<Rightarrow> string \<times> installed_session \<Rightarrow>
   session_transition list" where
  "old_transitions next_map skipped = (\<lambda>(sid, old).
     case bt_get next_map sid of
       None \<Rightarrow>
         [\<lparr>tr_kind = Detached, tr_session_id = sid, tr_project = in_project old,
           tr_reason = (case bt_get skipped sid of
             Some reason \<Rightarrow> if str_contains SCOPE_PHRASE reason then ''cgroup_left'' else ''session_ended''
           | None \<Rightarrow> ''session_ended'')\<rparr>]
     | Some current \<Rightarrow>
         if in_cgroup_path old \<noteq> in_cgroup_path current \<or> in_project old \<noteq> in_project current
         then [\<lparr>tr_kind = Detached, tr_session_id = sid, tr_project = in_project old, tr_reason = ''session_rebound''\<rparr>,
               \<lparr>tr_kind = Attached, tr_session_id = sid, tr_project = in_project current, tr_reason = ''session_attached''\<rparr>]
         else [])"

definition session_transitions ::
  "(string, installed_session) btree_map \<Rightarrow> (string, installed_session) btree_map \<Rightarrow> (string, string) btree_map \<Rightarrow>
   session_transition list" where
  "session_transitions previous next_map skipped =
     concat (map (old_transitions next_map skipped) previous)
     @ map (\<lambda>(sid, current). \<lparr>tr_kind = Attached, tr_session_id = sid, tr_project = in_project current,
           tr_reason = ''session_attached''\<rparr>)
         (filter (\<lambda>(sid, _). \<not> contains_key previous sid) next_map)"

section \<open>Destinations\<close>

definition publish_destinations :: "net_env \<Rightarrow> string \<Rightarrow> net_runtime \<Rightarrow> (runtime_error, unit) result \<times> net_runtime" where
  "publish_destinations E session_id st =
     (let destinations = map (\<lambda>((_, destination, zone), total).
            \<lparr>ld_destination = destination, ld_zone = zone, ld_total = total\<rparr>)
            (filter (\<lambda>((sid, _, _), _). sid = session_id) (nr_totals st))
      in if destinations = [] then (Ok (), st)
         else (case ne_publish E (ticks st) session_id destinations of
                 Err e \<Rightarrow> (Err (ReAgentd e), tick st)
               | Ok rejected \<Rightarrow>
                   (if rejected > 0 then Err (ReRejectedRows rejected session_id) else Ok (), tick st)))"

fun publish_all :: "net_env \<Rightarrow> string list \<Rightarrow> net_runtime \<Rightarrow> (runtime_error, unit) result \<times> net_runtime" where
  "publish_all E [] st = (Ok (), st)"
| "publish_all E (i # is) st =
     (case publish_destinations E i st of
        (Err e, st') \<Rightarrow> (Err e, st')
      | (Ok _, st') \<Rightarrow> publish_all E is st')"

section \<open>Applying the policy\<close>

record applied_state =
  as_result :: apply_result
  as_sessions :: "(string, installed_session) btree_map"
  as_skipped :: "(string, string) btree_map"
  as_denial_events :: "denial_event list"

fun install_bindings ::
  "zones \<Rightarrow> (string, installed_session) btree_map \<Rightarrow> session_binding list \<Rightarrow>
   (nft_error, (string, installed_session) btree_map) result" where
  "install_bindings zones acc [] = Ok acc"
| "install_bindings zones acc (b # bs) =
     res_bind (counter_bindings zones b) (\<lambda>counters.
       install_bindings zones (bt_insert (sb_session_id b)
         \<lparr>in_project = sb_project_id b, in_cgroup_path = sb_cgroup_path b, in_counters = counters\<rparr> acc) bs)"

fun fold_carry :: "(string, nat) btree_map \<Rightarrow> (string, nat) btree_map \<Rightarrow> (string, nat) btree_map" where
  "fold_carry carry [] = carry"
| "fold_carry carry ((name, packets) # rest) =
     fold_carry (bt_insert name (sat_add (unwrap_or (bt_get carry name) 0) packets) carry) rest"

definition forget_sessions :: "string list \<Rightarrow> net_runtime \<Rightarrow> net_runtime" where
  "forget_sessions detached st =
     st\<lparr>nr_active := filter (\<lambda>((sid, _, _), _). sid \<notin> set detached) (nr_active st),
        nr_totals := filter (\<lambda>((sid, _, _), _). sid \<notin> set detached) (nr_totals st),
        nr_last_denied := filter (\<lambda>((sid, _), _). sid \<notin> set detached) (nr_last_denied st)\<rparr>"

definition stage_data :: "net_env \<Rightarrow> net_runtime \<Rightarrow> (runtime_error, (zones \<times> memberships) option) result" where
  "stage_data E st =
     (if nr_data_source st
      then (case load_network_data E (ticks st) of Err e \<Rightarrow> Err (ReData e) | Ok d \<Rightarrow> Ok (Some d))
      else Ok None)"

text \<open>
  What is decided before the kernel is touched: the zone data, the registry's sessions, their compiled
  bindings, the ruleset and the sessions it installs.
\<close>

record staged_apply =
  sg_data :: "(zones \<times> memberships) option"
  sg_snapshot :: session_snapshot
  sg_bindings :: "session_binding list"
  sg_warnings :: "apply_warning list"
  sg_ruleset :: string
  sg_next :: "(string, installed_session) btree_map"

definition stage_apply :: "net_env \<Rightarrow> net_runtime \<Rightarrow> (runtime_error, staged_apply) result \<times> net_runtime" where
  "stage_apply E st =
     (case nr_capability st of
        Unavailable reason \<Rightarrow> (Err (ReEnforcementUnavailable reason), st)
      | Available \<Rightarrow>
          (case stage_data E st of
             Err e \<Rightarrow> (Err e, st)
           | Ok staged \<Rightarrow>
               (let (zones, ms) = unwrap_or staged (nr_zones st, nr_memberships st)
                in case agentd_snapshot E st of
                     (Err e, st1) \<Rightarrow> (Err (ReAgentd e), st1)
                   | (Ok snapshot, st1) \<Rightarrow>
                       (let (bindings, warnings) = compile_bindings E (ticks st1) snapshot zones ms
                        in (res_bind (map_sum ReNft id (render_table True zones ms bindings)) (\<lambda>ruleset.
                            res_bind (map_sum ReNft id (install_bindings zones [] bindings)) (\<lambda>next_map.
                              Ok \<lparr>sg_data = staged, sg_snapshot = snapshot, sg_bindings = bindings,
                                  sg_warnings = warnings, sg_ruleset = ruleset, sg_next = next_map\<rparr>)), st1)))))"

definition apply_inner :: "net_env \<Rightarrow> net_runtime \<Rightarrow> (runtime_error, applied_state) result \<times> net_runtime" where
  "apply_inner E st =
     (case stage_apply E st of
        (Err e, st1) \<Rightarrow> (Err e, st1)
      | (Ok g, st1) \<Rightarrow>
          (let detached = filter (\<lambda>i. \<not> contains_key (sg_next g) i) (bt_keys (nr_installed st1))
           in case publish_all E detached st1 of
                (Err e, st2) \<Rightarrow> (Err e, st2)
              | (Ok _, st2) \<Rightarrow>
                  (case query_named_counters E (nr_nft st2) st2 of
                     (Err e, st3) \<Rightarrow> (Err (ReExec e), st3)
                   | (Ok kernel_before, st3) \<Rightarrow>
                       (let (_, events, reported) =
                              collect_denials (nr_installed st3) (nr_counter_carry st3) kernel_before (nr_reported st3)
                        in case apply_checked E (nr_nft st3) (sg_ruleset g) (st3\<lparr>nr_reported := reported\<rparr>) of
                             (Err e, st4) \<Rightarrow> (Err (ReExec e), st4)
                           | (Ok _, st4) \<Rightarrow>
                               (let (zones, ms) = unwrap_or (sg_data g) (nr_zones st4, nr_memberships st4);
                                    st5 = st4\<lparr>nr_zones := zones, nr_memberships := ms,
                                      nr_counter_carry := fold_carry (nr_counter_carry st4) kernel_before\<rparr>
                                in (Ok \<lparr>as_result = \<lparr>ap_installed_sessions = length (sg_bindings g),
                                          ap_skipped_sessions = sn_skipped (sg_snapshot g), ap_warnings = sg_warnings g\<rparr>,
                                        as_sessions = sg_next g,
                                        as_skipped = fold (\<lambda>s. bt_insert (sk_session_id s) (sk_reason s))
                                          (sn_skipped (sg_snapshot g)) [],
                                        as_denial_events = events\<rparr>,
                                    forget_sessions detached st5))))))"

definition reconcile :: "net_env \<Rightarrow> net_runtime \<Rightarrow> (runtime_error, net_reconcile_result) result \<times> net_runtime" where
  "reconcile E st =
     (case apply_inner E st of
        (Ok s, st') \<Rightarrow>
          (Ok \<lparr>rc_applied = as_result s,
               rc_transitions = session_transitions (nr_installed st') (as_sessions s) (as_skipped s),
               rc_denial_events = as_denial_events s\<rparr>,
           st'\<lparr>nr_last_apply := Some (as_result s), nr_last_apply_error := None, nr_installed := as_sessions s\<rparr>)
      | (Err e, st') \<Rightarrow> (Err e, st'\<lparr>nr_last_apply_error := Some e\<rparr>))"

section \<open>The session gate\<close>

record session_ready_result =
  sr_session_id :: string
  sr_project :: string

definition gate_scope_path :: "net_env \<Rightarrow> net_runtime \<Rightarrow> nat \<Rightarrow> string \<Rightarrow> (runtime_error, string) result" where
  "gate_scope_path E st peer_pid session_id =
     (case managed_scope_path E (ticks st) peer_pid session_id of
        Err reason \<Rightarrow> Err (ReSessionGateNotAttributed session_id reason)
      | Ok None \<Rightarrow> Err (ReSessionGateNotAttributed session_id
          (''peer pid '' @ show_nat peer_pid @ '' is not in the exact named scope''))
      | Ok (Some path) \<Rightarrow> Ok path)"

definition not_ready_reason :: "net_reconcile_result \<Rightarrow> string \<Rightarrow> string" where
  "not_ready_reason outcome session_id =
     (case find (\<lambda>s. sk_session_id s = session_id) (ap_skipped_sessions (rc_applied outcome)) of
        Some s \<Rightarrow> sk_reason s
      | None \<Rightarrow> ''punar-agentd did not return this exact active managed session'')"

definition session_ready ::
  "net_env \<Rightarrow> string \<Rightarrow> nat \<Rightarrow> net_runtime \<Rightarrow>
   (runtime_error, session_ready_result \<times> net_reconcile_result) result \<times> net_runtime" where
  "session_ready E session_id peer_pid st =
     (case gate_scope_path E st peer_pid session_id of Err e \<Rightarrow> (Err e, st) | Ok before \<Rightarrow>
     (case validate_trusted_binary E (nr_nft st) st of Err e \<Rightarrow> (Err (ReExec e), st) | Ok _ \<Rightarrow>
     (case reconcile E st of (Err e, st1) \<Rightarrow> (Err e, st1) | (Ok outcome, st1) \<Rightarrow>
     (case bt_get (nr_installed st1) session_id of
        None \<Rightarrow> (Err (ReSessionNotReady session_id (not_ready_reason outcome session_id)), st1)
      | Some session \<Rightarrow>
          if before \<noteq> in_cgroup_path session
          then (Err (ReSessionGateNotAttributed session_id
                  ''the socket peer and agentd's registered process are in different cgroups''), st1)
          else
            (case verify_session_rule E (nr_nft st1) session_id (in_cgroup_path session) st1 of
               (Err e, st2) \<Rightarrow>
                 (let error = ReSessionRuleNotVerified session_id (Some e)
                  in (Err error, st2\<lparr>nr_last_apply_error := Some error\<rparr>))
             | (Ok False, st2) \<Rightarrow>
                 (let error = ReSessionRuleNotVerified session_id None
                  in (Err error, st2\<lparr>nr_last_apply_error := Some error\<rparr>))
             | (Ok True, st2) \<Rightarrow>
                 (case gate_scope_path E st2 peer_pid session_id of Err e \<Rightarrow> (Err e, st2) | Ok after \<Rightarrow>
                  if after \<noteq> in_cgroup_path session
                  then (Err (ReSessionGateNotAttributed session_id
                          ''the socket peer left or changed cgroup during readiness verification''), st2)
                  else (Ok (\<lparr>sr_session_id = session_id, sr_project = in_project session\<rparr>, outcome), st2)))))))"

section \<open>What a reconciliation installs\<close>

lemma publish_installed:
  "publish_destinations E i st = (r, st') \<Longrightarrow> no_installed st' = no_installed st"
  by (auto simp: publish_destinations_def Let_def split: if_splits sum.splits)

lemma publish_all_installed: "publish_all E is st = (r, st') \<Longrightarrow> no_installed st' = no_installed st"
  by (induction E "is" st arbitrary: r st' rule: publish_all.induct)
    (auto dest!: publish_installed split: prod.splits sum.splits)

lemma agentd_snapshot_state [simp]: "snd (agentd_snapshot E st) = tick st"
  by (simp add: agentd_snapshot_def)

lemma agentd_snapshot_Ok:
  assumes "agentd_snapshot E st = (Ok snapshot, st')"
  obtains l where "snapshot = snapshot_from_list E (Suc (ticks st)) l"
  using assms by (auto simp: agentd_snapshot_def res_bind_Ok_iff)

lemma stage_apply_installed: "stage_apply E st = (r, st') \<Longrightarrow> no_installed st' = no_installed st"
  by (auto simp: stage_apply_def Let_def split_beta split: enforcement_capability.splits sum.splits)

text \<open>What a staged apply has decided.\<close>

definition staged_ok :: "net_env \<Rightarrow> nat \<Rightarrow> zones \<Rightarrow> memberships \<Rightarrow> staged_apply \<Rightarrow> bool" where
  "staged_ok E t zones ms g \<longleftrightarrow>
     sg_bindings g = map (\<lambda>s. fst (compile_binding E t zones ms s)) (sn_sessions (sg_snapshot g)) \<and>
     render_table True zones ms (sg_bindings g) = Ok (sg_ruleset g) \<and>
     install_bindings zones [] (sg_bindings g) = Ok (sg_next g)"

lemma stage_apply_Ok:
  assumes "stage_apply E st = (Ok g, st')"
  obtains zones ms where "staged_ok E (ticks st') zones ms g"
    "nr_data_source st \<Longrightarrow> load_network_data E (ticks st) = Ok (zones, ms)"
    "\<not> nr_data_source st \<Longrightarrow> (zones, ms) = (nr_zones st, nr_memberships st)"
proof -
  obtain staged where staged: "stage_data E st = Ok staged"
    using assms by (auto simp: stage_apply_def split: enforcement_capability.splits sum.splits)
  obtain zones ms where zm: "unwrap_or staged (nr_zones st, nr_memberships st) = (zones, ms)" by fastforce
  obtain q st1 where q: "agentd_snapshot E st = (q, st1)" by fastforce
  then obtain snapshot where snap: "agentd_snapshot E st = (Ok snapshot, st')"
    using assms staged zm by (cases q) (auto simp: stage_apply_def Let_def split_beta
        split: enforcement_capability.splits)
  have "staged_ok E (ticks st') zones ms g"
    using assms staged zm snap
    by (auto simp: stage_apply_def staged_ok_def compile_bindings_def Let_def res_bind_Ok_iff split_beta o_def
        elim!: map_sum_OkE split: enforcement_capability.splits)
  moreover have "nr_data_source st \<Longrightarrow> load_network_data E (ticks st) = Ok (zones, ms)"
    "\<not> nr_data_source st \<Longrightarrow> (zones, ms) = (nr_zones st, nr_memberships st)"
    using staged zm by (auto simp: stage_data_def split: sum.splits)
  ultimately show ?thesis by (rule that)
qed

lemma stage_apply_source:
  assumes "stage_apply E st = (Ok g, st')" "nr_data_source st" "load_network_data E (ticks st) = Ok (zones, ms)"
  shows "staged_ok E (ticks st') zones ms g"
  by (rule stage_apply_Ok [OF assms(1)]) (use assms(2,3) in simp)

lemma apply_inner_Ok:
  assumes "apply_inner E st = (Ok s, st')"
  obtains g st1 where "stage_apply E st = (Ok g, st1)" "as_sessions s = sg_next g"
    "no_installed st' = sg_ruleset g # no_installed st"
proof -
  obtain g st1 where g: "stage_apply E st = (Ok g, st1)"
    using assms by (auto simp: apply_inner_def split: sum.splits prod.splits)
  let ?d = "filter (\<lambda>i. \<not> contains_key (sg_next g) i) (bt_keys (nr_installed st1))"
  obtain st2 where p: "publish_all E ?d st1 = (Ok (), st2)"
    using assms g by (auto simp: apply_inner_def Let_def split: sum.splits prod.splits)
  obtain counts st3 where q: "query_named_counters E (nr_nft st2) st2 = (Ok counts, st3)"
    using assms g p by (auto simp: apply_inner_def Let_def split: sum.splits prod.splits)
  obtain v ev rep where c: "collect_denials (nr_installed st3) (nr_counter_carry st3) counts (nr_reported st3) = (v, ev, rep)"
    by (rule prod_cases3)
  obtain st4 where a: "apply_checked E (nr_nft st3) (sg_ruleset g) (st3\<lparr>nr_reported := rep\<rparr>) = (Ok (), st4)"
    using assms g p q c by (auto simp: apply_inner_def Let_def split: sum.splits prod.splits)
  have s: "as_sessions s = sg_next g" "no_installed st' = no_installed st4"
    using assms g p q c a by (auto simp: apply_inner_def Let_def forget_sessions_def split: prod.splits)
  have "no_installed st4 = sg_ruleset g # no_installed st"
    using apply_checked_installed [OF a] query_installed [OF q] publish_all_installed [OF p] stage_apply_installed [OF g]
    by simp
  then show ?thesis using s by (intro that [OF g]) simp_all
qed

lemma install_bindings_get:
  assumes "install_bindings zones acc bs = Ok m" "bt_ok acc" "bt_get m i = Some inst"
  shows "bt_get acc i = Some inst \<or>
    (\<exists>b \<in> set bs. sb_session_id b = i \<and> in_cgroup_path inst = sb_cgroup_path b \<and> in_project inst = sb_project_id b)"
  using assms
proof (induction zones acc bs rule: install_bindings.induct)
  case (2 zones acc b bs)
  then obtain cs where c: "counter_bindings zones b = Ok cs"
    and rec: "install_bindings zones (bt_insert (sb_session_id b)
      \<lparr>in_project = sb_project_id b, in_cgroup_path = sb_cgroup_path b, in_counters = cs\<rparr> acc) bs = Ok m"
    by (auto simp: res_bind_Ok_iff)
  show ?case using 2(1) [OF rec bt_ok_insert [OF 2(3)] 2(4)] 2(3) by (auto simp: bt_get_insert split: if_splits)
qed simp

section \<open>What an open gate has proved\<close>

lemma gate_scope_path_Ok:
  "gate_scope_path E st pid i = Ok p \<longleftrightarrow> managed_scope_path E (ticks st) pid i = Ok (Some p)"
  by (auto simp: gate_scope_path_def split: sum.splits option.splits)

lemma session_ready_Ok:
  assumes "session_ready E i pid st = (Ok (res, outcome), st')"
  obtains inst st1 where "reconcile E st = (Ok outcome, st1)" "bt_get (nr_installed st1) i = Some inst"
    "managed_scope_path E (ticks st) pid i = Ok (Some (in_cgroup_path inst))"
    "verify_session_rule E (nr_nft st1) i (in_cgroup_path inst) st1 = (Ok True, st')"
    "managed_scope_path E (ticks st') pid i = Ok (Some (in_cgroup_path inst))"
    "res = \<lparr>sr_session_id = i, sr_project = in_project inst\<rparr>"
proof -
  obtain p where p: "gate_scope_path E st pid i = Ok p"
    using assms by (auto simp: session_ready_def split: sum.splits)
  have t: "validate_trusted_binary E (nr_nft st) st = Ok ()"
    using assms p by (auto simp: session_ready_def split: sum.splits)
  obtain o1 st1 where r: "reconcile E st = (Ok o1, st1)"
    using assms p t by (auto simp: session_ready_def split: sum.splits prod.splits)
  obtain inst where inst: "bt_get (nr_installed st1) i = Some inst"
    using assms p t r by (auto simp: session_ready_def split: option.splits)
  have eq: "p = in_cgroup_path inst"
    using assms p t r inst by (auto simp: session_ready_def split: if_splits)
  obtain st2 where v: "verify_session_rule E (nr_nft st1) i (in_cgroup_path inst) st1 = (Ok True, st2)"
    using assms p t r inst eq
    by (auto simp: session_ready_def Let_def split: prod.splits sum.splits bool.splits)
  obtain q where q: "gate_scope_path E st2 pid i = Ok q"
    using assms p t r inst eq v by (auto simp: session_ready_def split: sum.splits)
  have fin: "q = in_cgroup_path inst" "st' = st2" "outcome = o1" "res = \<lparr>sr_session_id = i, sr_project = in_project inst\<rparr>"
    using assms p t r inst eq v q by (auto simp: session_ready_def split: if_splits)
  show ?thesis using that [of st1 inst] r inst p eq v q fin by (simp add: gate_scope_path_Ok)
qed

end
