(* ===== verification/Net_Gate.thy ===== *)
theory Net_Gate
  imports Net_Runtime
begin

text \<open>
  What the network daemon guarantees as a whole: a session whose gate opened is confined by the policy
  of its project, and what a reconciliation that fails leaves behind.
\<close>

section \<open>Confinement\<close>

lemma reconcile_Ok:
  assumes "reconcile E st = (Ok outcome, st')" "stage_apply E st = (Ok g, st1)"
  shows "nr_installed st' = sg_next g" "no_installed st' = sg_ruleset g # no_installed st"
proof -
  obtain r st2 where r: "apply_inner E st = (r, st2)" by (rule prod.exhaust)
  then obtain s where a: "apply_inner E st = (Ok s, st2)" using assms(1) by (cases r) (simp_all add: reconcile_def)
  have st': "st' = st2\<lparr>nr_last_apply := Some (as_result s), nr_last_apply_error := None, nr_installed := as_sessions s\<rparr>"
    using assms(1) by (simp add: reconcile_def a)
  obtain g' st3 where g': "stage_apply E st = (Ok g', st3)" "as_sessions s = sg_next g'"
    "no_installed st2 = sg_ruleset g' # no_installed st"
    by (rule apply_inner_Ok [OF a])
  have "g' = g" using g'(1) assms(2) by simp
  then show "nr_installed st' = sg_next g" "no_installed st' = sg_ruleset g # no_installed st"
    unfolding st' using g'(2,3) by simp_all
qed

lemma staged_binding_rules:
  assumes "staged_ok E t zones ms g" "b \<in> set (sg_bindings g)"
  shows "map er_zone (cp_rules (sb_policy b)) = bt_keys zones"
proof -
  obtain s where "b = fst (compile_binding E t zones ms s)" using assms unfolding staged_ok_def by auto
  then show ?thesis by (simp only: compile_binding_rules)
qed

lemma find_unique:
  assumes "s \<in> set ss" "P s" "\<And>b. b \<in> set ss \<Longrightarrow> P b \<Longrightarrow> b = s"
  shows "find P ss = Some s"
proof -
  obtain b where b: "find P ss = Some b" using assms(1,2) by (cases "find P ss") (auto simp: find_None_iff)
  then have "b \<in> set ss" "P b" by (auto simp: find_Some_iff)
  then show ?thesis using b assms(3) by simp
qed

lemma id_unique: "distinct (map f xs) \<Longrightarrow> a \<in> set xs \<Longrightarrow> b \<in> set xs \<Longrightarrow> f a = f b \<Longrightarrow> a = b"
  by (auto simp: distinct_map inj_on_def)

lemma staged_packet_verdict:
  assumes ok: "staged_ok E t zones ms g" and data: "load_network_data E t0 = Ok (zones, ms)"
    and s: "s \<in> set (sg_bindings g)" "within q (sb_cgroup_path s)" "validate_cgroup_path q = Ok ()"
      "\<forall>b \<in> set (sg_bindings g). within q (sb_cgroup_path b) \<longrightarrow> sb_session_id b = sb_session_id s"
    and nft: "nft_reads V (table_of ms (sg_bindings g))"
      "\<forall>b \<in> set (sg_bindings g). CHR 0x5C \<notin> set (sb_cgroup_path b)"
  shows "V (sg_ruleset g) q x = Accept \<longleftrightarrow>
    zone_decision (sb_policy s) (zone_of ms x) = NetAllow \<or> zone_of ms x = ''internet'' \<and> local_address x"
proof -
  have render: "render_table True zones ms (sg_bindings g) = Ok (sg_ruleset g)"
    using ok unfolding staged_ok_def by blast
  have z: "zones_ok zones" "\<exists>S input. parse_zone_memberships S input zones = Ok ms"
    using load_network_data_ok [OF data] by blast+
  then have m: "bt_ok ms" "list_all (membership_ok zones) ms" "overlapping ms = []"
    using parse_memberships_ok by blast+
  have "find (\<lambda>b. within q (sb_cgroup_path b)) (sg_bindings g) = Some s"
  proof (rule find_unique [OF s(1)])
    show "within q (sb_cgroup_path s)" by (rule s(2))
    show "b = s" if "b \<in> set (sg_bindings g)" "within q (sb_cgroup_path b)" for b
      using id_unique [OF render_table_checks(3) [OF render] that(1) s(1)] s(4) that by blast
  qed
  then have "V (sg_ruleset g) q x = policy_verdict ms (sb_policy s) x"
    using table_verdict_sessions [OF render_table_checks(2,3) [OF render] m(1) s(3)]
      loaded_verdict [OF render nft] by simp
  then show ?thesis
    using policy_verdict_zone [OF m _ _ staged_binding_rules [OF ok s(1)]] z(1) by (auto simp: zones_ok_def blocks_def)
qed

section \<open>Properties\<close>

text \<open>
  C3. When the gate of a session opens, the session is confined. The gate's process was in the session's
  own scope before and after, the ruleset \<open>nft\<close> accepted last binds that scope to the policy compiled
  for the session's project, and from then on a packet from that scope or below it is let through
  exactly when the zone of its destination is allowed, or the destination is loopback or link-local
  and in no zone. This is for a daemon that reads its zones from files, as the service does, and for
  an \<open>nft\<close> that gives the verdicts its manual defines for the table. The sockets of another session's
  scope nested in this one are left out, and so are tables that name a scope with a backslash.
\<close>

theorem ready_session_is_confined:
  assumes ready: "session_ready E i pid st = (Ok (res, outcome), st')"
    and source: "nr_data_source st" "load_network_data E (ticks st) = Ok (zones, ms)"
    and staged: "stage_apply E st = (Ok g, st1)"
    and scope: "managed_scope_path E (ticks st) pid i = Ok (Some p)"
    and nft: "nft_reads V (table_of ms (sg_bindings g))"
      "\<forall>b \<in> set (sg_bindings g). CHR 0x5C \<notin> set (sb_cgroup_path b)"
    and packet: "validate_cgroup_path q = Ok ()" "within q p"
      "\<forall>b \<in> set (sg_bindings g). within q (sb_cgroup_path b) \<longrightarrow> sb_session_id b = i"
  shows "\<exists>s \<in> set (sg_bindings g). sb_session_id s = i \<and> sb_cgroup_path s = p \<and> sr_project res = sb_project_id s \<and>
     managed_scope_path E (ticks st') pid i = Ok (Some p) \<and> hd (no_installed st') = sg_ruleset g \<and>
     (V (hd (no_installed st')) q x = Accept \<longleftrightarrow>
        zone_decision (sb_policy s) (zone_of ms x) = NetAllow \<or> zone_of ms x = ''internet'' \<and> local_address x)"
proof -
  obtain inst st2 where r: "reconcile E st = (Ok outcome, st2)" and inst: "bt_get (nr_installed st2) i = Some inst"
    and p: "managed_scope_path E (ticks st) pid i = Ok (Some (in_cgroup_path inst))"
    and v: "verify_session_rule E (nr_nft st2) i (in_cgroup_path inst) st2 = (Ok True, st')"
    and p': "managed_scope_path E (ticks st') pid i = Ok (Some (in_cgroup_path inst))"
    and res: "res = \<lparr>sr_session_id = i, sr_project = in_project inst\<rparr>"
    by (rule session_ready_Ok [OF ready])
  have ok: "staged_ok E (ticks st1) zones ms g" by (rule stage_apply_source [OF staged source])
  then have install: "install_bindings zones [] (sg_bindings g) = Ok (sg_next g)" unfolding staged_ok_def by blast
  obtain s where s: "s \<in> set (sg_bindings g)" "sb_session_id s = i" "in_cgroup_path inst = sb_cgroup_path s"
    "in_project inst = sb_project_id s"
    using install_bindings_get [OF install bt_ok_Nil, of i inst] inst
    unfolding reconcile_Ok(1) [OF r staged] by (auto simp: bt_get_def [of "[]"])
  have path: "sb_cgroup_path s = p" using s(3) p scope by simp
  have "V (sg_ruleset g) q x = Accept \<longleftrightarrow>
      zone_decision (sb_policy s) (zone_of ms x) = NetAllow \<or> zone_of ms x = ''internet'' \<and> local_address x"
    using staged_packet_verdict [OF ok source(2) s(1) _ packet(1) _ nft] packet(2,3) path s(2) by simp
  moreover have "hd (no_installed st') = sg_ruleset g"
    using reconcile_Ok(2) [OF r staged] verify_installed [OF v] by simp
  moreover have "sr_project res = sb_project_id s" using res s(4) by simp
  moreover have "managed_scope_path E (ticks st') pid i = Ok (Some p)" using p' s(3) path by simp
  ultimately show ?thesis using s(1,2) path by auto
qed

text \<open>
  A machine with one managed session: its scope, the project files of its user, three zones, and an
  \<open>nft\<close> that accepts every file and lists what it was given.
\<close>

definition demo_egress :: json where
  "demo_egress = JObj [(''nftables'', JArr [JObj [(''rule'', JObj
     [(''family'', JStr ''inet''), (''table'', JStr ''punar-net''), (''chain'', JStr ''egress''),
      (''expr'', JArr [JObj [(''match'', JObj [(''op'', JStr ''==''),
           (''left'', JObj [(''socket'', JObj [(''key'', JStr ''cgroupv2'')])]),
           (''right'', JStr ''user.slice/punar-agent-agt_1.scope'')])],
         JObj [(''jump'', JObj [(''target'', JStr ''s_1'')])]])])]])]"

definition demo_chain :: json where
  "demo_chain = JObj [(''nftables'', JArr [JObj [(''chain'', JObj
     [(''family'', JStr ''inet''), (''table'', JStr ''punar-net''), (''name'', JStr ''s_1'')])]])]"

definition demo_counters :: json where
  "demo_counters = JObj [(''nftables'', JArr [JObj [(''counter'', JObj
     [(''family'', JStr ''inet''), (''table'', JStr ''punar-net''), (''name'', JStr ''c_1_residual_deny''),
      (''packets'', JNum 3)])]])]"

definition demo_run :: "string list \<Rightarrow> string \<Rightarrow> (exec_error, nft_output) result" where
  "demo_run args input =
     Ok \<lparr>nf_success = True,
         nf_stdout = (if args = LIST_TABLE then ''T'' else if last args = ''egress'' then ''E'' else ''S''),
         nf_stderr = []\<rparr>"

definition demo_json :: "string \<Rightarrow> (string, json) result" where
  "demo_json s = Ok (if s = ''T'' then demo_counters else if s = ''E'' then demo_egress else demo_chain)"

definition demo_read :: "string \<Rightarrow> (io_error, string) result" where
  "demo_read path =
     (if path = ''/proc/7/cgroup'' then Ok (''0::'' @ demo_scope)
      else if path = ''/etc/passwd'' then Ok ''dev:x:1000:1000::/home/dev:/bin/sh''
      else Ok path)"

definition demo_read_zone :: "string \<Rightarrow> (string, zone_definition) result" where
  "demo_read_zone body =
     Ok (if body = ''/usr/share/punar/network/zones/a.json'' then demo_zone ''corp'' ZkCorporate
         else if body = ''/usr/share/punar/network/zones/b.json'' then demo_zone ''internet'' ZkInternet
         else demo_zone ''prod'' ZkProduction)"

definition demo_record :: registry_record where
  "demo_record = \<lparr>rr_session_id = ''agt_1'', rr_agent = ''coder'', rr_version = ''1'', rr_process_id = 7,
     rr_user = ''dev'', rr_project = ''atlas'', rr_environment = ''host'', rr_status = AgActive,
     rr_classification = AgManaged, rr_started_at = ''2026-01-01T00:00:00Z''\<rparr>"

definition demo_net_env :: net_env where
  "demo_net_env =
     \<lparr>ne_lstat = (\<lambda>_. demo_fs), ne_canonicalize = (\<lambda>_ _. Some [''usr'', ''sbin'', ''nft'']),
      ne_run = (\<lambda>_. demo_run), ne_committed = (\<lambda>_. False), ne_json = demo_json,
      ne_codec = demo_codec\<lparr>read_zone := demo_read_zone\<rparr>,
      ne_read = (\<lambda>_. demo_read),
      ne_read_dir = (\<lambda>_ _. Ok (map (\<lambda>name. Ok (name, Ok True)) [''c.json'', ''a.json'', ''b.json'', ''README''])),
      ne_agents_line = (\<lambda>_. Ok ''L''),
      ne_response = (\<lambda>_. Ok \<lparr>ar_v = 1, ar_body = RbResult JNull\<rparr>),
      ne_sessions = (\<lambda>_. Ok [demo_record]),
      ne_cgroup_ino = (\<lambda>_ _. Some 42),
      ne_model_error_text = (\<lambda>_. ''invalid''), ne_project_error_text = (\<lambda>_. ''project''),
      ne_publish = (\<lambda>_ _ _. Ok 0), ne_observe = (\<lambda>_. Err (ObserveError ''none'')),
      ne_deny_log = (\<lambda>_. Ok []), ne_enrolled = (\<lambda>_. False), ne_write_report = (\<lambda>_. Ok True)\<rparr>"

definition demo_runtime :: net_runtime where
  "demo_runtime =
     \<lparr>ticks = 0, no_installed = [], nr_zones = [], nr_memberships = [], nr_data_source = True,
      nr_nft = \<lparr>nx_absolute = True, nx_bin = [''usr'', ''bin'', ''nft''], nx_dir = [''var'', ''net''], nx_trusted_uid = 0\<rparr>,
      nr_deny_log = True, nr_capability = Available, nr_last_apply = None, nr_last_apply_error = None,
      nr_installed = [], nr_counter_carry = [], nr_reported = [], nr_last_denied = [], nr_active = [],
      nr_totals = []\<rparr>"

lemma demo_data: "load_network_data demo_net_env 0 = Ok (demo_zones, demo_memberships)"
  by code_simp

lemma demo_staged: "map_sum id sg_bindings (fst (stage_apply demo_net_env demo_runtime)) = Ok [demo_binding]"
  by code_simp

lemma demo_net_ready: "is_ok (fst (session_ready demo_net_env ''agt_1'' 7 demo_runtime))"
  by code_simp

lemma demo_scope_path: "managed_scope_path demo_net_env 0 7 ''agt_1'' = Ok (Some demo_scope)"
  by code_simp

theorem ready_session_is_confined_witness:
  "\<exists>res outcome st'. session_ready demo_net_env ''agt_1'' 7 demo_runtime = (Ok (res, outcome), st') \<and>
     (\<lambda>_ :: string. table_verdict (table_of demo_memberships [demo_binding])) (hd (no_installed st')) demo_scope
       (V4Addr 0x08080808) = Reject"
proof -
  obtain r st' where s: "session_ready demo_net_env ''agt_1'' 7 demo_runtime = (r, st')" by (rule prod.exhaust)
  obtain res outcome where ready: "session_ready demo_net_env ''agt_1'' 7 demo_runtime = (Ok (res, outcome), st')"
    using demo_net_ready s by (cases r) auto
  obtain q st1 where q: "stage_apply demo_net_env demo_runtime = (q, st1)" by (rule prod.exhaust)
  obtain g where staged: "stage_apply demo_net_env demo_runtime = (Ok g, st1)" and b: "sg_bindings g = [demo_binding]"
    using demo_staged q by (cases q) auto
  let ?V = "\<lambda>_ :: string. table_verdict (table_of demo_memberships [demo_binding])"
  have t: "ticks demo_runtime = 0" "nr_data_source demo_runtime" by (simp_all add: demo_runtime_def)
  have V: "nft_reads ?V (table_of demo_memberships (sg_bindings g))"
    "\<forall>b \<in> set (sg_bindings g). CHR 0x5C \<notin> set (sb_cgroup_path b)"
    by (simp_all add: b nft_reads_def demo_binding_def demo_scope_def)
  have p: "validate_cgroup_path demo_scope = Ok ()" "within demo_scope demo_scope" by code_simp+
  have u: "\<forall>b \<in> set (sg_bindings g). within demo_scope (sb_cgroup_path b) \<longrightarrow> sb_session_id b = ''agt_1''"
    by (simp add: b demo_binding_def)
  have z: "zone_of demo_memberships (V4Addr 0x08080808) = ''internet''" "\<not> local_address (V4Addr 0x08080808)"
    "zone_decision (sb_policy demo_binding) ''internet'' = NetApprovalRequired" by code_simp+
  have "?V (hd (no_installed st')) demo_scope (V4Addr 0x08080808) \<noteq> Accept"
    using ready_session_is_confined [OF ready t(2) demo_data [folded t(1)] staged demo_scope_path [folded t(1)] V p u,
        of "V4Addr 0x08080808"] z by (auto simp: b)
  then show ?thesis using ready nft_verdict.exhaust by blast
qed

end
