(* ===== verification/Net_Denials.thy ===== *)
theory Net_Denials
  imports Net_Gate
begin

text \<open>
  What the daemon's denial counters lose and what stops a pass over the table
  (\<open>punar-netd/src/runtime.rs\<close>: \<open>collect_denials\<close>, \<open>apply_inner\<close>; \<open>nft_exec.rs\<close>:
  \<open>query_named_counters\<close>). The high-water marks of the denials already reported move
  before the new table is loaded, so a pass whose load fails takes its events with it; and
  a listing of the table longer than the output limit fails every later pass.
\<close>

definition seen :: "(string, nat) btree_map \<Rightarrow> string \<Rightarrow> nat" where
  "seen reported name = unwrap_or (bt_get reported name) 0"

lemma session_denials_reported:
  assumes "session_denials sid session carry counts bs reported = (rows, events, reported')" "bt_ok reported"
  shows "bt_ok reported' \<and> (\<forall>n. seen reported n \<le> seen reported' n) \<and>
    (\<forall>b \<in> set bs. blocks (cb_decision b) \<longrightarrow> attempts_of carry counts (cb_name b) \<le> seen reported' (cb_name b))"
  using assms
proof (induction bs arbitrary: reported rows events)
  case (Cons b bs)
  let ?a = "attempts_of carry counts (cb_name b)"
  let ?r = "if \<not> blocks (cb_decision b) \<or> ?a \<le> seen reported (cb_name b) then reported else bt_insert (cb_name b) ?a reported"
  obtain rows2 events2 where rec: "session_denials sid session carry counts bs ?r = (rows2, events2, reported')"
    using Cons(2) by (auto simp: Let_def seen_def split: if_splits prod.splits)
  have ok: "bt_ok ?r" using Cons(3) by (simp add: bt_ok_insert)
  have up: "seen reported n \<le> seen ?r n" for n using Cons(3) by (auto simp: seen_def bt_get_insert)
  have here: "blocks (cb_decision b) \<Longrightarrow> ?a \<le> seen ?r (cb_name b)" using Cons(3) by (auto simp: seen_def bt_get_insert)
  show ?case using Cons(1) [OF rec ok] up here by (auto intro: order_trans)
qed simp

lemma session_denials_seen:
  assumes "\<forall>b \<in> set bs. blocks (cb_decision b) \<longrightarrow> attempts_of carry counts (cb_name b) \<le> seen reported (cb_name b)"
  shows "\<exists>rows. session_denials sid session carry counts bs reported = (rows, [], reported)"
  using assms
proof (induction bs)
  case (Cons b bs)
  then obtain rows where "session_denials sid session carry counts bs reported = (rows, [], reported)" by auto
  moreover have "blocks (cb_decision b) \<Longrightarrow> \<not> attempts_of carry counts (cb_name b) > unwrap_or (bt_get reported (cb_name b)) 0"
    using Cons(2) by (simp add: seen_def not_less)
  ultimately show ?case by (auto simp: Let_def)
qed simp

lemma collect_denials_reported:
  assumes "collect_denials sessions carry counts reported = (views, events, reported')" "bt_ok reported"
  shows "bt_ok reported' \<and> (\<forall>n. seen reported n \<le> seen reported' n) \<and>
    (\<forall>(sid, s) \<in> set sessions. \<forall>b \<in> set (in_counters s). blocks (cb_decision b) \<longrightarrow>
       attempts_of carry counts (cb_name b) \<le> seen reported' (cb_name b))"
  using assms
proof (induction sessions arbitrary: reported views events)
  case (Cons p sessions)
  obtain sid s where p: "p = (sid, s)" by (cases p)
  obtain rows ev r1 where one: "session_denials sid s carry counts (in_counters s) reported = (rows, ev, r1)"
    by (rule prod_cases3)
  obtain v2 e2 where rec: "collect_denials sessions carry counts r1 = (v2, e2, reported')"
    using Cons(2) one by (auto simp: p Let_def split: prod.splits)
  note a = session_denials_reported [OF one Cons(3)]
  note b = Cons(1) [OF rec conjunct1 [OF a]]
  show ?case using a b by (auto simp: p intro: order_trans)
qed simp

lemma collect_denials_seen:
  assumes "\<forall>(sid, s) \<in> set sessions. \<forall>b \<in> set (in_counters s). blocks (cb_decision b) \<longrightarrow>
    attempts_of carry counts (cb_name b) \<le> seen reported (cb_name b)"
  shows "\<exists>views. collect_denials sessions carry counts reported = (views, [], reported)"
  using assms
proof (induction sessions)
  case (Cons p sessions)
  obtain sid s where p: "p = (sid, s)" by (cases p)
  obtain views where "collect_denials sessions carry counts reported = (views, [], reported)" using Cons by auto
  moreover obtain rows where "session_denials sid s carry counts (in_counters s) reported = (rows, [], reported)"
    using session_denials_seen [of "in_counters s" carry counts reported sid s] Cons(2) by (auto simp: p)
  ultimately show ?case by (simp add: p Let_def)
qed simp

section \<open>A pass whose load fails\<close>

text \<open>The runs of \<open>nft\<close> and the calls to \<open>punar-agentd\<close> change neither the sessions installed nor
  what was reported of them.\<close>

lemma same_more:
  assumes "net_os.more (s :: net_runtime) = net_os.more t"
  shows "nr_installed s = nr_installed t \<and> nr_counter_carry s = nr_counter_carry t \<and> nr_reported s = nr_reported t"
  using assms by (cases s; cases t) simp

lemma publish_destinations_more: "publish_destinations E i st = (r, st') \<Longrightarrow> net_os.more st' = net_os.more st"
  by (auto simp: publish_destinations_def Let_def tick_def split: if_splits sum.splits)

lemma publish_all_more: "publish_all E is st = (r, st') \<Longrightarrow> net_os.more st' = net_os.more st"
  by (induction E "is" st arbitrary: r st' rule: publish_all.induct)
    (auto dest!: publish_destinations_more split: prod.splits sum.splits)

lemma stage_apply_more: "stage_apply E st = (r, st') \<Longrightarrow> net_os.more st' = net_os.more st"
  by (auto simp: stage_apply_def agentd_snapshot_def Let_def split_beta tick_def
      split: enforcement_capability.splits sum.splits)

text \<open>The counters that a pass reads before it loads the new table, where it comes that far.\<close>

definition counters_read :: "net_env \<Rightarrow> net_runtime \<Rightarrow> (string, nat) btree_map option" where
  "counters_read E st =
     (case stage_apply E st of
        (Ok g, st1) \<Rightarrow>
          (case publish_all E (filter (\<lambda>i. \<not> contains_key (sg_next g) i) (bt_keys (nr_installed st1))) st1 of
             (Ok _, st2) \<Rightarrow>
               (case query_named_counters E (nr_nft st2) st2 of (Ok counts, _) \<Rightarrow> Some counts | _ \<Rightarrow> None)
           | _ \<Rightarrow> None)
      | _ \<Rightarrow> None)"

lemma counters_readE:
  assumes "counters_read E st = Some counts"
  obtains g st1 st2 st3 where "stage_apply E st = (Ok g, st1)"
    "publish_all E (filter (\<lambda>i. \<not> contains_key (sg_next g) i) (bt_keys (nr_installed st1))) st1 = (Ok (), st2)"
    "query_named_counters E (nr_nft st2) st2 = (Ok counts, st3)" "net_os.more st3 = net_os.more st"
proof -
  obtain g st1 where a: "stage_apply E st = (Ok g, st1)"
    using assms by (auto simp: counters_read_def split: prod.splits sum.splits)
  obtain u :: unit and st2 where
    b: "publish_all E (filter (\<lambda>i. \<not> contains_key (sg_next g) i) (bt_keys (nr_installed st1))) st1 = (Ok u, st2)"
    using assms a by (auto simp: counters_read_def split: prod.splits sum.splits)
  obtain st3 where c: "query_named_counters E (nr_nft st2) st2 = (Ok counts, st3)"
    using assms a b by (auto simp: counters_read_def split: prod.splits sum.splits)
  show ?thesis using stage_apply_more [OF a] publish_all_more [OF b] query_more [OF c] b by (intro that [OF a _ c]) auto
qed

lemma apply_inner_denials:
  assumes read: "counters_read E st = Some counts"
    and denials: "collect_denials (nr_installed st) (nr_counter_carry st) counts (nr_reported st) = (views, events, reported)"
    and inner: "apply_inner E st = (r, st')"
  shows "(\<forall>s. r = Ok s \<longrightarrow> as_denial_events s = events) \<and>
    (\<forall>e. r = Err e \<longrightarrow> nr_reported st' = reported \<and> nr_installed st' = nr_installed st \<and>
       nr_counter_carry st' = nr_counter_carry st)"
proof -
  obtain g st1 st2 st3 where parts: "stage_apply E st = (Ok g, st1)"
    "publish_all E (filter (\<lambda>i. \<not> contains_key (sg_next g) i) (bt_keys (nr_installed st1))) st1 = (Ok (), st2)"
    "query_named_counters E (nr_nft st2) st2 = (Ok counts, st3)" and more: "net_os.more st3 = net_os.more st"
    using read by (rule counters_readE)
  note same = same_more [OF more]
  have d: "collect_denials (nr_installed st3) (nr_counter_carry st3) counts (nr_reported st3) = (views, events, reported)"
    using denials same by simp
  obtain a st4 where load: "apply_checked E (nr_nft st3) (sg_ruleset g) (st3\<lparr>nr_reported := reported\<rparr>) = (a, st4)"
    by (rule prod.exhaust)
  note kept = same_more [OF apply_checked_more [OF load]]
  show ?thesis
  proof (cases a)
    case (Inl e)
    then have "r = Err (ReExec e)" "st' = st4" using inner parts d load by (auto simp: apply_inner_def Let_def)
    then show ?thesis using kept same by simp
  next
    case (Inr u)
    then show ?thesis using inner parts d load by (auto simp: apply_inner_def Let_def split: prod.splits)
  qed
qed

text \<open>
  C39. A transaction that fails takes its denial events with it. If a pass reads the counters
  and the load of the new table then fails, the next pass that reads the same counters reports
  no denial event at all, whatever events the failed pass had found: the high-water marks
  moved and the events were dropped with the error, so they are never recorded.
\<close>

theorem failed_apply_loses_denials:
  assumes marks: "bt_ok (nr_reported st)"
    and first: "counters_read E st = Some counts" "reconcile E st = (Err e, st')"
    and found: "collect_denials (nr_installed st) (nr_counter_carry st) counts (nr_reported st) = (views, events, reported)"
    and second: "counters_read E st' = Some counts" "reconcile E st' = (Ok outcome, st'')"
  shows "rc_denial_events outcome = [] \<and> nr_installed st' = nr_installed st"
proof -
  obtain e' t where inner: "apply_inner E st = (Err e', t)" and t: "st' = t\<lparr>nr_last_apply_error := Some e'\<rparr>"
    using first(2) by (auto simp: reconcile_def split: prod.splits sum.splits)
  have k: "nr_reported st' = reported" "nr_installed st' = nr_installed st" "nr_counter_carry st' = nr_counter_carry st"
    using apply_inner_denials [OF first(1) found inner] by (simp_all add: t)
  obtain v where "collect_denials (nr_installed st') (nr_counter_carry st') counts (nr_reported st') = (v, [], reported)"
    using collect_denials_seen [of "nr_installed st" "nr_counter_carry st" counts reported]
      collect_denials_reported [OF found marks] by (auto simp: k)
  note again = apply_inner_denials [OF second(1) this]
  obtain s t' where "apply_inner E st' = (Ok s, t')" "rc_denial_events outcome = as_denial_events s"
    using second(2) by (auto simp: reconcile_def split: prod.splits sum.splits)
  then show ?thesis using again k(2) by auto
qed

text \<open>An \<open>nft\<close> that refuses the first file and accepts the second; one installed session with
  three packets refused.\<close>

definition demo_busy_env :: net_env where
  "demo_busy_env = demo_net_env\<lparr>ne_sessions := (\<lambda>_. Ok []),
     ne_run := (\<lambda>t args input. if args = [''-f''] \<and> t < 3
       then Ok \<lparr>nf_success = False, nf_stdout = [], nf_stderr = ''busy''\<rparr> else demo_run args input)\<rparr>"

definition demo_installed :: net_runtime where
  "demo_installed = demo_runtime\<lparr>nr_installed := [(''agt_1'',
     \<lparr>in_project = ''atlas'', in_cgroup_path = demo_scope,
      in_counters = [\<lparr>cb_name = ''c_1_residual_deny'', cb_zone = ''internet'', cb_kind = ZkInternet,
        cb_decision = NetDeny\<rparr>]\<rparr>)]\<rparr>"

lemma demo_busy_first:
  "counters_read demo_busy_env demo_installed = Some [(''c_1_residual_deny'', 3)]"
  "\<not> is_ok (fst (reconcile demo_busy_env demo_installed))"
  "bt_ok (nr_reported demo_installed)"
  by code_simp+

lemma demo_busy_second:
  "counters_read demo_busy_env (snd (reconcile demo_busy_env demo_installed)) = Some [(''c_1_residual_deny'', 3)]"
  "is_ok (fst (reconcile demo_busy_env (snd (reconcile demo_busy_env demo_installed))))"
  by code_simp+

lemma demo_busy_events:
  "length (fst (snd (collect_denials (nr_installed demo_installed) (nr_counter_carry demo_installed)
     [(''c_1_residual_deny'', 3)] (nr_reported demo_installed)))) = 1"
  by code_simp

theorem failed_apply_loses_denials_witness:
  "\<exists>e st' outcome st''. reconcile demo_busy_env demo_installed = (Err e, st') \<and>
     reconcile demo_busy_env st' = (Ok outcome, st'') \<and> rc_denial_events outcome = [] \<and>
     length (fst (snd (collect_denials (nr_installed demo_installed) (nr_counter_carry demo_installed)
       [(''c_1_residual_deny'', 3)] (nr_reported demo_installed)))) = 1"
proof -
  obtain e st' where one: "reconcile demo_busy_env demo_installed = (Err e, st')"
    using demo_busy_first(2) by (cases "reconcile demo_busy_env demo_installed"; cases "fst (reconcile demo_busy_env demo_installed)") auto
  obtain outcome st'' where two: "reconcile demo_busy_env st' = (Ok outcome, st'')"
    using demo_busy_second(2) one by (cases "reconcile demo_busy_env st'"; cases "fst (reconcile demo_busy_env st')") auto
  obtain views events reported where c: "collect_denials (nr_installed demo_installed) (nr_counter_carry demo_installed)
      [(''c_1_residual_deny'', 3)] (nr_reported demo_installed) = (views, events, reported)"
    by (rule prod_cases3)
  have "counters_read demo_busy_env st' = Some [(''c_1_residual_deny'', 3)]"
    using demo_busy_second(1) one by simp
  from failed_apply_loses_denials [OF demo_busy_first(3,1) one c this two]
  show ?thesis using one two demo_busy_events by blast
qed

section \<open>A long listing\<close>

text \<open>
  What the grammar of JSON gives of a reader: an object is complete only with its closing brace, so no
  proper prefix of the text of an object is a document.
\<close>

definition reads_whole_objects :: "'e exec_env_scheme \<Rightarrow> bool" where
  "reads_whole_objects E \<longleftrightarrow>
     (\<forall>doc fs n. ne_json E doc = Ok (JObj fs) \<longrightarrow> doc \<noteq> [] \<longrightarrow> last doc = CHR ''}'' \<longrightarrow> n < length doc \<longrightarrow>
        (\<exists>e. ne_json E (take n doc) = Err e))"

text \<open>The table is listed as an ASCII object that alone exceeds the limit; blanks may follow it.\<close>

definition lists_beyond_limit :: "'e exec_env_scheme \<Rightarrow> nat \<Rightarrow> bool" where
  "lists_beyond_limit E t \<longleftrightarrow>
     (\<exists>out doc rest fs. ne_run E t LIST_TABLE [] = Ok out \<and> nf_success out \<and> nf_stdout out = doc @ rest \<and>
        ne_json E doc = Ok (JObj fs) \<and> OUTPUT_LIMIT < int (length doc) \<and> last doc = CHR ''}'' \<and>
        (\<forall>c \<in> set doc. \<not> digit7 c))"

lemma query_long_listing:
  assumes "reads_whole_objects E" and listing: "\<And>t. lists_beyond_limit E t"
  shows "\<exists>e. fst (query_named_counters E nft st) = Err e"
proof -
  obtain out doc rest fs where o: "ne_run E (ticks st) LIST_TABLE [] = Ok out" "nf_success out" "nf_stdout out = doc @ rest"
    "ne_json E doc = Ok (JObj fs)" "OUTPUT_LIMIT < int (length doc)" "last doc = CHR ''}''" "\<forall>c \<in> set doc. \<not> digit7 c"
    using listing [of "ticks st"] by (auto simp: lists_beyond_limit_def)
  let ?n = "nat OUTPUT_LIMIT"
  have n: "?n < length doc" using o(5) by (simp add: OUTPUT_LIMIT_def)
  then obtain e where e: "ne_json E (take ?n doc) = Err e"
    using assms(1) o(4,6) by (fastforce simp: reads_whole_objects_def)
  have "\<forall>c \<in> set (take ?n doc). \<not> digit7 c" using o(7) by (meson in_set_takeD)
  then have "read_bounded (nf_stdout out) = take ?n doc"
    using o(3,5) n by (simp add: read_bounded_def utf8_lossy_ascii)
  then have "parse_named_counters E (read_bounded (nf_stdout out)) = Err (ExInvalidCounterDocument e)"
    using e by (simp add: parse_named_counters_def)
  then show ?thesis
    using o(1,2) by (auto simp: query_named_counters_def nft_run_def split: sum.splits if_splits)
qed

lemma apply_inner_needs_counters:
  assumes "\<And>nft (st :: net_runtime). \<exists>e. fst (query_named_counters E nft st) = Err e"
  shows "\<exists>e. apply_inner E st = (Err e, snd (apply_inner E st)) \<and> no_installed (snd (apply_inner E st)) = no_installed st"
proof -
  obtain r st1 where g: "stage_apply E st = (r, st1)" by (rule prod.exhaust)
  show ?thesis
  proof (cases r)
    case (Inl e)
    then show ?thesis using g stage_apply_installed [OF g] by (simp add: apply_inner_def)
  next
    case (Inr g')
    let ?d = "filter (\<lambda>i. \<not> contains_key (sg_next g') i) (bt_keys (nr_installed st1))"
    obtain p st2 where p: "publish_all E ?d st1 = (p, st2)" by (rule prod.exhaust)
    obtain e st3 where q: "query_named_counters E (nr_nft st2) st2 = (Err e, st3)"
      using assms [of "nr_nft st2" st2] by (cases "query_named_counters E (nr_nft st2) st2") auto
    show ?thesis
      using g Inr p q stage_apply_installed [OF g] publish_all_installed [OF p] query_installed [OF q]
      by (cases p) (auto simp: apply_inner_def Let_def)
  qed
qed

text \<open>
  C40. A table whose listing exceeds the 64 KiB output limit stops enforcement from moving. As long as
  every listing \<open>nft\<close> gives is a JSON object of ASCII text longer than the limit, and the JSON reader
  accepts no proper prefix of an object, every reconciliation fails and loads no table, and no
  session is ever declared ready.
\<close>

theorem long_listing_blocks_reconcile:
  assumes "reads_whole_objects E" "\<And>t. lists_beyond_limit E t"
  shows "\<not> is_ok (fst (reconcile E st)) \<and> no_installed (snd (reconcile E st)) = no_installed st \<and>
    \<not> is_ok (fst (session_ready E i pid st))"
proof -
  obtain e where e: "apply_inner E st = (Err e, snd (apply_inner E st))"
    "no_installed (snd (apply_inner E st)) = no_installed st"
    using apply_inner_needs_counters [OF query_long_listing [OF assms]] by blast
  obtain st1 where r: "reconcile E st = (Err e, st1)" "no_installed st1 = no_installed st"
    using e by (cases "apply_inner E st") (auto simp: reconcile_def)
  then show ?thesis by (auto simp: session_ready_def split: sum.splits)
qed

text \<open>A reader of a fragment of JSON, the empty object with blanks between its braces.\<close>

definition demo_empty_object :: "string \<Rightarrow> (string, json) result" where
  "demo_empty_object s =
     (if s \<noteq> [] \<and> hd s = CHR ''{'' \<and> last s = CHR ''}'' \<and> set (butlast (tl s)) \<subseteq> {CHR '' ''} \<and> length s \<ge> 2
      then Ok (JObj []) else Err ''EOF while parsing an object'')"

definition demo_long_listing :: string where
  "demo_long_listing = ''{'' @ replicate 65536 CHR '' '' @ ''}''"

definition demo_long_env :: net_env where
  "demo_long_env = demo_net_env\<lparr>
     ne_run := (\<lambda>_ _ _. Ok \<lparr>nf_success = True, nf_stdout = demo_long_listing @ [CHR 0x0A], nf_stderr = []\<rparr>),
     ne_json := demo_empty_object\<rparr>"

lemma demo_long_reader: "reads_whole_objects demo_long_env"
proof -
  have "\<exists>e. demo_empty_object (take n doc) = Err e" if ok: "demo_empty_object doc = Ok (JObj fs)" and n: "n < length doc" for doc fs n
  proof -
    obtain ws where doc: "doc = CHR ''{'' # ws @ [CHR ''}'']" and ws: "set ws \<subseteq> {CHR '' ''}"
    proof
      have d: "doc \<noteq> []" "hd doc = CHR ''{''" "last doc = CHR ''}''" "set (butlast (tl doc)) \<subseteq> {CHR '' ''}" "tl doc \<noteq> []"
        using ok by (auto simp: demo_empty_object_def tl_Nil split: if_splits)
      show "set (butlast (tl doc)) \<subseteq> {CHR '' ''}" by (rule d)
      show "doc = CHR ''{'' # butlast (tl doc) @ [CHR ''}'']" using d by (metis append_butlast_last_id last_tl list.collapse)
    qed
    have "take n doc = take n (CHR ''{'' # ws)" using n doc by (cases n) simp_all
    then have "set (take n doc) \<subseteq> set (CHR ''{'' # ws)" using set_take_subset by metis
    then have "CHR ''}'' \<notin> set (take n doc)" using ws by auto
    then have "take n doc = [] \<or> last (take n doc) \<noteq> CHR ''}''" using last_in_set by metis
    then show ?thesis by (auto simp: demo_empty_object_def)
  qed
  then show ?thesis by (auto simp: reads_whole_objects_def demo_long_env_def)
qed

lemma demo_blank_object:
  "demo_empty_object (''{'' @ replicate n CHR '' '' @ ''}'') = Ok (JObj [])"
  "length (''{'' @ replicate n CHR '' '' @ ''}'') = n + 2" "last (''{'' @ replicate n CHR '' '' @ ''}'') = CHR ''}''"
  "\<forall>c \<in> set (''{'' @ replicate n CHR '' '' @ ''}''). \<not> digit7 c"
  by (auto simp: demo_empty_object_def butlast_append)

lemma demo_long_listed: "lists_beyond_limit demo_long_env t"
  unfolding lists_beyond_limit_def
proof (intro exI conjI)
  show "ne_run demo_long_env t LIST_TABLE [] = Ok \<lparr>nf_success = True, nf_stdout = demo_long_listing @ [CHR 0x0A], nf_stderr = []\<rparr>"
    by (simp add: demo_long_env_def)
  show "OUTPUT_LIMIT < int (length demo_long_listing)"
    unfolding demo_long_listing_def demo_blank_object by (simp add: OUTPUT_LIMIT_def)
qed (simp_all add: demo_long_env_def demo_long_listing_def demo_blank_object del: append_Cons append_Nil)

theorem long_listing_blocks_reconcile_witness:
  "\<not> is_ok (fst (reconcile demo_long_env demo_runtime)) \<and>
   \<not> is_ok (fst (session_ready demo_long_env ''agt_1'' 7 demo_runtime))"
  using long_listing_blocks_reconcile [OF demo_long_reader demo_long_listed, of demo_runtime "''agt_1''" 7] by simp

end
