(* ===== verification/Spec2Isabelle.thy ===== *)
theory Spec2Isabelle
  imports Credential_Gate Net_Lines Net_Denials
begin

text \<open>
  A verification development for Punar, an enterprise Linux device agent written in Rust (\<open>src/crates\<close>).

  \<^bold>\<open>The program.\<close> Several daemons share one device. \<open>punard\<close> holds the device's policy: it merges the
  layers of the operating system, the organization, the administrator and the user into one effective
  document, drives one backend per capability towards it, and asks a person before an AI agent, or a user
  without standing privilege, changes anything. \<open>punar-secrets\<close> issues short-lived credentials; for a class
  that needs consent it raises an approval with \<open>punard\<close> and spends the answer. \<open>punar-netd\<close> compiles the
  network policy of every managed agent session into one nftables table, loads it, and releases a session
  only when its rule can be read back from the kernel. All three write the same kind of audit trail and
  tell agents from people by the control group of the peer.

  \<^bold>\<open>Conventions.\<close> \<open>Punar_Prelude\<close> has the result type (\<open>Err\<close>, \<open>Ok\<close>), strings as UTF-8 byte lists with the
  operations of the standard library the sources use, and saturating 64-bit arithmetic.
  \<open>Punar_Collections\<close> has \<open>BTreeMap\<close> as a key-sorted association list, behind the locale \<open>ordered_map\<close>.
  A daemon is a record that its handlers take and return; what it calls outside the sources (the kernel,
  the disk, the clock, random bytes, the serde readers and writers, \<open>nft\<close>) is a field of an environment
  record, asked with the number of the call (\<open>ticks\<close>), so that no answer is assumed to repeat. Loops are
  structural recursion, or have a termination proof. One loop has a bound of its own: \<open>evict_loop\<close>
  is given as many rounds as there are records, which is enough because every round but the last
  removes one. A handler of \<open>punard\<close> is one step of the runs: the approval handlers
  hold the lock of the approval store from the sweep to the write. The broker holds
  no lock across the calls of a request to \<open>punard\<close>, so other clients of \<open>punard\<close> act between those
  calls in the model; two requests of the broker itself are not interleaved. What other daemons do
  to the same audit trail at the same time is left out.

  \<^bold>\<open>Policy.\<close> \<open>Punar_Policy\<close> (\<open>punar-policy\<close>) has the precedence ladder and the merge; \<open>Effective_Policy\<close>
  (\<open>punard/src/policy.rs\<close>) the effective document, which is shown to be a cascade of decisions, and the
  application policy. \<open>Punar_Time\<close> (\<open>punar-common/src/time.rs\<close>) has the timestamp format and its round
  trip, up to the year 9999; \<open>Ai_Policy\<close> the documents that say what agents may do.

  \<^bold>\<open>Machine, callers, trail.\<close> \<open>Punar_Machine\<close> (\<open>punard/src/util.rs\<close>), \<open>Punar_Principal\<close>
  (\<open>principal.rs\<close>, \<open>capability.rs\<close>, \<open>authz.rs\<close>) and \<open>Punar_Audit\<close> (\<open>audit.rs\<close>): atomic writes that may
  fail, the attribution of a peer to an agent session, and the append-only trail with torn writes and
  rotation.

  \<^bold>\<open>Approvals.\<close> \<open>Punar_Approval\<close> has the records, \<open>Approval_Store\<close> (\<open>punard/src/approvals.rs\<close>) the store
  in memory and on disk with its invariant, \<open>Punar_Daemon\<close> (\<open>server.rs\<close>) the settle path, and
  \<open>Approval_Gate\<close> (\<open>server/m9.rs\<close>) every handler of the gate. \<open>Gate_Rules\<close> proves what each handler may
  do. \<open>Gate_Machine\<close> makes them a transition system over \<open>dispatch\<close>, proves its invariant, that a
  decision is final, and that it refines the abstract life cycle of a question. \<open>Reconcile\<close> is the
  remediation pass and its bounds; \<open>Device_Policy\<close> is \<open>policy.set\<close> with its re-authentication tickets.

  \<^bold>\<open>Credentials.\<close> \<open>Sha256\<close> is the hand-written hash at word level, equal to the standard's definition.
  \<open>Credential_Policy\<close>, \<open>Token_Store\<close> and \<open>Credential_Broker\<close> (\<open>punar-secrets/src\<close>) are the catalog, the
  store and the handlers, written over the calls of an approval engine. \<open>Approval_Link\<close> states what
  the broker relies on as the locale \<open>approval_service\<close> and interprets it on \<open>punard\<close>'s own handlers
  behind a socket that may lose a request or an answer and that serves other clients in between.
  Approval identifiers are 32 random bits and nothing checks that one is unused. No theorem assumes
  that they do not repeat: what is said of one question holds until the random device yields its
  identifier again, which \<open>drawn\<close> states.
  \<open>Credential_Gate\<close> follows every token back to the person who approved it.

  \<^bold>\<open>Network.\<close> \<open>Net_Model\<close> and \<open>Net_Policy\<close> (\<open>punar-netd/src/model.rs\<close>, \<open>policy.rs\<close>) have the names,
  addresses at their machine width, zones and the compiler; \<open>Net_View\<close> (\<open>view.rs\<close>) the privacy view.
  \<open>Net_Ruleset\<close> (\<open>nft.rs\<close>) renders the table, and beside the text defines the fragment of nftables it
  is written in and the verdict of that fragment on a packet; the rendered file is proved to be the
  text of such a table and its verdict to be the compiled policy. \<open>Net_Lines\<close> proves that no name or
  path can leave its place in that file. \<open>Net_Exec\<close> (\<open>nft_exec.rs\<close>) runs \<open>nft\<close>, which may have loaded
  a table even when its run is reported as failed, and reads back; its trust check of the program path
  says nothing of links between the configured path and the file it resolves to.
  \<open>Net_Sessions\<close> (\<open>agentd.rs\<close>, \<open>project.rs\<close>) finds the sessions and their policies, \<open>Net_Runtime\<close>
  (\<open>runtime.rs\<close>) reconciles and answers the launch barrier. \<open>Net_Gate\<close> puts them together: a session
  that was released is confined. \<open>Net_Denials\<close> shows what a failed pass loses.

  \<^bold>\<open>Hypotheses.\<close> Each is stated where it is used and met in a witness. \<open>clock_in_range\<close>: the clock stays
  before the year 10000. \<open>urandom_fills\<close>: the random device fills the buffer. The readers and writers of
  a record invert each other. \<open>reads_whole_objects\<close>: the JSON reader takes no proper prefix of the text
  of an object for a document. \<open>nft_reads\<close>: \<open>nft\<close> gives the file of a table of the fragment the verdicts of that
  table; it is used for paths without a backslash, whose escape is \<open>nft\<close>'s own. Error values keep their
  codes and the data the code branches on; the wording of a message is kept only where code reads it.

  \<^bold>\<open>Bounds.\<close> Those of the sources, under their own names (\<open>MAX_PENDING_APPROVALS\<close>,
  \<open>MAX_LIVE_TOKENS\<close>, \<open>MAX_REMEDIATION_ATTEMPTS\<close>, \<open>OUTPUT_LIMIT\<close> and so on); counters are 64-bit and
  saturate or wrap as the code does.

  \<^bold>\<open>Not modelled.\<close> Socket listeners, framing and worker threads: plumbing around the handlers. Of
  \<open>punar-netd\<close>, the server, the inotify watcher, the scan of \<open>/proc\<close> and of netlink sockets, the
  kernel-log reader, the relay file and the connection pass. The backends of \<open>punard\<close>, each of which
  drives one system service, are parameters. Updates, boot images, the installer, enrollment and the
  control-plane exchange are subprocesses, downloads and signatures outside the sources. \<open>punarctl\<close>,
  \<open>punar-onboard\<close>, \<open>punar-recovery\<close>, \<open>punar-workspace\<close>, \<open>punar-env\<close> and the shell are clients and
  launchers; \<open>punar-agentd\<close> is seen through the answers it gives to \<open>punar-netd\<close>.
\<close>

end
